(* ===== verification/Prelude.thy ===== *)
theory Prelude
  imports Main "HOL-Library.Word"
begin

text \<open>
  What the components share: the names of the machine integers, the saturating arithmetic of
  the Rust integer types on them, a runner for step functions with outputs (a component is a
  function from a state and an input to a state and an output), and the theorem collections
  the component proofs draw on.
\<close>

subsection \<open>Theorem collections\<close>

named_theorems model_simps \<open>characteristic equations of the model's operations\<close>
named_theorems inv_intros \<open>preservation of component invariants\<close>

subsection \<open>Machine integers\<close>

type_synonym u8 = "8 word"
type_synonym u16 = "16 word"
type_synonym u32 = "32 word"
type_synonym u64 = "64 word"
type_synonym i8 = "8 word"
type_synonym i64 = "64 word"

text \<open>Fallible Rust code returns \<open>Result<T, E>\<close>; here \<open>Inl\<close> carries the error.\<close>

type_synonym ('e, 'a) rresult = "'e + 'a"

text \<open>A step that may fail, with the state it leaves, and the rest of the body after its \<open>?\<close>.\<close>

definition and_then :: "('e + 'a) \<times> 's \<Rightarrow> ('a \<Rightarrow> 's \<Rightarrow> ('e + 'b) \<times> 's) \<Rightarrow> ('e + 'b) \<times> 's" where
  "and_then r f = (case r of (Inl e, s) \<Rightarrow> (Inl e, s) | (Inr a, s) \<Rightarrow> f a s)"

lemma and_then_simps [simp]:
  "and_then (Inl e, s) f = (Inl e, s)" "and_then (Inr a, s) f = f a s"
  by (simp_all add: and_then_def)

definition sat_add :: "'a::len word \<Rightarrow> 'a word \<Rightarrow> 'a word" where
  "sat_add x y = (if unat x + unat y < 2 ^ LENGTH('a) then x + y else - 1)"

definition sat_sub :: "'a::len word \<Rightarrow> 'a word \<Rightarrow> 'a word" where
  "sat_sub x y = (if y \<le> x then x - y else 0)"

text \<open>\<open>u64::saturating_add_signed\<close>: the second operand is read as two's complement.\<close>

definition sat_add_signed :: "'a::len word \<Rightarrow> 'a word \<Rightarrow> 'a word" where
  "sat_add_signed x d =
     (let s = uint x + sint d in
      if s < 0 then 0 else if s < 2 ^ LENGTH('a) then word_of_int s else - 1)"

lemma unat_neg_one: "unat (- 1 :: 'a::len word) = 2 ^ LENGTH('a) - 1"
proof -
  have "uint (- 1 :: 'a word) = 2 ^ LENGTH('a) - 1"
    by (simp add: unsigned_minus_1_eq_mask mask_eq_exp_minus_1)
  then have "int (unat (- 1 :: 'a word)) = int (2 ^ LENGTH('a) - 1)"
    by (simp add: of_nat_diff)
  then show ?thesis by (simp only: of_nat_eq_iff)
qed

lemma unat_sat_add:
  "unat (sat_add x y) = min (unat x + unat y) (2 ^ LENGTH('a) - 1)" for x y :: "'a::len word"
  by (auto simp: sat_add_def unat_word_ariths unat_neg_one min_def)

lemma unat_sat_sub: "unat (sat_sub x y) = unat x - unat y"
  by (auto simp: sat_sub_def unat_sub word_le_nat_alt)

lemma uint_neg_one: "uint (- 1 :: 'a::len word) = 2 ^ LENGTH('a) - 1"
  by (simp add: unsigned_minus_1_eq_mask mask_eq_exp_minus_1)

lemma uint_sat_add_signed:
  "uint (sat_add_signed x d) = max 0 (min (uint x + sint d) (2 ^ LENGTH('a) - 1))"
  for x d :: "'a::len word"
proof -
  have b: "uint (word_of_int s :: 'a word) = s" if "0 \<le> s" "s < 2 ^ LENGTH('a)" for s
    using that by (simp add: uint_word_of_int)
  let ?s = "uint x + sint d"
  have pos: "(0::int) < 2 ^ LENGTH('a)" by simp
  consider "?s < 0" | "0 \<le> ?s" "?s < 2 ^ LENGTH('a)" | "2 ^ LENGTH('a) \<le> ?s"
    by linarith
  then show ?thesis
  proof cases
    case 1
    with pos show ?thesis by (simp add: sat_add_signed_def)
  next
    case 2
    then show ?thesis using b [of ?s] by (simp add: sat_add_signed_def del: of_int_add)
  next
    case 3
    then have "\<not> ?s < 0" using pos by linarith
    with 3 show ?thesis by (simp add: sat_add_signed_def uint_neg_one)
  qed
qed

lemma sat_add_mono: "x \<le> sat_add x y"
  by (simp add: word_le_nat_alt unat_sat_add) (metis unsigned_less less_Suc_eq_le Suc_pred
      zero_less_numeral zero_less_power)

lemma unat_of_nat_small: "n < 2 ^ LENGTH('a) \<Longrightarrow> unat (of_nat n :: 'a::len word) = n"
  by (simp add: unsigned_of_nat take_bit_nat_eq_self)

lemma unat_bound: "unat (x :: 'a::len word) < 2 ^ LENGTH('a)"
  by (rule unsigned_less)

text \<open>Below some word of its type a counter has room for one more.\<close>

lemma unat_succ:
  fixes x t :: "'a::len word"
  assumes "unat x < unat t"
  shows "unat (x + 1) = Suc (unat x)"
proof -
  have "Suc (unat x) < 2 ^ LENGTH('a)" using assms unat_bound [of t] by linarith
  then show ?thesis by (simp add: unat_word_ariths)
qed

text \<open>A positive counter counted down once.\<close>

lemma unat_pred:
  fixes x :: "'a::len word"
  assumes "0 < x"
  shows "unat (x - 1) = unat x - 1"
proof -
  have "1 \<le> x" using assms by (simp add: word_le_nat_alt word_less_nat_alt)
  then show ?thesis by (simp add: unat_sub)
qed

subsection \<open>Step functions and their runs\<close>

text \<open>
  \<open>run step s xs\<close> feeds the inputs one by one and collects the outputs; it is the shape of
  every cyclic component of the program (a debouncer fed by samples, a pulse by ticks, the
  control cycle by scans).
\<close>

fun run :: "('s \<Rightarrow> 'i \<Rightarrow> 'o \<times> 's) \<Rightarrow> 's \<Rightarrow> 'i list \<Rightarrow> 'o list \<times> 's" where
  "run step s [] = ([], s)"
| "run step s (x # xs) =
     (let (y, s') = step s x; (ys, s'') = run step s' xs in (y # ys, s''))"

definition run_outs :: "('s \<Rightarrow> 'i \<Rightarrow> 'o \<times> 's) \<Rightarrow> 's \<Rightarrow> 'i list \<Rightarrow> 'o list" where
  "run_outs step s xs = fst (run step s xs)"

definition run_end :: "('s \<Rightarrow> 'i \<Rightarrow> 'o \<times> 's) \<Rightarrow> 's \<Rightarrow> 'i list \<Rightarrow> 's" where
  "run_end step s xs = snd (run step s xs)"

lemma run_outs_Nil [simp]: "run_outs step s [] = []"
  by (simp add: run_outs_def)

lemma run_end_Nil [simp]: "run_end step s [] = s"
  by (simp add: run_end_def)

lemma run_outs_Cons [simp]:
  "run_outs step s (x # xs) = fst (step s x) # run_outs step (snd (step s x)) xs"
  by (simp add: run_outs_def Let_def split: prod.split)

lemma run_end_Cons [simp]: "run_end step s (x # xs) = run_end step (snd (step s x)) xs"
  by (simp add: run_end_def Let_def split: prod.split)

lemma run_end_append: "run_end step s (xs @ ys) = run_end step (run_end step s xs) ys"
  by (induction xs arbitrary: s) auto

lemma run_outs_append:
  "run_outs step s (xs @ ys) = run_outs step s xs @ run_outs step (run_end step s xs) ys"
  by (induction xs arbitrary: s) auto

lemma run_append:
  "run step s (xs @ ys) =
     (let (as, s') = run step s xs; (bs, s'') = run step s' ys in (as @ bs, s''))"
  by (induction xs arbitrary: s) (auto simp: Let_def split: prod.splits)

lemma length_run_outs [simp]: "length (run_outs step s xs) = length xs"
  by (induction xs arbitrary: s) auto

lemma run_end_snoc: "run_end step s (xs @ [x]) = snd (step (run_end step s xs) x)"
  by (simp add: run_end_append)

lemma nth_run_outs:
  "i < length xs \<Longrightarrow> run_outs step s xs ! i = fst (step (run_end step s (take i xs)) (xs ! i))"
  by (induction xs arbitrary: s i) (auto simp: nth_Cons take_Cons split: nat.splits)

text \<open>
  The contract of a component with an invariant: every step keeps it, and what every step
  emits from a state that has it satisfies \<open>good\<close>. Each component interprets it once and
  gets the statement about all its runs.
\<close>

locale safe_machine =
  fixes step :: "'s \<Rightarrow> 'i \<Rightarrow> 'o \<times> 's"
    and inv :: "'s \<Rightarrow> bool"
    and good :: "'i \<Rightarrow> 'o \<Rightarrow> bool"
  assumes step_inv: "inv s \<Longrightarrow> inv (snd (step s x))"
    and step_good: "inv s \<Longrightarrow> good x (fst (step s x))"
begin

lemma run_inv: "inv s \<Longrightarrow> inv (run_end step s xs)"
  by (induction xs arbitrary: s) (auto intro: step_inv)

lemma run_good: "inv s \<Longrightarrow> list_all2 good xs (run_outs step s xs)"
  by (induction xs arbitrary: s) (auto intro: step_inv step_good)

lemma nth_good: "inv s \<Longrightarrow> i < length xs \<Longrightarrow> good (xs ! i) (run_outs step s xs ! i)"
  using run_good list_all2_nthD by blast

end

subsection \<open>Loops over a list\<close>

lemma fold_invariant_set:
  assumes "P s" "\<And>x t. x \<in> set xs \<Longrightarrow> P t \<Longrightarrow> P (f x t)"
  shows "P (fold f xs s)"
  using assms by (induction xs arbitrary: s) auto

end
