(* ===== verification/InputConditioner.thy ===== *)
theory InputConditioner
  imports Prelude
begin

text \<open>
  Debouncing and edge detection of one input bit (\<open>baler-core/src/input_conditioner.rs\<close>):
  the debouncer's state, its constructor and its per-sample update, then the invariant that
  ties the pending counter to the samples seen, the exact characterisation of the debounced
  level by the last \<open>threshold\<close> samples, and the level-filter contract the control cycle uses.
\<close>

subsection \<open>The code\<close>

datatype edge = NoEdge | Rising | Falling

record debouncer =
  db_threshold :: u8
  db_level :: bool
  db_candidate :: bool
  db_count :: u8

definition db_new :: "u8 \<Rightarrow> bool \<Rightarrow> debouncer" where
  "db_new threshold initial =
     \<lparr>db_threshold = max threshold 1, db_level = initial, db_candidate = initial, db_count = 0\<rparr>"

definition db_update :: "debouncer \<Rightarrow> bool \<Rightarrow> edge \<times> debouncer" where
  "db_update d raw =
     (if raw = db_level d then
        (NoEdge, d\<lparr>db_candidate := raw, db_count := 0\<rparr>)
      else
        let d1 = (if raw = db_candidate d then d\<lparr>db_count := sat_add (db_count d) 1\<rparr>
                  else d\<lparr>db_candidate := raw, db_count := 1\<rparr>)
        in if db_threshold d1 \<le> db_count d1 then
             (if raw then Rising else Falling, d1\<lparr>db_level := raw, db_count := 0\<rparr>)
           else (NoEdge, d1))"

subsection \<open>Invariant\<close>

definition db_wf :: "debouncer \<Rightarrow> bool" where
  "db_wf d \<longleftrightarrow> 1 \<le> db_threshold d \<and> db_count d < db_threshold d
     \<and> (db_candidate d = db_level d \<longleftrightarrow> db_count d = 0)"

lemma db_wf_new [inv_intros]: "db_wf (db_new t i)"
  by (auto simp: db_wf_def db_new_def word_less_nat_alt word_le_nat_alt max_def)

text \<open>The saturating increment never saturates: the count stays below the threshold.\<close>

lemma sat_count_succ: "db_wf d \<Longrightarrow> sat_add (db_count d) 1 = db_count d + 1"
  using unat_bound [of "db_threshold d"]
  by (simp add: db_wf_def sat_add_def word_less_nat_alt)

lemma unat_count_succ: "db_wf d \<Longrightarrow> unat (db_count d + 1) = Suc (unat (db_count d))"
  by (rule unat_succ [of _ "db_threshold d"]) (simp add: db_wf_def word_less_nat_alt)

lemma db_update_threshold [simp]: "db_threshold (snd (db_update d raw)) = db_threshold d"
  by (simp add: db_update_def Let_def)

lemma db_update_same [simp]:
  "raw = db_level d \<Longrightarrow> db_level (snd (db_update d raw)) = db_level d"
  by (simp add: db_update_def)

text \<open>One update, with the two ways the count can grow merged into one.\<close>

lemma db_update_eq:
  assumes "db_wf d"
  shows "db_update d raw =
    (if raw = db_level d then (NoEdge, d\<lparr>db_candidate := raw, db_count := 0\<rparr>)
     else if Suc (unat (db_count d)) < unat (db_threshold d) then
       (NoEdge, d\<lparr>db_candidate := raw, db_count := db_count d + 1\<rparr>)
     else (if raw then Rising else Falling,
           d\<lparr>db_candidate := raw, db_level := raw, db_count := 0\<rparr>))"
proof (cases "raw = db_level d")
  case True
  then show ?thesis by (simp add: db_update_def)
next
  case False
  have d1: "(if raw = db_candidate d then d\<lparr>db_count := sat_add (db_count d) 1\<rparr>
             else d\<lparr>db_candidate := raw, db_count := 1\<rparr>)
           = d\<lparr>db_candidate := raw, db_count := db_count d + 1\<rparr>"
    using False assms sat_count_succ [OF assms] by (auto simp: db_wf_def)
  show ?thesis
    unfolding db_update_def d1 using False unat_count_succ [OF assms]
    by (simp add: Let_def word_le_nat_alt not_le)
qed

lemma db_wf_update [inv_intros]:
  assumes "db_wf d"
  shows "db_wf (snd (db_update d raw))"
proof -
  have "db_count d + 1 \<noteq> 0"
    using unat_count_succ [OF assms] by (metis nat.simps(3) unat_0)
  then show ?thesis
    using assms unat_count_succ [OF assms] unfolding db_update_eq [OF assms]
    by (auto simp: db_wf_def word_less_nat_alt word_le_nat_alt)
qed

lemma db_edge_iff:
  assumes "db_wf d"
  shows "fst (db_update d raw) =
    (if db_level (snd (db_update d raw)) = db_level d then NoEdge
     else if raw then Rising else Falling)"
  using assms by (auto simp: db_update_eq)

subsection \<open>The level is decided by the last threshold samples\<close>

definition trail :: "bool \<Rightarrow> bool list \<Rightarrow> nat" where
  "trail v xs = length (takeWhile (\<lambda>x. x = v) (rev xs))"

lemma trail_snoc [simp]: "trail v (xs @ [x]) = (if x = v then Suc (trail v xs) else 0)"
  by (simp add: trail_def)

lemma trail_Nil [simp]: "trail v [] = 0"
  by (simp add: trail_def)

lemma trail_ge_iff:
  "n \<le> trail v xs \<longleftrightarrow> n \<le> length xs \<and> (\<forall>x\<in>set (drop (length xs - n) xs). x = v)"
proof (induction xs arbitrary: n rule: rev_induct)
  case Nil
  then show ?case by auto
next
  case (snoc x xs)
  show ?case
  proof (cases n)
    case 0
    then show ?thesis by simp
  next
    case (Suc m)
    then show ?thesis using snoc.IH [of m] by (auto simp: Suc_diff_le)
  qed
qed

text \<open>The pending count is the number of trailing samples that disagree with the level.\<close>

lemma db_count_trail:
  assumes "db_wf d" "unat (db_count d) = 0"
  defines "e xs \<equiv> run_end db_update d xs"
  shows "db_wf (e xs) \<and> db_threshold (e xs) = db_threshold d
    \<and> unat (db_count (e xs)) = trail (\<not> db_level (e xs)) xs"
proof (induction xs rule: rev_induct)
  case Nil
  then show ?case using assms by simp
next
  case (snoc x xs)
  then have wf: "db_wf (e xs)" and thr: "db_threshold (e xs) = db_threshold d"
    and cnt: "unat (db_count (e xs)) = trail (\<not> db_level (e xs)) xs" by auto
  have e: "e (xs @ [x]) = snd (db_update (e xs) x)"
    by (simp add: e_def run_end_snoc)
  have "unat (db_count (e (xs @ [x]))) = trail (\<not> db_level (e (xs @ [x]))) (xs @ [x])"
    unfolding e db_update_eq [OF wf] using cnt unat_count_succ [OF wf] by auto
  then show ?case using wf thr by (simp add: e db_wf_update)
qed

lemma db_level_trail:
  assumes "db_wf d" "unat (db_count d) = trail (\<not> db_level d) xs"
  shows "db_level (snd (db_update d x)) =
    (if unat (db_threshold d) \<le> trail x (xs @ [x]) then x else db_level d)"
  using assms(2) unfolding db_update_eq [OF assms(1)] by auto

subsection \<open>The contract of a level filter\<close>

text \<open>
  What the control cycle relies on: a conditioned level changes only to the raw sample, so an
  input that is never asserted never shows as asserted.
\<close>

locale level_filter =
  fixes upd :: "'d \<Rightarrow> bool \<Rightarrow> 'o \<times> 'd"
    and level :: "'d \<Rightarrow> bool"
    and wf :: "'d \<Rightarrow> bool"
  assumes upd_wf: "wf d \<Longrightarrow> wf (snd (upd d raw))"
    and upd_level: "wf d \<Longrightarrow> level (snd (upd d raw)) \<noteq> level d \<Longrightarrow> level (snd (upd d raw)) = raw"
begin

lemma no_spurious_rise: "wf d \<Longrightarrow> \<not> level d \<Longrightarrow> level (snd (upd d raw)) \<Longrightarrow> raw"
  using upd_level by blast

lemma constant_input:
  "wf d \<Longrightarrow> level d = v \<Longrightarrow> \<forall>x\<in>set xs. x = v \<Longrightarrow> level (run_end upd d xs) = v"
proof (induction xs arbitrary: d)
  case Nil
  then show ?case by simp
next
  case (Cons x xs)
  then have "level (snd (upd d x)) = v" using upd_level by (metis list.set_intros(1))
  then show ?case using Cons by (simp add: upd_wf)
qed

end

interpretation db: level_filter db_update db_level db_wf
proof unfold_locales
  fix d raw
  assume wf: "db_wf d"
  then show "db_wf (snd (db_update d raw))" by (rule db_wf_update)
  assume "db_level (snd (db_update d raw)) \<noteq> db_level d"
  then show "db_level (snd (db_update d raw)) = raw"
    by (auto simp: db_update_eq [OF wf] split: if_splits)
qed

interpretation db_run: safe_machine db_update db_wf
  "\<lambda>raw e. e = NoEdge \<or> e = (if raw then Rising else Falling)"
proof unfold_locales
  fix s :: debouncer and x
  assume wf: "db_wf s"
  then show "db_wf (snd (db_update s x))" by (rule db_wf_update)
  show "fst (db_update s x) = NoEdge \<or> fst (db_update s x) = (if x then Rising else Falling)"
    by (simp add: db_edge_iff [OF wf])
qed

subsection \<open>Properties\<close>

text \<open>C25. After any samples from a fresh debouncer, one more sample \<open>x\<close> sets the debounced
  level to \<open>x\<close> exactly when the last \<open>max threshold 1\<close> samples (this one included) were all
  \<open>x\<close>; otherwise the level is unchanged. So a glitch shorter than the threshold never passes
  and a sustained change always does, on the sample that completes the threshold.\<close>

theorem debounce_characterised:
  fixes threshold :: u8 and initial x :: bool and xs :: "bool list"
  defines "t \<equiv> unat (max threshold 1)"
    and "lvl ys \<equiv> db_level (run_end db_update (db_new threshold initial) ys)"
    and "h \<equiv> xs @ [x]"
  shows "lvl h = (if t \<le> length h \<and> (\<forall>y\<in>set (drop (length h - t) h). y = x) then x else lvl xs)"
proof -
  let ?d = "db_new threshold initial"
  let ?e = "run_end db_update ?d xs"
  have base: "db_wf ?d" "unat (db_count ?d) = 0" by (rule db_wf_new, simp add: db_new_def)
  note i = db_count_trail [OF base, of xs]
  have thr: "unat (db_threshold ?e) = t" using i by (simp add: db_new_def t_def)
  have "lvl h = db_level (snd (db_update ?e x))" by (simp add: lvl_def h_def run_end_snoc)
  also have "\<dots> = (if t \<le> trail x h then x else db_level ?e)"
    using db_level_trail [of ?e xs x] i thr by (simp only: h_def)
  also have "\<dots> = (if t \<le> length h \<and> (\<forall>y\<in>set (drop (length h - t) h). y = x) then x else lvl xs)"
    by (simp only: trail_ge_iff lvl_def)
  finally show ?thesis .
qed

theorem debounce_characterised_witness:
  "db_level (run_end db_update (db_new 2 False) ([False, True] @ [True]))"
  using debounce_characterised [of 2 False "[False, True]" True] by (simp add: word_le_nat_alt max_def)

text \<open>The reported edge is exactly the change of the debounced level on that sample: \<open>Rising\<close>
  when it went from low to high, \<open>Falling\<close> when it went from high to low, none otherwise, in
  every state a debouncer can reach.\<close>

theorem debounce_edges_exact:
  fixes d :: debouncer
  assumes "d = run_end db_update (db_new threshold initial) xs"
  shows "fst (db_update d raw) =
    (case (db_level d, db_level (snd (db_update d raw))) of
       (False, True) \<Rightarrow> Rising | (True, False) \<Rightarrow> Falling | _ \<Rightarrow> NoEdge)"
proof -
  have wf: "db_wf d" unfolding assms by (rule db_run.run_inv [OF db_wf_new])
  show ?thesis by (auto simp: db_update_eq [OF wf] split: bool.splits)
qed

theorem debounce_edges_exact_witness:
  "fst (db_update (run_end db_update (db_new 3 False) [True, True]) True) = Rising"
  by (subst debounce_edges_exact [OF refl]) (simp add: db_update_def db_new_def sat_add_def max_def word_le_nat_alt)

end
