(* ===== verification/RustTime.thy ===== *)
theory RustTime
  imports Prelude
begin

text \<open>
  \<open>std::time::Duration\<close>: whole seconds and a sub-second part in nanoseconds, ordered
  lexicographically, with the checked and saturating additions of the standard library.
  \<open>dur_ns\<close> reads a duration as a number of nanoseconds; on valid durations the order and the
  saturating addition are those of the numbers.
\<close>

datatype duration = Duration (d_secs: u64) (d_nanos: u32)

definition NANOS_PER_SEC :: nat where
  "NANOS_PER_SEC = 1000000000"

definition dur_valid :: "duration \<Rightarrow> bool" where
  "dur_valid d \<longleftrightarrow> unat (d_nanos d) < NANOS_PER_SEC"

definition dur_ns :: "duration \<Rightarrow> nat" where
  "dur_ns d = unat (d_secs d) * NANOS_PER_SEC + unat (d_nanos d)"

definition DUR_ZERO :: duration where
  "DUR_ZERO = Duration 0 0"

definition DUR_MAX :: duration where
  "DUR_MAX = Duration (- 1) 999999999"

definition from_secs :: "u64 \<Rightarrow> duration" where
  "from_secs n = Duration n 0"

definition from_millis :: "u64 \<Rightarrow> duration" where
  "from_millis n = Duration (n div 1000) (ucast (n mod 1000) * 1000000)"

instantiation duration :: linorder
begin

definition less_eq_duration :: "duration \<Rightarrow> duration \<Rightarrow> bool" where
  "less_eq_duration x y \<longleftrightarrow>
     d_secs x < d_secs y \<or> (d_secs x = d_secs y \<and> d_nanos x \<le> d_nanos y)"

definition less_duration :: "duration \<Rightarrow> duration \<Rightarrow> bool" where
  "less_duration x y \<longleftrightarrow>
     d_secs x < d_secs y \<or> (d_secs x = d_secs y \<and> d_nanos x < d_nanos y)"

instance
proof
  fix x y z :: duration
  show "x < y \<longleftrightarrow> x \<le> y \<and> \<not> y \<le> x"
    unfolding less_eq_duration_def less_duration_def by auto
  show "x \<le> x"
    unfolding less_eq_duration_def by simp
  show "x \<le> y \<Longrightarrow> y \<le> z \<Longrightarrow> x \<le> z"
    unfolding less_eq_duration_def by auto
  show "x \<le> y \<Longrightarrow> y \<le> x \<Longrightarrow> x = y"
    unfolding less_eq_duration_def by (auto intro: duration.expand)
  show "x \<le> y \<or> y \<le> x"
    unfolding less_eq_duration_def by auto
qed

end

definition dur_checked_add :: "duration \<Rightarrow> duration \<Rightarrow> duration option" where
  "dur_checked_add a b =
     (if unat (d_secs a) + unat (d_secs b) < 2 ^ 64 then
        let secs = d_secs a + d_secs b; nanos = d_nanos a + d_nanos b in
        if 1000000000 \<le> nanos then
          (if unat secs + 1 < 2 ^ 64 then Some (Duration (secs + 1) (nanos - 1000000000))
           else None)
        else Some (Duration secs nanos)
      else None)"

definition dur_sat_add :: "duration \<Rightarrow> duration \<Rightarrow> duration" where
  "dur_sat_add a b = (case dur_checked_add a b of Some d \<Rightarrow> d | None \<Rightarrow> DUR_MAX)"

lemma lex_le_iff:
  fixes a b c d m :: nat
  assumes "c < m" "d < m"
  shows "a * m + c \<le> b * m + d \<longleftrightarrow> a < b \<or> (a = b \<and> c \<le> d)"
proof -
  have lt: "x * m + u < y * m + v" if "x < y" "u < m" for x y u v :: nat
  proof -
    have "x * m + u < Suc x * m" using that by simp
    also have "\<dots> \<le> y * m" using that by (intro mult_le_mono1) simp
    also have "\<dots> \<le> y * m + v" by simp
    finally show ?thesis .
  qed
  show ?thesis
    using lt [of a b c d] lt [of b a d c] assms by (cases a b rule: linorder_cases) auto
qed

lemma dur_le_iff:
  assumes "dur_valid a" "dur_valid b"
  shows "a \<le> b \<longleftrightarrow> dur_ns a \<le> dur_ns b"
  using lex_le_iff [OF assms [unfolded dur_valid_def]]
  by (simp add: less_eq_duration_def dur_ns_def word_less_nat_alt word_le_nat_alt
      word_unat_eq_iff)

lemma dur_valid_zero [simp]: "dur_valid DUR_ZERO"
  and dur_ns_zero [simp]: "dur_ns DUR_ZERO = 0"
  by (simp_all add: dur_valid_def DUR_ZERO_def NANOS_PER_SEC_def dur_ns_def)

lemma dur_valid_max [simp]: "dur_valid DUR_MAX"
  by (simp add: dur_valid_def DUR_MAX_def NANOS_PER_SEC_def)

lemma dur_ns_max: "dur_ns DUR_MAX = 2 ^ 64 * NANOS_PER_SEC - 1"
  by (simp add: dur_ns_def DUR_MAX_def NANOS_PER_SEC_def unat_neg_one)

lemma unat_nanos_add:
  "dur_valid a \<Longrightarrow> dur_valid b \<Longrightarrow>
     unat (d_nanos a + d_nanos b) = unat (d_nanos a) + unat (d_nanos b)"
  by (simp add: dur_valid_def NANOS_PER_SEC_def unat_word_ariths)

text \<open>The saturating addition is the addition of the nanoseconds, capped at the maximum.\<close>

lemma dur_checked_add_Some:
  assumes v: "dur_valid a" "dur_valid b" and s: "dur_checked_add a b = Some d"
  shows "dur_valid d \<and> dur_ns d = dur_ns a + dur_ns b"
proof -
  note na = unat_nanos_add [OF v]
  have secs: "unat (d_secs a + d_secs b) = unat (d_secs a) + unat (d_secs b)"
    using s by (auto simp: dur_checked_add_def unat_word_ariths split: if_splits)
  show ?thesis
  proof (cases "1000000000 \<le> d_nanos a + d_nanos b")
    case True
    then have nn: "unat (d_nanos a + d_nanos b - 1000000000)
        = unat (d_nanos a) + unat (d_nanos b) - 1000000000"
      using na by (simp add: unat_sub word_le_nat_alt)
    have ge: "1000000000 \<le> unat (d_nanos a) + unat (d_nanos b)"
      using True na by (simp add: word_le_nat_alt)
    have c: "unat (d_secs a + d_secs b) + 1 < 2 ^ 64"
      and d: "d = Duration (d_secs a + d_secs b + 1) (d_nanos a + d_nanos b - 1000000000)"
      using s True by (auto simp: dur_checked_add_def Let_def split: if_splits)
    have ss: "unat (d_secs a + d_secs b + 1) = unat (d_secs a + d_secs b) + 1"
      using c by (subst unat_word_ariths) simp
    show ?thesis
      unfolding dur_valid_def dur_ns_def d duration.sel nn ss secs
      using ge v by (simp add: dur_valid_def NANOS_PER_SEC_def algebra_simps)
  next
    case False
    then have d: "d = Duration (d_secs a + d_secs b) (d_nanos a + d_nanos b)"
      using s by (auto simp: dur_checked_add_def Let_def split: if_splits)
    have "unat (d_nanos a) + unat (d_nanos b) < 1000000000"
      using False na by (simp add: word_le_nat_alt)
    then show ?thesis
      unfolding dur_valid_def dur_ns_def d duration.sel secs na
      by (simp add: NANOS_PER_SEC_def algebra_simps)
  qed
qed

lemma dur_checked_add_None:
  assumes v: "dur_valid a" "dur_valid b" and s: "dur_checked_add a b = None"
  shows "2 ^ 64 * NANOS_PER_SEC \<le> dur_ns a + dur_ns b"
proof (cases "unat (d_secs a) + unat (d_secs b) < 2 ^ 64")
  case True
  then have secs: "unat (d_secs a + d_secs b) = unat (d_secs a) + unat (d_secs b)"
    by (simp add: unat_word_ariths)
  have "1000000000 \<le> unat (d_nanos a) + unat (d_nanos b)"
    using s True unat_nanos_add [OF v]
    by (auto simp: dur_checked_add_def Let_def word_le_nat_alt split: if_splits)
  moreover have "2 ^ 64 \<le> unat (d_secs a) + unat (d_secs b) + 1"
    using s True secs by (auto simp: dur_checked_add_def Let_def split: if_splits)
  ultimately show ?thesis by (simp add: dur_ns_def NANOS_PER_SEC_def)
next
  case False
  then show ?thesis by (simp add: dur_ns_def NANOS_PER_SEC_def)
qed

lemma dur_ns_bound: "dur_valid d \<Longrightarrow> dur_ns d < 2 ^ 64 * NANOS_PER_SEC"
  using unsigned_less [of "d_secs d", where 'a = nat] by (simp add: dur_valid_def dur_ns_def NANOS_PER_SEC_def)

lemma dur_sat_add:
  assumes "dur_valid a" "dur_valid b"
  shows dur_valid_sat_add: "dur_valid (dur_sat_add a b)"
    and dur_ns_sat_add:
      "dur_ns (dur_sat_add a b) = min (dur_ns a + dur_ns b) (2 ^ 64 * NANOS_PER_SEC - 1)"
proof -
  have "dur_valid (dur_sat_add a b) \<and>
    dur_ns (dur_sat_add a b) = min (dur_ns a + dur_ns b) (2 ^ 64 * NANOS_PER_SEC - 1)"
  proof (cases "dur_checked_add a b")
    case None
    with dur_checked_add_None [OF assms None] show ?thesis
      by (simp add: dur_sat_add_def dur_ns_max)
  next
    case (Some d)
    with dur_checked_add_Some [OF assms Some] dur_ns_bound [of d] show ?thesis
      by (simp add: dur_sat_add_def)
  qed
  then show "dur_valid (dur_sat_add a b)"
    and "dur_ns (dur_sat_add a b) = min (dur_ns a + dur_ns b) (2 ^ 64 * NANOS_PER_SEC - 1)"
    by auto
qed

lemma dur_valid_from_secs [simp]: "dur_valid (from_secs n)"
  and dur_ns_from_secs: "dur_ns (from_secs n) = unat n * 1000000000"
  by (simp_all add: from_secs_def dur_valid_def dur_ns_def NANOS_PER_SEC_def)

lemma unat_millis_part:
  "unat (ucast (n mod 1000) * 1000000 :: u32) = unat (n mod 1000) * 1000000" for n :: u64
proof -
  have lt: "unat (n mod 1000) < 1000" by (simp add: unat_mod_distrib)
  have u: "unat (ucast (n mod 1000) :: u32) = unat (n mod 1000)"
    using lt by (simp add: unsigned_ucast_eq take_bit_nat_eq_self)
  show ?thesis using lt by (simp add: unat_word_ariths u)
qed

lemma dur_valid_from_millis [simp]: "dur_valid (from_millis n)"
proof -
  have "unat (n mod 1000) < 1000" by (simp add: unat_mod_distrib)
  then show ?thesis
    by (simp add: from_millis_def dur_valid_def NANOS_PER_SEC_def unat_millis_part)
qed

lemma dur_ns_from_millis: "dur_ns (from_millis n) = unat n * 1000000"
proof -
  have "dur_ns (from_millis n) = (unat n div 1000) * 1000000000 + (unat n mod 1000) * 1000000"
    by (simp add: from_millis_def dur_ns_def NANOS_PER_SEC_def unat_millis_part
        unat_div_distrib unat_mod_distrib)
  also have "\<dots> = (unat n div 1000 * 1000 + unat n mod 1000) * 1000000"
    by (simp only: distrib_right)
  finally show ?thesis by simp
qed

end
