(* ===== verification/Pulse.thy ===== *)
theory Pulse
  imports RustTime
begin

text \<open>
  The fixed-duration output pulse (\<open>baler-core/src/pulse.rs\<close>): trigger, tick, reset; the
  invariant of the engine; its exact timing in nanoseconds; and the contract of a guarded
  pulse output, from which the interlock of two pulses follows once for all.
\<close>

subsection \<open>The code\<close>

datatype pulse_event = PNone | Completed | Aborted

record pulse_engine =
  pe_duration :: duration
  pe_elapsed :: duration
  pe_active :: bool

definition pe_new :: "duration \<Rightarrow> pulse_engine" where
  "pe_new d = \<lparr>pe_duration = d, pe_elapsed = DUR_ZERO, pe_active = False\<rparr>"

definition pe_reset :: "pulse_engine \<Rightarrow> pulse_engine" where
  "pe_reset p = p\<lparr>pe_active := False, pe_elapsed := DUR_ZERO\<rparr>"

definition pe_trigger :: "pulse_engine \<Rightarrow> bool \<times> pulse_engine" where
  "pe_trigger p =
     (if pe_active p then (False, p)
      else (True, p\<lparr>pe_active := True, pe_elapsed := DUR_ZERO\<rparr>))"

definition pe_tick :: "duration \<Rightarrow> bool \<Rightarrow> pulse_engine \<Rightarrow> pulse_event \<times> pulse_engine" where
  "pe_tick dt bus_healthy p =
     (if \<not> pe_active p then (PNone, p)
      else if \<not> bus_healthy then (Aborted, pe_reset p)
      else
        let p1 = p\<lparr>pe_elapsed := dur_sat_add (pe_elapsed p) dt\<rparr> in
        if pe_duration p1 \<le> pe_elapsed p1 then (Completed, pe_reset p1) else (PNone, p1))"

definition pe_output :: "pulse_engine \<Rightarrow> bool" where
  "pe_output p = pe_active p"

definition pe_is_active :: "pulse_engine \<Rightarrow> bool" where
  "pe_is_active p = pe_active p"

subsection \<open>Invariant\<close>

definition pe_wf :: "pulse_engine \<Rightarrow> bool" where
  "pe_wf p \<longleftrightarrow> dur_valid (pe_duration p) \<and> dur_valid (pe_elapsed p)
     \<and> (if pe_active p then pe_elapsed p = DUR_ZERO \<or> pe_elapsed p < pe_duration p
        else pe_elapsed p = DUR_ZERO)"

lemma pe_wf_new [inv_intros]: "dur_valid d \<Longrightarrow> pe_wf (pe_new d)"
  by (simp add: pe_wf_def pe_new_def)

lemma pe_wf_trigger [inv_intros]: "pe_wf p \<Longrightarrow> pe_wf (snd (pe_trigger p))"
  by (auto simp: pe_wf_def pe_trigger_def)

lemma pe_wf_reset [inv_intros]: "pe_wf p \<Longrightarrow> pe_wf (pe_reset p)"
  by (simp add: pe_wf_def pe_reset_def)

lemma pe_wf_tick [inv_intros]: "dur_valid dt \<Longrightarrow> pe_wf p \<Longrightarrow> pe_wf (snd (pe_tick dt h p))"
  by (auto simp: pe_tick_def pe_wf_def pe_reset_def Let_def dur_valid_sat_add)

lemma pe_duration_simps [simp]:
  "pe_duration (pe_new d) = d"
  "pe_duration (pe_reset p) = pe_duration p"
  "pe_duration (snd (pe_trigger p)) = pe_duration p"
  "pe_duration (snd (pe_tick dt h p)) = pe_duration p"
  by (simp_all add: pe_new_def pe_reset_def pe_trigger_def pe_tick_def Let_def)

lemma pe_active_simps [simp]:
  "\<not> pe_active (pe_new d)"
  "\<not> pe_active (pe_reset p)"
  "pe_active (snd (pe_trigger p))"
  "\<not> pe_active (snd (pe_tick dt False p))"
  by (simp_all add: pe_new_def pe_reset_def pe_trigger_def pe_tick_def)

lemma pe_tick_idle [simp]: "\<not> pe_active p \<Longrightarrow> pe_tick dt h p = (PNone, p)"
  by (simp add: pe_tick_def)

subsection \<open>The contract of a guarded pulse output, and the interlock of two\<close>

locale pulse_output =
  fixes trigger :: "'p \<Rightarrow> bool \<times> 'p"
    and tick :: "'d \<Rightarrow> bool \<Rightarrow> 'p \<Rightarrow> 'e \<times> 'p"
    and active :: "'p \<Rightarrow> bool"
  assumes trigger_active: "active (snd (trigger p))"
    and tick_only_lowers: "active (snd (tick dt h p)) \<Longrightarrow> active p"
    and tick_unhealthy: "\<not> active (snd (tick dt False p))"
begin

text \<open>A pair fired only while neither is active never has both active.\<close>

definition excl :: "'p \<Rightarrow> 'p \<Rightarrow> bool" where
  "excl p q \<longleftrightarrow> \<not> (active p \<and> active q)"

lemma excl_fire_left: "\<not> (active p \<or> active q) \<Longrightarrow> excl (snd (trigger p)) q"
  by (simp add: excl_def)

lemma excl_fire_right: "\<not> (active p \<or> active q) \<Longrightarrow> excl p (snd (trigger q))"
  by (simp add: excl_def)

lemma excl_tick: "excl p q \<Longrightarrow> excl (snd (tick dt h p)) (snd (tick dt' h' q))"
  unfolding excl_def using tick_only_lowers by blast

lemma idle_stays_idle: "\<not> active p \<Longrightarrow> \<not> active (snd (tick dt h p))"
  using tick_only_lowers by blast

end

interpretation pe: pulse_output pe_trigger pe_tick pe_active
  by unfold_locales (auto simp: pe_tick_def split: if_splits)

subsection \<open>Timing\<close>

definition pe_ticks :: "duration \<Rightarrow> nat \<Rightarrow> pulse_engine \<Rightarrow> pulse_event list \<times> pulse_engine" where
  "pe_ticks dt n p = run (\<lambda>s h. pe_tick dt h s) p (replicate n True)"

text \<open>\<open>n\<close> healthy ticks below the duration: still active, the elapsed time is the sum.\<close>

lemma pe_ticks_below:
  assumes "pe_wf p" "dur_valid dt" "pe_active p"
    and "dur_ns (pe_elapsed p) + n * dur_ns dt < dur_ns (pe_duration p)"
  shows "let (evs, q) = pe_ticks dt n p in
    evs = replicate n PNone \<and> pe_active q \<and> pe_wf q \<and> pe_duration q = pe_duration p
    \<and> dur_ns (pe_elapsed q) = dur_ns (pe_elapsed p) + n * dur_ns dt"
  using assms
proof (induction n arbitrary: p)
  case 0
  then show ?case by (simp add: pe_ticks_def)
next
  case (Suc n)
  note wf = \<open>pe_wf p\<close>
  let ?p = "p\<lparr>pe_elapsed := dur_sat_add (pe_elapsed p) dt\<rparr>"
  have vs: "dur_valid (pe_elapsed p)" "dur_valid (pe_duration p)"
    using wf by (auto simp: pe_wf_def)
  have ns: "dur_ns (dur_sat_add (pe_elapsed p) dt) = dur_ns (pe_elapsed p) + dur_ns dt"
    using Suc.prems(4) dur_ns_bound [OF vs(2)] by (simp add: dur_ns_sat_add vs Suc.prems(2))
  have v: "dur_valid (dur_sat_add (pe_elapsed p) dt)"
    by (rule dur_valid_sat_add [OF vs(1) Suc.prems(2)])
  have "\<not> pe_duration p \<le> dur_sat_add (pe_elapsed p) dt"
    using Suc.prems(4) by (simp add: dur_le_iff [OF vs(2) v] ns)
  then have t: "pe_tick dt True p = (PNone, ?p)"
    using Suc.prems(3) by (simp add: pe_tick_def)
  have "pe_wf ?p" using pe_wf_tick [OF Suc.prems(2) wf, of True] t by simp
  from Suc.IH [OF this Suc.prems(2)] Suc.prems(3,4)
  show ?case
    by (simp add: pe_ticks_def t ns Let_def algebra_simps split: prod.splits)
qed

text \<open>A triggered pulse of duration \<open>D\<close> ticked every \<open>dt\<close> on a healthy bus stays high
  through the ticks that keep the elapsed time below \<open>D\<close> and completes on the first tick that
  reaches it: with \<open>n\<close> the number of ticks strictly below (\<open>n * dt < D \<le> (n + 1) * dt\<close>), the
  events are \<open>n\<close> times nothing and then \<open>Completed\<close>, and the engine is idle again.\<close>

theorem pulse_exact_timing:
  assumes "pe_wf p" "dur_valid dt" "\<not> pe_active p"
    and "n * dur_ns dt < dur_ns (pe_duration p)"
    and "dur_ns (pe_duration p) \<le> (n + 1) * dur_ns dt"
  shows "let q = snd (pe_trigger p); (evs, r) = pe_ticks dt (n + 1) q in
    evs = replicate n PNone @ [Completed] \<and> \<not> pe_output r
    \<and> r = p \<and> (\<forall>k\<le>n. pe_output (snd (pe_ticks dt k q)))"
proof -
  let ?q = "snd (pe_trigger p)"
  have q: "pe_wf ?q" "pe_active ?q" "dur_ns (pe_elapsed ?q) = 0"
    using assms(1,3) by (auto intro: pe_wf_trigger) (simp add: pe_trigger_def)
  have low: "pe_output (snd (pe_ticks dt k ?q))" if "k \<le> n" for k
  proof -
    have "k * dur_ns dt < dur_ns (pe_duration p)"
      using mult_le_mono1 [OF that, of "dur_ns dt"] assms(4) by (rule le_less_trans)
    then have "dur_ns (pe_elapsed ?q) + k * dur_ns dt < dur_ns (pe_duration ?q)"
      by (simp only: q(3) pe_duration_simps add_0)
    from pe_ticks_below [OF q(1) assms(2) q(2) this] show ?thesis
      by (simp add: pe_output_def Let_def split: prod.splits)
  qed
  obtain evs r where er: "pe_ticks dt n ?q = (evs, r)" by fastforce
  have b: "evs = replicate n PNone" "pe_active r" "pe_wf r" "pe_duration r = pe_duration p"
    "dur_ns (pe_elapsed r) = n * dur_ns dt"
    using pe_ticks_below [OF q(1) assms(2) q(2), of n] assms(4) q(3) er by simp_all
  have vs: "dur_valid (pe_elapsed r)" "dur_valid (pe_duration r)"
    using b(3) by (auto simp: pe_wf_def)
  have "pe_duration r \<le> dur_sat_add (pe_elapsed r) dt"
    unfolding dur_le_iff [OF vs(2) dur_valid_sat_add [OF vs(1) assms(2)]]
      dur_ns_sat_add [OF vs(1) assms(2)]
    using assms(5) dur_ns_bound [OF vs(2)] b(4,5) by simp
  then have t: "pe_tick dt True r = (Completed, pe_reset r)"
    using b(2) by (simp add: pe_tick_def pe_reset_def)
  have rp: "pe_reset r = p"
    using assms(1,3) b(4) by (simp add: pe_reset_def pe_wf_def)
  have snoc: "replicate (n + 1) True = replicate n True @ [True]"
    by (simp add: replicate_append_same)
  have "run (\<lambda>s h. pe_tick dt h s) ?q (replicate (n + 1) True) = (evs @ [Completed], p)"
    unfolding snoc using er t rp by (simp add: pe_ticks_def run_append)
  then show ?thesis
    using b(1) low assms(3) by (simp add: pe_ticks_def pe_output_def)
qed

text \<open>The daemon's pulse: 5 s at a 10 ms scan is 500 ticks, high through 499 and completing on
  the 500th.\<close>

theorem pulse_exact_timing_witness:
  "fst (pe_ticks (from_millis 10) 500 (snd (pe_trigger (pe_new (from_secs 5)))))
     = replicate 499 PNone @ [Completed]"
proof -
  have "pe_wf (pe_new (from_secs 5))" by (simp add: pe_wf_new)
  from pulse_exact_timing [OF this, of "from_millis 10" 499] show ?thesis
    by (simp add: dur_ns_from_millis dur_ns_from_secs Let_def split: prod.splits)
qed

end
