(* ===== verification/RustText.thy ===== *)
theory RustText
  imports Prelude
begin

text \<open>
  The string operations of the Rust standard library the program uses. A \<open>str\<close> is the list of
  its Unicode scalar values; \<open>utf8_encode\<close> and \<open>utf8_decode\<close> go to and from the bytes of a
  file, with the validity rules of \<open>str::from_utf8\<close>. Also here: \<open>trim\<close>, \<open>lines\<close>,
  \<open>split_once\<close>, \<open>contains\<close>, \<open>to_ascii_lowercase\<close>, the decimal \<open>Display\<close> of an unsigned
  integer and \<open>str::parse::<u64>\<close>, with the round trips between them.
\<close>

type_synonym str = "nat list"

definition lit :: "string \<Rightarrow> str" where
  "lit s = map of_char s"

lemma lit_Nil [simp]: "lit [] = []"
  and lit_Cons [simp]: "lit (c # cs) = of_char c # lit cs"
  by (simp_all add: lit_def)

subsection \<open>Scanning\<close>

text \<open>The code points with the Unicode property \<open>White_Space\<close> (\<open>char::is_whitespace\<close>).\<close>

definition is_ws :: "nat \<Rightarrow> bool" where
  "is_ws c \<longleftrightarrow> 9 \<le> c \<and> c \<le> 13 \<or> c = 32 \<or> c = 0x85 \<or> c = 0xA0 \<or> c = 0x1680
     \<or> 0x2000 \<le> c \<and> c \<le> 0x200A \<or> c = 0x2028 \<or> c = 0x2029 \<or> c = 0x202F \<or> c = 0x205F
     \<or> c = 0x3000"

definition trim :: "str \<Rightarrow> str" where
  "trim s = rev (dropWhile is_ws (rev (dropWhile is_ws s)))"

definition strip_cr :: "str \<Rightarrow> str" where
  "strip_cr s = (if s \<noteq> [] \<and> last s = 13 then butlast s else s)"

fun lines_acc :: "str \<Rightarrow> str \<Rightarrow> str list" where
  "lines_acc acc [] = (if acc = [] then [] else [rev acc])"
| "lines_acc acc (c # cs) =
     (if c = 10 then strip_cr (rev acc) # lines_acc [] cs else lines_acc (c # acc) cs)"

definition str_lines :: "str \<Rightarrow> str list" where
  "str_lines s = lines_acc [] s"

fun split_once :: "nat \<Rightarrow> str \<Rightarrow> (str \<times> str) option" where
  "split_once d [] = None"
| "split_once d (c # cs) =
     (if c = d then Some ([], cs) else map_option (\<lambda>(a, b). (c # a, b)) (split_once d cs))"

fun str_contains :: "str \<Rightarrow> str \<Rightarrow> bool" where
  "str_contains p [] \<longleftrightarrow> p = []"
| "str_contains p (c # cs) \<longleftrightarrow> take (length p) (c # cs) = p \<or> str_contains p cs"

definition to_ascii_lowercase :: "str \<Rightarrow> str" where
  "to_ascii_lowercase = map (\<lambda>c. if 65 \<le> c \<and> c \<le> 90 then c + 32 else c)"

lemma trim_id:
  assumes "s \<noteq> [] \<Longrightarrow> \<not> is_ws (hd s)" "s \<noteq> [] \<Longrightarrow> \<not> is_ws (last s)"
  shows "trim s = s"
proof -
  have 1: "dropWhile is_ws s = s" using assms(1) by (cases s) auto
  have "dropWhile is_ws (rev s) = rev s"
    using assms(2) by (cases "rev s") (auto simp: hd_rev [symmetric])
  with 1 show ?thesis by (simp add: trim_def)
qed

lemma str_contains_iff: "str_contains p s \<longleftrightarrow> (\<exists>a b. s = a @ p @ b)"
proof (induction s)
  case Nil
  then show ?case by auto
next
  case (Cons c cs)
  have "take (length p) (c # cs) = p \<longleftrightarrow> (\<exists>b. c # cs = p @ b)"
    by (metis append_eq_conv_conj append_take_drop_id)
  moreover have "(\<exists>a b. c # cs = a @ p @ b)
      \<longleftrightarrow> (\<exists>b. c # cs = p @ b) \<or> (\<exists>a b. cs = a @ p @ b)"
    by (auto simp: Cons_eq_append_conv)
  ultimately show ?case using Cons.IH by simp
qed

lemma lines_acc_line:
  "10 \<notin> set l \<Longrightarrow> lines_acc acc (l @ 10 # r) = strip_cr (rev acc @ l) # lines_acc [] r"
  by (induction l arbitrary: acc) auto

lemma str_lines_line: "10 \<notin> set l \<Longrightarrow> str_lines (l @ 10 # r) = strip_cr l # str_lines r"
  by (simp add: str_lines_def lines_acc_line)

lemma str_lines_Nil [simp]: "str_lines [] = []"
  by (simp add: str_lines_def)

lemma split_once_append: "d \<notin> set a \<Longrightarrow> split_once d (a @ d # b) = Some (a, b)"
  by (induction a) auto

lemma split_once_SomeD: "split_once d s = Some (a, b) \<Longrightarrow> s = a @ d # b \<and> d \<notin> set a"
  by (induction s arbitrary: a) (auto split: if_splits)

lemma split_once_NoneD: "split_once d s = None \<longleftrightarrow> d \<notin> set s"
  by (induction s) auto

subsection \<open>Decimal numbers\<close>

fun show_nat :: "nat \<Rightarrow> str" where
  "show_nat n = (if n < 10 then [48 + n] else show_nat (n div 10) @ [48 + n mod 10])"

declare show_nat.simps [simp del]

text \<open>The digit loop of \<open>u64::from_str_radix(_, 10)\<close>, with its overflow check.\<close>

fun parse_digits :: "nat \<Rightarrow> str \<Rightarrow> nat option" where
  "parse_digits acc [] = Some acc"
| "parse_digits acc (c # cs) =
     (if 48 \<le> c \<and> c \<le> 57 then
        let v = acc * 10 + (c - 48) in if v < 2 ^ 64 then parse_digits v cs else None
      else None)"

definition parse_u64 :: "str \<Rightarrow> u64 option" where
  "parse_u64 s =
     (case s of [] \<Rightarrow> None
      | c # cs \<Rightarrow>
          if cs = [] \<and> (c = 43 \<or> c = 45) then None
          else map_option of_nat (parse_digits 0 (if c = 43 then cs else s)))"

lemma show_nat_digits: "\<forall>c\<in>set (show_nat n). 48 \<le> c \<and> c \<le> 57"
proof (induction n rule: show_nat.induct)
  case (1 n)
  then show ?case by (cases "n < 10") (auto simp: show_nat.simps [of n])
qed

lemma show_nat_nonempty [simp]: "show_nat n \<noteq> []"
  by (subst show_nat.simps) simp

lemma parse_digits_append:
  "parse_digits a (xs @ ys) = Option.bind (parse_digits a xs) (\<lambda>b. parse_digits b ys)"
  by (induction xs arbitrary: a) (auto simp: Let_def)

lemma parse_digits_show: "n < 2 ^ 64 \<Longrightarrow> parse_digits 0 (show_nat n) = Some n"
proof (induction n rule: show_nat.induct)
  case (1 n)
  show ?case
  proof (cases "n < 10")
    case True
    then show ?thesis by (subst show_nat.simps) simp
  next
    case False
    with 1 have "parse_digits 0 (show_nat (n div 10)) = Some (n div 10)" by simp
    with False 1(2) show ?thesis
      by (subst show_nat.simps) (simp add: parse_digits_append Let_def)
  qed
qed

lemma parse_u64_show: "parse_u64 (show_nat (unat n)) = Some n"
proof -
  have lt: "unat n < 2 ^ 64" using unsigned_less [of n, where 'a = nat] by simp
  obtain c cs where e: "show_nat (unat n) = c # cs" by (cases "show_nat (unat n)") auto
  have "48 \<le> c" using show_nat_digits [of "unat n"] e by simp
  then show ?thesis
    using parse_digits_show [OF lt] by (simp add: parse_u64_def e)
qed

lemma show_nat_no: "c < 48 \<or> 57 < c \<Longrightarrow> c \<notin> set (show_nat n)"
  using show_nat_digits [of n] by auto

lemma trim_show_nat [simp]: "trim (show_nat n) = show_nat n"
proof (rule trim_id)
  have "\<forall>c\<in>set (show_nat n). \<not> is_ws c"
    using show_nat_digits [of n] by (auto simp: is_ws_def)
  then show "\<not> is_ws (hd (show_nat n))" "\<not> is_ws (last (show_nat n))"
    by simp_all
qed

lemma show_nat_inj: "show_nat m = show_nat n \<Longrightarrow> m < 2 ^ 64 \<Longrightarrow> n < 2 ^ 64 \<Longrightarrow> m = n"
  by (metis parse_digits_show option.inject)

subsection \<open>UTF-8\<close>

definition is_scalar :: "nat \<Rightarrow> bool" where
  "is_scalar c \<longleftrightarrow> c < 0xD800 \<or> (0xE000 \<le> c \<and> c < 0x110000)"

definition utf8_char :: "nat \<Rightarrow> nat list" where
  "utf8_char c =
     (if c < 0x80 then [c]
      else if c < 0x800 then [0xC0 + c div 64, 0x80 + c mod 64]
      else if c < 0x10000 then [0xE0 + c div 4096, 0x80 + c div 64 mod 64, 0x80 + c mod 64]
      else [0xF0 + c div 262144, 0x80 + c div 4096 mod 64, 0x80 + c div 64 mod 64,
            0x80 + c mod 64])"

definition cont :: "nat \<Rightarrow> bool" where
  "cont b \<longleftrightarrow> 0x80 \<le> b \<and> b \<le> 0xBF"

fun utf8_dec :: "nat list \<Rightarrow> nat list option" where
  "utf8_dec [] = Some []"
| "utf8_dec (b # r) =
     (if b < 0x80 then map_option ((#) b) (utf8_dec r)
      else if 0xC2 \<le> b \<and> b \<le> 0xDF then
        (case r of
           b1 # r1 \<Rightarrow>
             if cont b1 then map_option ((#) ((b - 0xC0) * 64 + (b1 - 0x80))) (utf8_dec r1)
             else None
         | _ \<Rightarrow> None)
      else if 0xE0 \<le> b \<and> b \<le> 0xEF then
        (case r of
           b1 # b2 # r2 \<Rightarrow>
             if cont b1 \<and> cont b2 \<and> (b = 0xE0 \<longrightarrow> 0xA0 \<le> b1) \<and> (b = 0xED \<longrightarrow> b1 \<le> 0x9F)
             then map_option ((#) ((b - 0xE0) * 4096 + (b1 - 0x80) * 64 + (b2 - 0x80)))
                    (utf8_dec r2)
             else None
         | _ \<Rightarrow> None)
      else if 0xF0 \<le> b \<and> b \<le> 0xF4 then
        (case r of
           b1 # b2 # b3 # r3 \<Rightarrow>
             if cont b1 \<and> cont b2 \<and> cont b3
                \<and> (b = 0xF0 \<longrightarrow> 0x90 \<le> b1) \<and> (b = 0xF4 \<longrightarrow> b1 \<le> 0x8F)
             then map_option ((#) ((b - 0xF0) * 262144 + (b1 - 0x80) * 4096
                    + (b2 - 0x80) * 64 + (b3 - 0x80))) (utf8_dec r3)
             else None
         | _ \<Rightarrow> None)
      else None)"

declare utf8_dec.simps(2) [simp del]

definition utf8_encode :: "str \<Rightarrow> u8 list" where
  "utf8_encode s = map of_nat (concat (map utf8_char s))"

definition utf8_decode :: "u8 list \<Rightarrow> str option" where
  "utf8_decode bs = utf8_dec (map unat bs)"

lemma utf8_char_byte: "is_scalar c \<Longrightarrow> b \<in> set (utf8_char c) \<Longrightarrow> b < 256"
  by (auto simp: utf8_char_def is_scalar_def split: if_splits)

lemma split64:
  fixes c :: nat
  shows "c div 64 * 64 + c mod 64 = c"
    and "c div 4096 * 4096 + c div 64 mod 64 * 64 + c mod 64 = c"
    and "c div 262144 * 262144 + c div 4096 mod 64 * 4096 + c div 64 mod 64 * 64 + c mod 64 = c"
proof -
  have a: "x div 64 * 64 + x mod 64 = x" for x :: nat by simp
  have d1: "c div 4096 = c div 64 div 64" and d2: "c div 262144 = c div 64 div 64 div 64"
    by (simp_all add: div_mult2_eq [symmetric])
  show "c div 64 * 64 + c mod 64 = c" by (rule a)
  show "c div 4096 * 4096 + c div 64 mod 64 * 64 + c mod 64 = c"
    using a [of c] a [of "c div 64"] unfolding d1 by linarith
  show "c div 262144 * 262144 + c div 4096 mod 64 * 4096 + c div 64 mod 64 * 64 + c mod 64 = c"
    using a [of c] a [of "c div 64"] a [of "c div 64 div 64"] unfolding d1 d2 by linarith
qed

lemma utf8_dec_char:
  assumes "is_scalar c"
  shows "utf8_dec (utf8_char c @ r) = map_option ((#) c) (utf8_dec r)"
proof -
  have cm: "cont (0x80 + x mod 64)" for x :: nat by (simp add: cont_def)
  consider "c < 0x80" | "0x80 \<le> c" "c < 0x800" | "0x800 \<le> c" "c < 0x10000"
    | "0x10000 \<le> c" "c < 0x110000"
    using assms unfolding is_scalar_def by linarith
  then show ?thesis
  proof cases
    case 1
    then show ?thesis by (simp add: utf8_char_def utf8_dec.simps(2))
  next
    case 2
    define q where "q = c div 64"
    have "2 \<le> q" "q \<le> 31" using 2 by (simp_all add: q_def)
    with 2 show ?thesis
      using cm split64(1) [of c]
      by (simp add: utf8_char_def utf8_dec.simps(2) flip: q_def)
  next
    case 3
    then have b: "c div 4096 \<le> 15" by simp
    have lo: "0x20 \<le> c div 64 mod 64" if "c div 4096 = 0"
      using that 3(1) split64(1) [of "c div 64"] by (simp add: div_mult2_eq [symmetric])
    have hi: "c div 64 mod 64 \<le> 31" if "c div 4096 = 13"
    proof (rule ccontr)
      assume "\<not> ?thesis"
      with that split64(2) [of c] have "0xD800 \<le> c" by linarith
      moreover have "c < 0xE000" using that by linarith
      ultimately show False using assms by (simp add: is_scalar_def)
    qed
    show ?thesis
      using 3 b lo hi cm split64(2) [of c]
      by (simp add: utf8_char_def utf8_dec.simps(2))
  next
    case 4
    then have b: "c div 262144 \<le> 4" by simp
    have lo: "16 \<le> c div 4096 mod 64" if "c div 262144 = 0"
      using that 4(1) split64(1) [of "c div 4096"] by (simp add: div_mult2_eq [symmetric])
    have hi: "c div 4096 mod 64 \<le> 15" if "c div 262144 = 4"
      using that 4(2) split64(3) [of c] by linarith
    show ?thesis
      using 4 b lo hi cm split64(3) [of c]
      by (simp add: utf8_char_def utf8_dec.simps(2))
  qed
qed

lemma utf8_dec_chars:
  "\<forall>c\<in>set s. is_scalar c \<Longrightarrow> utf8_dec (concat (map utf8_char s)) = Some s"
  by (induction s) (auto simp: utf8_dec_char)

text \<open>What is written as a string is read back as that string.\<close>

lemma utf8_roundtrip:
  assumes "\<forall>c\<in>set s. is_scalar c"
  shows "utf8_decode (utf8_encode s) = Some s"
proof -
  have "map unat (utf8_encode s) = concat (map utf8_char s)"
    unfolding utf8_encode_def list.map_comp
  proof (rule map_idI)
    fix b assume "b \<in> set (concat (map utf8_char s))"
    then have "b < 256" using assms by (auto dest: utf8_char_byte)
    then show "(unat \<circ> (of_nat :: nat \<Rightarrow> u8)) b = b"
      by (simp add: unsigned_of_nat take_bit_nat_eq_self)
  qed
  then show ?thesis by (simp add: utf8_decode_def utf8_dec_chars assms)
qed

lemma utf8_encode_append: "utf8_encode (s @ t) = utf8_encode s @ utf8_encode t"
  by (simp add: utf8_encode_def)

end
