(* ===== verification/RustFs.thy ===== *)
theory RustFs
  imports RustText
begin

text \<open>
  The part of \<open>std::path\<close> and \<open>std::fs\<close> the program uses. A file system maps paths to
  files; a file remembers whether its bytes have been flushed to the disk. Every call asks the
  environment for a verdict first (a list of verdicts, one per call, success when it runs out),
  so any call may fail for any reason, and a failing write may have written a part of its bytes.
  \<open>rename\<close> is the atomic replacement of POSIX on the running system, but a change of a directory
  reaches the disk only when the directory is flushed, which the program never does: the file
  system remembers what each entry pointed to before. \<open>power_loss\<close> is what a reboot finds: for
  every entry its present target or any of the former ones, flushed files as they were, arbitrary
  bytes in the others.
\<close>

subsection \<open>Paths\<close>

record path =
  is_abs :: bool
  comps :: "str list"

text \<open>\<open>Path::parent\<close>, and the test that it is not the empty path.\<close>

definition path_parent :: "path \<Rightarrow> path option" where
  "path_parent p = (if comps p = [] then None else Some (p\<lparr>comps := butlast (comps p)\<rparr>))"

definition path_is_empty :: "path \<Rightarrow> bool" where
  "path_is_empty p \<longleftrightarrow> \<not> is_abs p \<and> comps p = []"

text \<open>\<open>Path::file_stem\<close>: the file name up to its last dot, unless that dot is its first byte.\<close>

definition file_stem :: "str \<Rightarrow> str" where
  "file_stem n =
     (let base = rev (drop 1 (dropWhile (\<lambda>c. c \<noteq> 46) (rev n))) in
      if 46 \<in> set n \<and> base \<noteq> [] then base else n)"

definition with_extension :: "path \<Rightarrow> str \<Rightarrow> path" where
  "with_extension p ext =
     (if comps p = [] \<or> last (comps p) = [46, 46] then p
      else p\<lparr>comps := butlast (comps p) @
               [file_stem (last (comps p)) @ (if ext = [] then [] else 46 # ext)]\<rparr>)"

subsection \<open>Files\<close>

datatype io_error = NotFound | PermissionDenied | InvalidData | StorageFull | OtherIo

record fnode =
  fbytes :: "u8 list"
  synced :: bool

text \<open>\<open>Refuse e n\<close>: the call fails with \<open>e\<close>; a write has put down its first \<open>n\<close> bytes.\<close>

datatype verdict = Grant | Refuse io_error nat

text \<open>\<open>older\<close>: what an entry pointed to before, the latest first, since the system was started.\<close>

record fs =
  files :: "path \<Rightarrow> fnode option"
  verdicts :: "verdict list"
  older :: "path \<Rightarrow> fnode option list"

definition versions :: "fs \<Rightarrow> path \<Rightarrow> fnode option list" where
  "versions f p = files f p # older f p"

datatype fs_op =
    CreateDirAll path
  | Create path
  | WriteAll path "u8 list"
  | SyncAll path
  | Rename path path

definition next_verdict :: "fs \<Rightarrow> verdict \<times> fs" where
  "next_verdict f =
     (case verdicts f of [] \<Rightarrow> (Grant, f) | v # vs \<Rightarrow> (v, f\<lparr>verdicts := vs\<rparr>))"

definition put_file :: "path \<Rightarrow> fnode \<Rightarrow> fs \<Rightarrow> fs" where
  "put_file p x f = f\<lparr>files := (files f)(p := Some x)\<rparr>"

definition relink :: "path \<Rightarrow> fnode option \<Rightarrow> fs \<Rightarrow> fs" where
  "relink p e f = f\<lparr>files := (files f)(p := e), older := (older f)(p := versions f p)\<rparr>"

definition append_bytes :: "path \<Rightarrow> u8 list \<Rightarrow> fs \<Rightarrow> fs" where
  "append_bytes p bs f =
     (case files f p of
        None \<Rightarrow> f
      | Some x \<Rightarrow> put_file p \<lparr>fbytes = fbytes x @ bs, synced = False\<rparr> f)"

definition fs_exec :: "fs_op \<Rightarrow> fs \<Rightarrow> (io_error + unit) \<times> fs" where
  "fs_exec op f0 =
     (let (v, f) = next_verdict f0 in
      case v of
        Refuse e n \<Rightarrow>
          (case op of
             WriteAll p bs \<Rightarrow> (Inl e, append_bytes p (take n bs) f)
           | _ \<Rightarrow> (Inl e, f))
      | Grant \<Rightarrow>
          (case op of
             CreateDirAll d \<Rightarrow> (Inr (), f)
           | Create p \<Rightarrow>
               (Inr (), (if files f p = None then relink p (Some \<lparr>fbytes = [], synced = False\<rparr>) f
                         else put_file p \<lparr>fbytes = [], synced = False\<rparr> f))
           | WriteAll p bs \<Rightarrow> (Inr (), append_bytes p bs f)
           | SyncAll p \<Rightarrow>
               (Inr (), case files f p of None \<Rightarrow> f | Some x \<Rightarrow> put_file p (x\<lparr>synced := True\<rparr>) f)
           | Rename a b \<Rightarrow>
               (case files f a of
                  None \<Rightarrow> (Inl NotFound, f)
                | Some x \<Rightarrow> (Inr (), relink b (Some x) (relink a None f)))))"

text \<open>A sequence of calls joined by the \<open>?\<close> operator: the first error ends it.\<close>

fun fs_run :: "fs_op list \<Rightarrow> fs \<Rightarrow> (io_error + unit) \<times> fs" where
  "fs_run [] f = (Inr (), f)"
| "fs_run (op # ops) f =
     (case fs_exec op f of (Inl e, f') \<Rightarrow> (Inl e, f') | (Inr _, f') \<Rightarrow> fs_run ops f')"

definition read_to_string :: "path \<Rightarrow> fs \<Rightarrow> (io_error + str) \<times> fs" where
  "read_to_string p f0 =
     (let (v, f) = next_verdict f0 in
      case v of
        Refuse e n \<Rightarrow> (Inl e, f)
      | Grant \<Rightarrow>
          (case files f p of
             None \<Rightarrow> (Inl NotFound, f)
           | Some x \<Rightarrow>
               (case utf8_decode (fbytes x) of None \<Rightarrow> (Inl InvalidData, f)
                | Some s \<Rightarrow> (Inr s, f))))"

text \<open>What is found after the power was cut: \<open>pick\<close> says how far each entry has fallen back (0: not at
  all), an unflushed file holds arbitrary bytes.\<close>

definition settle :: "u8 list \<Rightarrow> fnode option \<Rightarrow> fnode option" where
  "settle js v = map_option (\<lambda>x. if synced x then x else \<lparr>fbytes = js, synced = True\<rparr>) v"

definition power_loss :: "(path \<Rightarrow> nat) \<Rightarrow> (path \<Rightarrow> u8 list) \<Rightarrow> fs \<Rightarrow> fs" where
  "power_loss pick junk f =
     \<lparr>files = (\<lambda>p. settle (junk p) (versions f p ! min (pick p) (length (older f p)))),
      verdicts = [], older = (\<lambda>_. [])\<rparr>"

subsection \<open>What the calls touch\<close>

lemma files_next_verdict [simp]: "files (snd (next_verdict f)) = files f"
  by (simp add: next_verdict_def split: list.splits)

lemma next_verdict_no_refusal [simp]: "verdicts f = [] \<Longrightarrow> next_verdict f = (Grant, f)"
  by (simp add: next_verdict_def)

lemma files_put_file [simp]: "files (put_file p x f) = (files f)(p := Some x)"
  by (simp add: put_file_def)

lemma files_relink [simp]: "files (relink p e f) = (files f)(p := e)"
  by (simp add: relink_def)

lemma older_simps [simp]:
  "older (snd (next_verdict f)) = older f" "older (put_file p x f) = older f"
  "older (append_bytes p bs f) = older f" "older (relink p e f) = (older f)(p := versions f p)"
  "verdicts (relink p e f) = verdicts f"
  by (simp_all add: next_verdict_def put_file_def append_bytes_def relink_def split: list.splits option.splits)

lemma files_append_bytes:
  "files (append_bytes p bs f) =
     (case files f p of None \<Rightarrow> files f
      | Some x \<Rightarrow> (files f)(p := Some \<lparr>fbytes = fbytes x @ bs, synced = False\<rparr>))"
  by (simp add: append_bytes_def split: option.splits)

fun op_target :: "fs_op \<Rightarrow> path set" where
  "op_target (CreateDirAll d) = {}"
| "op_target (Create p) = {p}"
| "op_target (WriteAll p bs) = {p}"
| "op_target (SyncAll p) = {p}"
| "op_target (Rename a b) = {a, b}"

lemma fs_exec_frame: "q \<notin> op_target op \<Longrightarrow> files (snd (fs_exec op f)) q = files f q"
  by (cases op; cases "next_verdict f")
    (use files_next_verdict [of f] in
      \<open>auto simp: fs_exec_def files_append_bytes split: verdict.splits option.splits\<close>)

lemma fs_run_frame:
  "q \<notin> (\<Union>op\<in>set ops. op_target op) \<Longrightarrow> files (snd (fs_run ops f)) q = files f q"
proof (induction ops arbitrary: f)
  case Nil
  then show ?case by simp
next
  case (Cons op ops)
  obtain r f' where e: "fs_exec op f = (r, f')" by fastforce
  have "files f' q = files f q"
    using fs_exec_frame [of q op f] Cons.prems e by simp
  then show ?case using Cons.IH [of f'] Cons.prems e by (cases r) auto
qed

lemma fs_run_append:
  "fs_run (xs @ ys) f =
     (case fs_run xs f of (Inl e, f') \<Rightarrow> (Inl e, f') | (Inr _, f') \<Rightarrow> fs_run ys f')"
  by (induction xs arbitrary: f) (auto split: sum.splits prod.splits)

lemma fs_exec_older:
  "q \<notin> op_target op \<Longrightarrow> older (snd (fs_exec op f)) q = older f q"
  by (cases op; cases "next_verdict f")
    (use older_simps(1) [of f] in
      \<open>auto simp: fs_exec_def simp del: older_simps(1) split: verdict.splits option.splits\<close>)

lemma fs_run_versions:
  "q \<notin> (\<Union>op\<in>set ops. op_target op) \<Longrightarrow> versions (snd (fs_run ops f)) q = versions f q"
proof (induction ops arbitrary: f)
  case Nil
  then show ?case by simp
next
  case (Cons op ops)
  obtain r f' where e: "fs_exec op f = (r, f')" by fastforce
  have "versions f' q = versions f q"
    using fs_exec_frame [of q op f] fs_exec_older [of q op f] Cons.prems e by (simp add: versions_def)
  then show ?case using Cons.IH [of f'] Cons.prems e by (cases r) auto
qed

lemma power_loss_synced:
  "files f p = Some x \<Longrightarrow> synced x \<Longrightarrow> pick p = 0 \<Longrightarrow> files (power_loss pick junk f) p = Some x"
  by (simp add: power_loss_def versions_def settle_def)

lemma power_loss_version:
  "\<exists>v\<in>set (versions f p). files (power_loss pick junk f) p = settle (junk p) v"
proof
  let ?v = "versions f p ! min (pick p) (length (older f p))"
  show "?v \<in> set (versions f p)" by (rule nth_mem) (simp add: versions_def less_Suc_eq_le)
  show "files (power_loss pick junk f) p = settle (junk p) ?v" by (simp add: power_loss_def)
qed

lemma settle_synced: "(\<And>x. v = Some x \<Longrightarrow> synced x) \<Longrightarrow> settle js v = v"
  by (cases v) (simp_all add: settle_def)

lemma verdicts_power_loss [simp]: "verdicts (power_loss pick junk f) = []"
  by (simp add: power_loss_def)

subsection \<open>A run that succeeds\<close>

definition op_effect :: "fs_op \<Rightarrow> (path \<Rightarrow> fnode option) \<Rightarrow> path \<Rightarrow> fnode option" where
  "op_effect op m =
     (case op of
        CreateDirAll d \<Rightarrow> m
      | Create p \<Rightarrow> m(p := Some \<lparr>fbytes = [], synced = False\<rparr>)
      | WriteAll p bs \<Rightarrow>
          (case m p of None \<Rightarrow> m
           | Some x \<Rightarrow> m(p := Some \<lparr>fbytes = fbytes x @ bs, synced = False\<rparr>))
      | SyncAll p \<Rightarrow> (case m p of None \<Rightarrow> m | Some x \<Rightarrow> m(p := Some (x\<lparr>synced := True\<rparr>)))
      | Rename a b \<Rightarrow> (case m a of None \<Rightarrow> m | Some x \<Rightarrow> m(a := None, b := Some x)))"

lemma fs_exec_ok:
  assumes "fs_exec op f = (Inr u, f')"
  shows "files f' = op_effect op (files f)"
proof -
  obtain v g where n: "next_verdict f = (v, g)" by fastforce
  then have g: "files g = files f" using files_next_verdict [of f] by simp
  show ?thesis
    using assms n g
    by (cases v; cases op)
      (auto simp: fs_exec_def op_effect_def files_append_bytes split: option.splits)
qed

lemma fs_run_ok: "fs_run ops f = (Inr u, f') \<Longrightarrow> files f' = fold op_effect ops (files f)"
proof (induction ops arbitrary: f)
  case Nil
  then show ?case by simp
next
  case (Cons op ops)
  then obtain w g where g: "fs_exec op f = (Inr w, g)"
    by (cases "fs_exec op f"; cases "fst (fs_exec op f)") auto
  then have "fs_run ops g = (Inr u, f')" using Cons.prems by simp
  from Cons.IH [OF this] show ?case by (simp add: fs_exec_ok [OF g])
qed

text \<open>When the environment refuses nothing, calls other than a rename succeed.\<close>

lemma fs_run_granted_verdicts: "verdicts f = [] \<Longrightarrow> verdicts (snd (fs_run ops f)) = []"
proof (induction ops arbitrary: f)
  case Nil
  then show ?case by simp
next
  case (Cons op ops)
  have "verdicts (snd (fs_exec op f)) = []"
    using Cons.prems
    by (cases op) (auto simp: fs_exec_def put_file_def append_bytes_def split: option.splits)
  then show ?case
    using Cons.IH by (auto split: prod.splits sum.splits)
qed

lemma fs_run_granted:
  assumes "verdicts f = []" "\<forall>op\<in>set ops. \<forall>a b. op \<noteq> Rename a b"
  shows "fst (fs_run ops f) = Inr ()"
  using assms
proof (induction ops arbitrary: f)
  case Nil
  then show ?case by simp
next
  case (Cons op ops)
  have v: "verdicts (snd (fs_exec op f)) = []" and r: "fst (fs_exec op f) = Inr ()"
    using Cons.prems
    by (cases op; auto simp: fs_exec_def put_file_def append_bytes_def split: option.splits)+
  then show ?case using Cons.IH [OF v] Cons.prems(2) by (auto split: prod.splits)
qed

lemma read_to_string_files:
  "verdicts f = [] \<Longrightarrow> files f p = Some x \<Longrightarrow> utf8_decode (fbytes x) = Some s \<Longrightarrow>
     read_to_string p f = (Inr s, f)"
  by (simp add: read_to_string_def)

lemma read_to_string_cong:
  "verdicts f = [] \<Longrightarrow> verdicts g = [] \<Longrightarrow> files f p = files g p \<Longrightarrow>
     fst (read_to_string p f) = fst (read_to_string p g)"
  by (simp add: read_to_string_def split: option.splits)

subsection \<open>Stores\<close>

text \<open>
  Two contracts for a value kept in a file. A \<open>store\<close> reads back what a successful save wrote;
  a \<open>durable_store\<close> also leaves it flushed, so that it is read back after a power loss that has
  the entry of the file on the disk.
\<close>

locale store =
  fixes save :: "'s \<Rightarrow> fs \<Rightarrow> (io_error + unit) \<times> fs"
    and load :: "path \<Rightarrow> fs \<Rightarrow> (io_error + 's) \<times> fs"
    and key :: "'s \<Rightarrow> path"
    and good :: "'s \<Rightarrow> bool"
  assumes save_load:
      "good s \<Longrightarrow> save s f = (Inr (), f') \<Longrightarrow> verdicts f' = [] \<Longrightarrow> fst (load (key s) f') = Inr s"
    and load_cong:
      "verdicts f = [] \<Longrightarrow> verdicts g = [] \<Longrightarrow> files f p = files g p \<Longrightarrow>
         fst (load p f) = fst (load p g)"
begin

lemma last_save_wins:
  assumes "good t" "key s = key t" "save s f = (Inr (), f1)" "save t f1 = (Inr (), f2)"
    and "verdicts f2 = []"
  shows "fst (load (key s) f2) = Inr t"
  using save_load [OF assms(1,4,5)] assms(2) by simp

end

locale durable_store = store +
  assumes save_flushed:
    "good s \<Longrightarrow> save s f = (Inr (), f') \<Longrightarrow> \<exists>x. files f' (key s) = Some x \<and> synced x"
begin

lemma survives_power_loss:
  assumes "good s" "save s f = (Inr (), f')" "verdicts f' = []" "pick (key s) = 0"
  shows "fst (load (key s) (power_loss pick junk f')) = Inr s"
proof -
  obtain x where "files f' (key s) = Some x" "synced x"
    using save_flushed [OF assms(1,2)] by blast
  then have "files (power_loss pick junk f') (key s) = files f' (key s)"
    by (simp add: power_loss_synced assms(4))
  then show ?thesis
    using load_cong [OF _ assms(3)] save_load [OF assms(1-3)] by simp
qed

end

end
