(* ===== verification/Counter.thy ===== *)
theory Counter
  imports RustFs
begin

text \<open>
  The session and total bale counters (\<open>baler-core/src/counter.rs\<close>): the counters, the store
  with its path, loading with its tolerance of a malformed file, the four updates, and
  \<open>persist\<close> as the sequence of file-system calls the code makes (directory, temporary file,
  the writes of the \<open>write!\<close> macro, \<open>sync_all\<close>, \<open>rename\<close>). The lemmas show the round trip of
  the text format, the round trip through the file system, and that a power loss between any
  two calls leaves the old or the new counters.
\<close>

subsection \<open>The code\<close>

record counters =
  cn_session :: u64
  cn_total :: u64

definition counters_default :: counters where
  "counters_default = \<lparr>cn_session = 0, cn_total = 0\<rparr>"

record counter_store =
  cs_path :: path
  cs_counters :: counters

definition set_counter :: "str \<Rightarrow> u64 \<Rightarrow> counters \<Rightarrow> counters" where
  "set_counter k v c =
     (if k = lit ''session'' then c\<lparr>cn_session := v\<rparr>
      else if k = lit ''total'' then c\<lparr>cn_total := v\<rparr> else c)"

fun parse_lines :: "counters \<Rightarrow> str list \<Rightarrow> counters option" where
  "parse_lines c [] = Some c"
| "parse_lines c (line # rest) =
     (case split_once 61 line of
        None \<Rightarrow> None
      | Some (k, v) \<Rightarrow>
          (case parse_u64 (trim v) of
             None \<Rightarrow> None
           | Some n \<Rightarrow> parse_lines (set_counter (trim k) n c) rest))"

definition cn_parse :: "str \<Rightarrow> counters option" where
  "cn_parse s = parse_lines counters_default (str_lines s)"

definition cs_load :: "path \<Rightarrow> fs \<Rightarrow> (io_error + counter_store) \<times> fs" where
  "cs_load path f =
     (case read_to_string path f of
        (Inr s, f') \<Rightarrow>
          (Inr \<lparr>cs_path = path,
                cs_counters = (case cn_parse s of Some c \<Rightarrow> c | None \<Rightarrow> counters_default)\<rparr>, f')
      | (Inl e, f') \<Rightarrow>
          if e = NotFound then (Inr \<lparr>cs_path = path, cs_counters = counters_default\<rparr>, f')
          else (Inl e, f'))"

definition cs_snapshot :: "counter_store \<Rightarrow> counters" where
  "cs_snapshot s = cs_counters s"

definition tmp_path :: "path \<Rightarrow> path" where
  "tmp_path p = with_extension p (lit ''tmp'')"

text \<open>The strings the \<open>write!\<close> macro hands to the file, one \<open>write_all\<close> each.\<close>

definition cn_pieces :: "counters \<Rightarrow> str list" where
  "cn_pieces c =
     [lit ''session='', show_nat (unat (cn_session c)), 10 # lit ''total='',
      show_nat (unat (cn_total c)), [10]]"

definition persist_prepare :: "counter_store \<Rightarrow> fs_op list" where
  "persist_prepare s =
     (let tmp = tmp_path (cs_path s) in
      (case path_parent (cs_path s) of
         None \<Rightarrow> [] | Some d \<Rightarrow> if path_is_empty d then [] else [CreateDirAll d])
      @ [Create tmp]
      @ map (\<lambda>t. WriteAll tmp (utf8_encode t)) (cn_pieces (cs_counters s))
      @ [SyncAll tmp])"

definition persist_ops :: "counter_store \<Rightarrow> fs_op list" where
  "persist_ops s = persist_prepare s @ [Rename (tmp_path (cs_path s)) (cs_path s)]"

definition cs_persist :: "counter_store \<Rightarrow> fs \<Rightarrow> (io_error + unit) \<times> fs" where
  "cs_persist s f = fs_run (persist_ops s) f"

text \<open>Each update changes the counters in memory first and persists them whatever they are.\<close>

definition cs_update ::
    "(counters \<Rightarrow> counters) \<Rightarrow> counter_store \<Rightarrow> fs \<Rightarrow> (io_error + unit) \<times> counter_store \<times> fs" where
  "cs_update g s f =
     (let s' = s\<lparr>cs_counters := g (cs_counters s)\<rparr>; (r, f') = cs_persist s' f in (r, s', f'))"

definition increment_bale ::
    "counter_store \<Rightarrow> fs \<Rightarrow> (io_error + unit) \<times> counter_store \<times> fs" where
  "increment_bale =
     cs_update (\<lambda>c. c\<lparr>cn_session := sat_add (cn_session c) 1, cn_total := sat_add (cn_total c) 1\<rparr>)"

definition adjust_session ::
    "i64 \<Rightarrow> counter_store \<Rightarrow> fs \<Rightarrow> (io_error + unit) \<times> counter_store \<times> fs" where
  "adjust_session delta =
     cs_update (\<lambda>c. c\<lparr>cn_session := sat_add_signed (cn_session c) delta\<rparr>)"

definition reset_session ::
    "counter_store \<Rightarrow> fs \<Rightarrow> (io_error + unit) \<times> counter_store \<times> fs" where
  "reset_session = cs_update (\<lambda>c. c\<lparr>cn_session := 0\<rparr>)"

definition reset_total ::
    "counter_store \<Rightarrow> fs \<Rightarrow> (io_error + unit) \<times> counter_store \<times> fs" where
  "reset_total = cs_update (\<lambda>c. c\<lparr>cn_total := 0\<rparr>)"

subsection \<open>The text format\<close>

definition cn_text :: "counters \<Rightarrow> str" where
  "cn_text c = concat (cn_pieces c)"

lemma strip_cr_digit: "c \<noteq> 13 \<Longrightarrow> strip_cr (xs @ [c]) = xs @ [c]"
  by (simp add: strip_cr_def)

lemma strip_cr_show: "strip_cr (xs @ show_nat n) = xs @ show_nat n"
proof -
  have "13 \<notin> set (show_nat n)" by (rule show_nat_no) simp
  then have "last (show_nat n) \<noteq> 13" by (metis last_in_set show_nat_nonempty)
  then show ?thesis by (simp add: strip_cr_def)
qed

text \<open>One line \<open>key=digits\<close> of the file sets that counter.\<close>

lemma parse_lines_entry:
  assumes "61 \<notin> set k" "trim k = k"
  shows "parse_lines c ((k @ 61 # show_nat (unat n)) # rest) = parse_lines (set_counter k n c) rest"
  by (simp add: split_once_append [OF assms(1)] parse_u64_show assms(2))

lemma lit_session: "lit ''session='' = lit ''session'' @ [61]"
  and lit_total: "lit ''total='' = lit ''total'' @ [61]"
  by simp_all

lemma trim_keys: "trim (lit ''session'') = lit ''session''" "trim (lit ''total'') = lit ''total''"
  by (rule trim_id; simp add: is_ws_def)+

lemma cn_text_lines:
  "str_lines (cn_text c) =
    [lit ''session'' @ 61 # show_nat (unat (cn_session c)),
     lit ''total'' @ 61 # show_nat (unat (cn_total c))]"
proof -
  have t: "cn_text c = (lit ''session='' @ show_nat (unat (cn_session c))) @ 10 #
      ((lit ''total='' @ show_nat (unat (cn_total c))) @ 10 # [])"
    by (simp add: cn_text_def cn_pieces_def del: lit_Cons)
  have n: "10 \<notin> set (lit ''session='' @ show_nat a)" "10 \<notin> set (lit ''total='' @ show_nat a)" for a
    using show_nat_no [of 10 a] by auto
  show ?thesis
    unfolding t str_lines_line [OF n(1)] str_lines_line [OF n(2)] strip_cr_show
    by (simp add: lit_session lit_total)
qed

lemma cn_text_ascii: "\<forall>x\<in>set (cn_text c). is_scalar x"
proof -
  have "\<forall>x\<in>set (show_nat n). is_scalar x" for n
    using show_nat_digits [of n] by (auto simp: is_scalar_def)
  moreover have "\<forall>x\<in>set (lit ''session='') \<union> set (lit ''total=''). is_scalar x"
    by (simp add: is_scalar_def)
  ultimately show ?thesis
    by (auto simp: cn_text_def cn_pieces_def is_scalar_def simp del: lit_Cons)
qed

text \<open>C26. The file format round-trips: what the store writes for any counters parses back to
  exactly those counters.\<close>

theorem counters_text_roundtrip: "cn_parse (cn_text c) = Some c"
proof -
  have k: "61 \<notin> set (lit ''session'')" "61 \<notin> set (lit ''total'')" by simp_all
  show ?thesis
    unfolding cn_parse_def cn_text_lines parse_lines_entry [OF k(1) trim_keys(1)]
      parse_lines_entry [OF k(2) trim_keys(2)]
    by (simp add: set_counter_def counters_default_def)
qed

subsection \<open>Persisting\<close>

definition cs_good :: "counter_store \<Rightarrow> bool" where
  "cs_good s \<longleftrightarrow> tmp_path (cs_path s) \<noteq> cs_path s"

lemma fold_writes:
  "m p = Some \<lparr>fbytes = bs, synced = False\<rparr> \<Longrightarrow>
   fold op_effect (map (\<lambda>t. WriteAll p (utf8_encode t)) ts) m p =
     Some \<lparr>fbytes = bs @ utf8_encode (concat ts), synced = False\<rparr>"
proof (induction ts arbitrary: m bs)
  case Nil
  then show ?case by (simp add: utf8_encode_def)
next
  case (Cons t ts)
  then show ?case by (simp add: op_effect_def utf8_encode_append)
qed

lemma prepare_effect:
  "fold op_effect (persist_prepare s) m (tmp_path (cs_path s)) =
    Some \<lparr>fbytes = utf8_encode (cn_text (cs_counters s)), synced = True\<rparr>"
proof -
  let ?t = "tmp_path (cs_path s)"
  define dirs where "dirs = (case path_parent (cs_path s) of
      None \<Rightarrow> [] | Some d \<Rightarrow> if path_is_empty d then [] else [CreateDirAll d])"
  have d: "fold op_effect dirs m = m"
    by (auto simp: dirs_def op_effect_def split: option.splits)
  have w: "fold op_effect (map (\<lambda>t. WriteAll ?t (utf8_encode t)) (cn_pieces (cs_counters s)))
      (m(?t := Some \<lparr>fbytes = [], synced = False\<rparr>)) ?t
    = Some \<lparr>fbytes = [] @ utf8_encode (cn_text (cs_counters s)), synced = False\<rparr>"
    unfolding cn_text_def by (rule fold_writes) simp
  show ?thesis
    unfolding persist_prepare_def Let_def dirs_def [symmetric]
    using w by (simp add: d) (simp add: op_effect_def)
qed

lemma prepare_frame: "cs_good s \<Longrightarrow> cs_path s \<notin> (\<Union>op\<in>set (persist_prepare s). op_target op)"
  by (auto simp: cs_good_def persist_prepare_def Let_def split: option.splits if_splits)

lemma persist_ok_file:
  assumes "cs_persist s f = (Inr (), f')" "cs_good s"
  shows "files f' (cs_path s) =
    Some \<lparr>fbytes = utf8_encode (cn_text (cs_counters s)), synced = True\<rparr>"
  using fs_run_ok [OF assms(1) [unfolded cs_persist_def]] prepare_effect [of s "files f"] assms(2)
  by (simp add: persist_ops_def op_effect_def cs_good_def)

lemma load_persisted:
  assumes "files f (cs_path s) = Some \<lparr>fbytes = utf8_encode (cn_text (cs_counters s)), synced = b\<rparr>"
    and "verdicts f = []"
  shows "cs_load (cs_path s) f = (Inr s, f)"
  using read_to_string_files [OF assms(2,1)] utf8_roundtrip [OF cn_text_ascii]
  by (simp add: cs_load_def counters_text_roundtrip)

interpretation cs: durable_store cs_persist cs_load cs_path cs_good
proof unfold_locales
  fix s f f'
  assume g: "cs_good s" and p: "cs_persist s f = (Inr (), f')"
  show "\<exists>x. files f' (cs_path s) = Some x \<and> synced x"
    using persist_ok_file [OF p g] by simp
  assume "verdicts f' = []"
  then show "fst (cs_load (cs_path s) f') = Inr s"
    using load_persisted [OF persist_ok_file [OF p g]] by simp
next
  fix f g :: fs and p
  assume "verdicts f = []" "verdicts g = []" "files f p = files g p"
  then have "fst (read_to_string p f) = fst (read_to_string p g)" by (rule read_to_string_cong)
  then show "fst (cs_load p f) = fst (cs_load p g)"
    by (auto simp: cs_load_def split: prod.splits sum.splits)
qed

subsection \<open>Properties of the store\<close>

lemma cs_update_result:
  "cs_update g s f = (r, s', f') \<Longrightarrow>
     s' = s\<lparr>cs_counters := g (cs_counters s)\<rparr> \<and> cs_persist s' f = (r, f')"
  by (auto simp: cs_update_def Let_def split: prod.splits)

lemma cs_update_store:
  "fst (snd (cs_update g s f)) = s\<lparr>cs_counters := g (cs_counters s)\<rparr>"
  by (simp add: cs_update_def Let_def split: prod.splits)

lemmas cs_ops_defs = increment_bale_def adjust_session_def reset_session_def reset_total_def

text \<open>When the environment refuses nothing, persisting succeeds.\<close>

lemma persist_granted:
  assumes "verdicts f = []"
  shows "fst (cs_persist s f) = Inr ()" and "verdicts (snd (cs_persist s f)) = []"
proof -
  show "verdicts (snd (cs_persist s f)) = []"
    using fs_run_granted_verdicts [OF assms] by (simp add: cs_persist_def)
  obtain r f1 where pre: "fs_run (persist_prepare s) f = (r, f1)" by fastforce
  have "\<forall>op\<in>set (persist_prepare s). \<forall>a b. op \<noteq> Rename a b"
    by (auto simp: persist_prepare_def Let_def split: option.splits)
  with fs_run_granted [OF assms] pre have r: "r = Inr ()" by fastforce
  have "verdicts f1 = []"
    using fs_run_granted_verdicts [OF assms, of "persist_prepare s"] pre by simp
  moreover have "files f1 (tmp_path (cs_path s)) \<noteq> None"
    using fs_run_ok [of "persist_prepare s" f "()" f1] pre r prepare_effect [of s "files f"] by simp
  ultimately show "fst (cs_persist s f) = Inr ()"
    using pre r by (auto simp: cs_persist_def persist_ops_def fs_run_append fs_exec_def)
qed

text \<open>Counts survive a power cycle: when an update reports success, then after a power loss that
  finds the rename on the disk, whatever became of files that were not flushed, loading the path
  gives exactly the updated store (this for any of the four updates; the path must not itself be
  the temporary file).\<close>

theorem counters_survive_power_loss:
  assumes "op \<in> {increment_bale, adjust_session d, reset_session, reset_total}"
    and "op s f = (Inr (), s', f')" "verdicts f' = []" "cs_good s" "pick (cs_path s) = 0"
  shows "fst (cs_load (cs_path s) (power_loss pick junk f')) = Inr s'"
proof -
  obtain g where g: "op = cs_update g" using assms(1) by (auto simp: cs_ops_defs)
  have u: "s' = s\<lparr>cs_counters := g (cs_counters s)\<rparr>" "cs_persist s' f = (Inr (), f')"
    using cs_update_result assms(2) g by blast+
  have "cs_good s'" "cs_path s' = cs_path s" using assms(4) u(1) by (simp_all add: cs_good_def)
  then show ?thesis using cs.survives_power_loss [OF _ u(2) assms(3), of pick] assms(5) by simp
qed

definition demo_path :: path where
  "demo_path = \<lparr>is_abs = True, comps = [lit ''var'', lit ''lib'', lit ''baler'', lit ''counters'']\<rparr>"

definition empty_fs :: fs where
  "empty_fs = \<lparr>files = Map.empty, verdicts = [], older = \<lambda>_. []\<rparr>"

lemma demo_good: "tmp_path demo_path \<noteq> demo_path"
  by (simp add: tmp_path_def with_extension_def demo_path_def file_stem_def)

theorem counters_survive_power_loss_witness:
  "fst (cs_load demo_path (power_loss (\<lambda>_. 0) (\<lambda>_. [255])
     (snd (snd (increment_bale \<lparr>cs_path = demo_path, cs_counters = \<lparr>cn_session = 7, cn_total = 41\<rparr>\<rparr>
        empty_fs)))))
   = Inr \<lparr>cs_path = demo_path, cs_counters = \<lparr>cn_session = 8, cn_total = 42\<rparr>\<rparr>"
proof -
  let ?s = "\<lparr>cs_path = demo_path, cs_counters = \<lparr>cn_session = 7, cn_total = 41\<rparr>\<rparr>"
  let ?t = "\<lparr>cs_path = demo_path, cs_counters = \<lparr>cn_session = 8, cn_total = 42\<rparr>\<rparr>"
  have v: "verdicts empty_fs = []" by (simp add: empty_fs_def)
  have e: "increment_bale ?s empty_fs = (Inr (), ?t, snd (cs_persist ?t empty_fs))"
    using persist_granted(1) [OF v, of ?t]
    by (simp add: increment_bale_def cs_update_def sat_add_def Let_def split_beta prod_eq_iff)
  have "cs_good ?s" using demo_good by (simp add: cs_good_def)
  from counters_survive_power_loss [of increment_bale 0, OF _ e persist_granted(2) [OF v] this, of "\<lambda>_. 0"]
  show ?thesis by (simp add: e)
qed

text \<open>A persist that reports an error has not touched the counters file.\<close>

lemma persist_error_keeps:
  assumes "cs_persist s f = (Inl e, f')" "cs_good s"
  shows "files f' (cs_path s) = files f (cs_path s)"
proof -
  obtain r f1 where pre: "fs_run (persist_prepare s) f = (r, f1)" by fastforce
  have "files f1 (cs_path s) = files f (cs_path s)"
    using fs_run_frame [OF prepare_frame [OF assms(2)], of f] pre by simp
  then show ?thesis
    using assms(1) pre
    by (auto simp: cs_persist_def persist_ops_def fs_run_append fs_exec_def
        next_verdict_def split: sum.splits prod.splits list.splits verdict.splits
        option.splits if_splits)
qed

text \<open>What a persist adds to the former targets of the entry: nothing, or the file with the new
  counters, flushed. With no refusal that file is the present one.\<close>

lemma persist_versions:
  assumes "cs_good s" "cs_persist s f = (r, f')"
  defines "new \<equiv> Some \<lparr>fbytes = utf8_encode (cn_text (cs_counters s)), synced = True\<rparr>"
  shows "versions f' (cs_path s) = versions f (cs_path s)
    \<or> versions f' (cs_path s) = new # versions f (cs_path s)"
proof -
  obtain q f1 where pre: "fs_run (persist_prepare s) f = (q, f1)" by fastforce
  have keep: "versions f1 (cs_path s) = versions f (cs_path s)"
    using fs_run_versions [OF prepare_frame [OF assms(1)], of f] pre by simp
  show ?thesis
  proof (cases q)
    case (Inl e)
    then show ?thesis
      using assms(2) pre keep by (simp add: cs_persist_def persist_ops_def fs_run_append)
  next
    case (Inr u)
    have tmp: "files f1 (tmp_path (cs_path s)) = new"
      using fs_run_ok [of "persist_prepare s" f "()" f1] pre Inr prepare_effect [of s "files f"]
      by (simp add: new_def)
    obtain v f2 where v: "next_verdict f1 = (v, f2)" by fastforce
    then have f2: "files f2 = files f1" "older f2 = older f1"
      using files_next_verdict [of f1] older_simps(1) [of f1] by simp_all
    have "fs_exec (Rename (tmp_path (cs_path s)) (cs_path s)) f1 = (r, f')"
      using assms(2) pre Inr
      by (auto simp: cs_persist_def persist_ops_def fs_run_append split: prod.splits sum.splits)
    then show ?thesis
      using v f2 tmp keep assms(1)
      by (cases v) (auto simp: fs_exec_def versions_def cs_good_def new_def relink_def)
  qed
qed

text \<open>C14. A power loss between any two calls of a persist, whichever directory changes it loses,
  leaves a file that it could have left before the persist, or exactly the new counters: never a
  mixture. The files it could have left before are assumed flushed (as every earlier successful
  persist leaves them); on a disk with nothing pending there is only one, the old file.\<close>

theorem persist_crash_atomic:
  fixes s :: counter_store and f :: fs and k :: nat and junk :: "path \<Rightarrow> u8 list" and pick :: "path \<Rightarrow> nat"
  assumes "cs_good s" "\<forall>x. Some x \<in> set (versions f (cs_path s)) \<longrightarrow> synced x"
  defines "g \<equiv> power_loss pick junk (snd (fs_run (take k (persist_ops s)) f))"
  shows "files g (cs_path s) \<in> set (versions f (cs_path s)) \<or> cs_load (cs_path s) g = (Inr s, g)"
proof -
  let ?h = "snd (fs_run (take k (persist_ops s)) f)"
  let ?new = "Some \<lparr>fbytes = utf8_encode (cn_text (cs_counters s)), synced = True\<rparr>"
  have "versions ?h (cs_path s) = versions f (cs_path s)
      \<or> versions ?h (cs_path s) = ?new # versions f (cs_path s)"
  proof (cases "k \<le> length (persist_prepare s)")
    case True
    then have "set (take k (persist_ops s)) \<subseteq> set (persist_prepare s)"
      by (simp add: persist_ops_def set_take_subset)
    then have "cs_path s \<notin> (\<Union>op\<in>set (take k (persist_ops s)). op_target op)"
      using prepare_frame [OF assms(1)] by blast
    then show ?thesis using fs_run_versions by blast
  next
    case False
    then have "take k (persist_ops s) = persist_ops s" by (simp add: persist_ops_def)
    then show ?thesis
      using persist_versions [OF assms(1), of f "fst (cs_persist s f)" ?h] by (simp add: cs_persist_def)
  qed
  moreover obtain v where v: "v \<in> set (versions ?h (cs_path s))" "files g (cs_path s) = settle (junk (cs_path s)) v"
    using power_loss_version [of ?h "cs_path s" pick junk] by (auto simp: g_def)
  ultimately have "v = ?new \<or> v \<in> set (versions f (cs_path s))" by auto
  then show ?thesis
  proof
    assume "v = ?new"
    then have "files g (cs_path s) = ?new" using v(2) by (simp add: settle_def)
    then show ?thesis using load_persisted [of g s True] by (simp add: g_def)
  next
    assume "v \<in> set (versions f (cs_path s))"
    then have "settle (junk (cs_path s)) v = v" by (intro settle_synced) (use assms(2) in blast)
    then show ?thesis using v(2) \<open>v \<in> set (versions f (cs_path s))\<close> by simp
  qed
qed

theorem persist_crash_atomic_witness:
  "files (power_loss (\<lambda>_. 0) (\<lambda>_. []) (snd (fs_run (take 4 (persist_ops
       \<lparr>cs_path = demo_path, cs_counters = \<lparr>cn_session = 8, cn_total = 42\<rparr>\<rparr>)) empty_fs))) demo_path
     = None"
proof -
  let ?s = "\<lparr>cs_path = demo_path, cs_counters = \<lparr>cn_session = 8, cn_total = 42\<rparr>\<rparr>"
  let ?h = "snd (fs_run (take 4 (persist_ops ?s)) empty_fs)"
  let ?g = "power_loss (\<lambda>_. 0) (\<lambda>_. []) ?h"
  have "cs_good ?s" using demo_good by (simp add: cs_good_def)
  moreover have "\<forall>x. Some x \<in> set (versions empty_fs (cs_path ?s)) \<longrightarrow> synced x"
    by (simp add: empty_fs_def versions_def)
  ultimately have or: "files ?g demo_path = None \<or> cs_load demo_path ?g = (Inr ?s, ?g)"
    using persist_crash_atomic [of ?s empty_fs "\<lambda>_. 0" "\<lambda>_. []" 4] by (simp add: empty_fs_def versions_def)
  have ops: "set (take 4 (persist_ops ?s)) \<subseteq> set (persist_prepare ?s)"
  proof -
    have "4 \<le> length (persist_prepare ?s)"
      by (simp add: persist_prepare_def Let_def cn_pieces_def)
    then show ?thesis by (simp add: persist_ops_def set_take_subset)
  qed
  then have "demo_path \<notin> (\<Union>op\<in>set (take 4 (persist_ops ?s)). op_target op)"
    using prepare_frame [of ?s] demo_good by (fastforce simp: cs_good_def)
  then have "files ?h demo_path = None"
    using fs_run_frame [of demo_path "take 4 (persist_ops ?s)" empty_fs] by (simp add: empty_fs_def)
  then have "files ?g demo_path = None" by (simp add: power_loss_def versions_def settle_def)
  with or show ?thesis by simp
qed

text \<open>The manual correction moves the session only, by the signed amount, clamped between 0
  and the largest \<open>u64\<close>; the counters in memory change even when the persist fails.\<close>

theorem adjust_session_clamped:
  assumes "adjust_session delta s f = (r, s', f')"
  shows "uint (cn_session (cs_counters s')) =
      max 0 (min (uint (cn_session (cs_counters s)) + sint delta) (2 ^ 64 - 1))
    \<and> cn_total (cs_counters s') = cn_total (cs_counters s)"
proof -
  have "s' = s\<lparr>cs_counters :=
      (cs_counters s)\<lparr>cn_session := sat_add_signed (cn_session (cs_counters s)) delta\<rparr>\<rparr>"
    using cs_update_result assms unfolding adjust_session_def by blast
  then show ?thesis by (simp add: uint_sat_add_signed)
qed

theorem adjust_session_clamped_witness:
  "uint (cn_session (cs_counters (fst (snd (adjust_session (- 10)
     \<lparr>cs_path = demo_path, cs_counters = \<lparr>cn_session = 2, cn_total = 3\<rparr>\<rparr> empty_fs))))) = 0"
proof -
  let ?s = "\<lparr>cs_path = demo_path, cs_counters = \<lparr>cn_session = 2, cn_total = 3\<rparr>\<rparr>"
  obtain r s' f' where e: "adjust_session (- 10) ?s empty_fs = (r, s', f')"
    by (metis prod_cases3)
  from adjust_session_clamped [OF e] show ?thesis by (simp add: e)
qed

end
