(* ===== verification/Ipc.thy ===== *)
theory Ipc
  imports Prelude
begin

text \<open>
  The contract between the daemon and the panel (\<open>baler-core/src/ipc.rs\<close>): the machine mode,
  the operator's commands, the knife position and the snapshot published every cycle; and the
  channel constants of \<open>baler-core/src/channel.rs\<close>.
\<close>

datatype mode = Initializing | Operational | Fault | Ethernet

datatype command =
    Wrap
  | ToggleKnife
  | ResetSession
  | ResetTotal
  | EnterEthernet
  | ReturnToEthercat
  | ManualIo (mio_wrap: bool) (mio_knives_in: bool) (mio_knives_out: bool)
  | AdjustSession (adj_delta: i8)

datatype knife_pos = KUnknown | KIn | KOut

text \<open>\<open>Ipv4Addr\<close> by its four octets.\<close>

type_synonym ipv4 = "u8 \<times> u8 \<times> u8 \<times> u8"

record state_snapshot =
  ss_mode :: mode
  ss_bale_full :: bool
  ss_knife :: knife_pos
  ss_wrap_armed :: bool
  ss_full_latched :: bool
  ss_wrap_active :: bool
  ss_knife_active :: bool
  ss_session :: u64
  ss_total :: u64
  ss_di1 :: bool
  ss_di2 :: bool
  ss_di3 :: bool
  ss_ip :: ipv4
  ss_ip_valid :: bool

definition is_manual_io :: "command \<Rightarrow> bool" where
  "is_manual_io cmd = (case cmd of ManualIo _ _ _ \<Rightarrow> True | _ \<Rightarrow> False)"

lemma is_manual_io_simps [simp]:
  "is_manual_io (ManualIo a b c)"
  "\<not> is_manual_io Wrap"
  "\<not> is_manual_io ToggleKnife"
  "\<not> is_manual_io ResetSession"
  "\<not> is_manual_io ResetTotal"
  "\<not> is_manual_io EnterEthernet"
  "\<not> is_manual_io ReturnToEthercat"
  "\<not> is_manual_io (AdjustSession d)"
  by (simp_all add: is_manual_io_def)

definition CHANNEL_STATE :: string where
  "CHANNEL_STATE = ''baler.state''"

definition CHANNEL_COMMAND :: string where
  "CHANNEL_COMMAND = ''baler.command''"

definition PAYLOAD_MAX :: nat where
  "PAYLOAD_MAX = 256"

end
