(* ===== verification/BalerState.thy ===== *)
theory BalerState
  imports Ipc
begin

text \<open>
  The master mode state machine and the command gating (\<open>baler-core/src/state.rs\<close>): the
  reducer's state and operations, the invariant that the status inputs are known only while
  operational, the graph of mode changes with the event that causes each, and what any
  sequence of events can do to the mode and to the commands accepted.
\<close>

subsection \<open>The code\<close>

datatype action =
    FireWrap
  | FireKnife
  | ActResetSession
  | ActAdjustSession i8
  | ActResetTotal
  | SwitchToEthernet
  | SwitchToEthercat

datatype reject = NotReady | NotIdle | AlreadyEthernet | NotInEthernet

record baler_state =
  bs_mode :: mode
  bs_bale_full :: bool
  bs_knife_in :: "bool option"

definition bs_new :: baler_state where
  "bs_new = \<lparr>bs_mode = Initializing, bs_bale_full = False, bs_knife_in = None\<rparr>"

definition bs_wrap_armed :: "baler_state \<Rightarrow> bool" where
  "bs_wrap_armed s \<longleftrightarrow> bs_mode s = Operational \<and> bs_bale_full s"

definition mark_inputs_unknown :: "baler_state \<Rightarrow> baler_state" where
  "mark_inputs_unknown s = s\<lparr>bs_bale_full := False, bs_knife_in := None\<rparr>"

definition on_bus_health :: "bool \<Rightarrow> baler_state \<Rightarrow> baler_state" where
  "on_bus_health healthy s =
     (if bs_mode s = Ethernet then s
      else if healthy then s\<lparr>bs_mode := Operational\<rparr>
      else
        let s1 = mark_inputs_unknown s in
        s1\<lparr>bs_mode := (case bs_mode s1 of Operational \<Rightarrow> Fault | Fault \<Rightarrow> Fault
                       | _ \<Rightarrow> Initializing)\<rparr>)"

definition on_inputs :: "bool \<Rightarrow> bool \<Rightarrow> baler_state \<Rightarrow> baler_state" where
  "on_inputs bale_full knife_in s =
     (if bs_mode s = Operational
      then s\<lparr>bs_bale_full := bale_full, bs_knife_in := Some knife_in\<rparr> else s)"

definition require_operational :: "baler_state \<Rightarrow> reject + unit" where
  "require_operational s = (if bs_mode s = Operational then Inr () else Inl NotReady)"

fun bs_handle :: "command \<Rightarrow> bool \<Rightarrow> baler_state \<Rightarrow> (reject + action) \<times> baler_state" where
  "bs_handle Wrap active s = (map_sum id (\<lambda>_. FireWrap) (require_operational s), s)"
| "bs_handle ToggleKnife active s = (map_sum id (\<lambda>_. FireKnife) (require_operational s), s)"
| "bs_handle ResetSession active s = (Inr ActResetSession, s)"
| "bs_handle (AdjustSession delta) active s = (Inr (ActAdjustSession delta), s)"
| "bs_handle ResetTotal active s = (Inr ActResetTotal, s)"
| "bs_handle EnterEthernet active s =
     (case bs_mode s of
        Ethernet \<Rightarrow> (Inl AlreadyEthernet, s)
      | m \<Rightarrow>
          if m = Operational \<and> active then (Inl NotIdle, s)
          else (Inr SwitchToEthernet, mark_inputs_unknown (s\<lparr>bs_mode := Ethernet\<rparr>)))"
| "bs_handle ReturnToEthercat active s =
     (if bs_mode s = Ethernet then (Inr SwitchToEthercat, s\<lparr>bs_mode := Initializing\<rparr>)
      else (Inl NotInEthernet, s))"
| "bs_handle (ManualIo _ _ _) active s = (Inl NotReady, s)"

subsection \<open>Events and invariant\<close>

datatype bs_event = Health bool | StatusInputs bool bool | Cmd command bool

fun bs_step :: "baler_state \<Rightarrow> bs_event \<Rightarrow> (reject + action) option \<times> baler_state" where
  "bs_step s (Health h) = (None, on_bus_health h s)"
| "bs_step s (StatusInputs b k) = (None, on_inputs b k s)"
| "bs_step s (Cmd c active) = map_prod Some id (bs_handle c active s)"

definition bs_wf :: "baler_state \<Rightarrow> bool" where
  "bs_wf s \<longleftrightarrow> (bs_mode s \<noteq> Operational \<longrightarrow> \<not> bs_bale_full s \<and> bs_knife_in s = None)"

lemma bs_wf_new [inv_intros]: "bs_wf bs_new"
  by (simp add: bs_wf_def bs_new_def)

lemma bs_wf_health [inv_intros]: "bs_wf s \<Longrightarrow> bs_wf (on_bus_health h s)"
  by (auto simp: bs_wf_def on_bus_health_def mark_inputs_unknown_def Let_def)

lemma bs_wf_inputs [inv_intros]: "bs_wf s \<Longrightarrow> bs_wf (on_inputs b k s)"
  by (simp add: bs_wf_def on_inputs_def)

lemma bs_wf_handle [inv_intros]: "bs_wf s \<Longrightarrow> bs_wf (snd (bs_handle c a s))"
  by (cases c) (auto simp: bs_wf_def mark_inputs_unknown_def split: mode.splits)

lemma on_bus_health_mode:
  "bs_mode (on_bus_health h s) =
    (if bs_mode s = Ethernet then Ethernet else if h then Operational
     else if bs_mode s = Initializing then Initializing else Fault)"
  by (auto simp: on_bus_health_def mark_inputs_unknown_def Let_def split: mode.splits)

lemma on_inputs_mode [simp]: "bs_mode (on_inputs b k s) = bs_mode s"
  by (simp add: on_inputs_def)

lemma bs_handle_mode:
  "bs_mode (snd (bs_handle c a s)) =
    (if c = EnterEthernet \<and> \<not> (bs_mode s = Operational \<and> a) then Ethernet
     else if c = ReturnToEthercat \<and> bs_mode s = Ethernet then Initializing
     else bs_mode s)"
  by (cases c) (auto simp: mark_inputs_unknown_def split: mode.splits)

text \<open>Which answers carry out something on the machine, and when they are given.\<close>

lemma bs_handle_accepts:
  "fst (bs_handle c a s) = Inr FireWrap \<longleftrightarrow> c = Wrap \<and> bs_mode s = Operational"
  "fst (bs_handle c a s) = Inr FireKnife \<longleftrightarrow> c = ToggleKnife \<and> bs_mode s = Operational"
  "fst (bs_handle c a s) = Inr SwitchToEthernet \<longleftrightarrow>
     c = EnterEthernet \<and> bs_mode s \<noteq> Ethernet \<and> \<not> (bs_mode s = Operational \<and> a)"
  "fst (bs_handle c a s) = Inr SwitchToEthercat \<longleftrightarrow>
     c = ReturnToEthercat \<and> bs_mode s = Ethernet"
  "fst (bs_handle c a s) = Inr ActResetTotal \<longleftrightarrow> c = ResetTotal"
  "fst (bs_handle c a s) = Inr ActResetSession \<longleftrightarrow> c = ResetSession"
  "fst (bs_handle c a s) = Inr (ActAdjustSession d) \<longleftrightarrow> c = AdjustSession d"
  by (cases c; auto simp: require_operational_def split: mode.splits)+

lemma bs_wf_step: "bs_wf s \<Longrightarrow> bs_wf (snd (bs_step s e))"
  by (cases e) (auto intro: inv_intros)

lemma bs_step_mode:
  "bs_mode (snd (bs_step s e)) =
    (case e of
       Health h \<Rightarrow> if bs_mode s = Ethernet then Ethernet else if h then Operational
                   else if bs_mode s = Initializing then Initializing else Fault
     | StatusInputs b k \<Rightarrow> bs_mode s
     | Cmd c a \<Rightarrow> if c = EnterEthernet \<and> \<not> (bs_mode s = Operational \<and> a) then Ethernet
                  else if c = ReturnToEthercat \<and> bs_mode s = Ethernet then Initializing
                  else bs_mode s)"
  by (cases e) (simp_all add: on_bus_health_mode bs_handle_mode)

interpretation bs: safe_machine bs_step bs_wf
  "\<lambda>e r. (r = None) = (\<forall>c a. e \<noteq> Cmd c a)"
proof unfold_locales
  fix s e
  show "bs_wf s \<Longrightarrow> bs_wf (snd (bs_step s e))" by (rule bs_wf_step)
  show "(fst (bs_step s e) = None) = (\<forall>c a. e \<noteq> Cmd c a)" by (cases e) simp_all
qed

subsection \<open>The graph of mode changes\<close>

text \<open>One rule per arrow of the mode diagram, with the event that takes it.\<close>

inductive mode_edge :: "mode \<Rightarrow> bs_event \<Rightarrow> mode \<Rightarrow> bool" where
  up: "m \<noteq> Ethernet \<Longrightarrow> mode_edge m (Health True) Operational"
| lost: "mode_edge Operational (Health False) Fault"
| still_lost: "mode_edge Fault (Health False) Fault"
| not_yet: "mode_edge Initializing (Health False) Initializing"
| enter: "m \<noteq> Ethernet \<Longrightarrow> \<not> (m = Operational \<and> active) \<Longrightarrow>
     mode_edge m (Cmd EnterEthernet active) Ethernet"
| busy: "mode_edge Operational (Cmd EnterEthernet True) Operational"
| maintained: "e \<noteq> Cmd ReturnToEthercat True \<Longrightarrow> e \<noteq> Cmd ReturnToEthercat False \<Longrightarrow>
     mode_edge Ethernet e Ethernet"
| return: "mode_edge Ethernet (Cmd ReturnToEthercat active) Initializing"
| other: "m \<noteq> Ethernet \<Longrightarrow> c \<noteq> EnterEthernet \<Longrightarrow> mode_edge m (Cmd c active) m"
| inputs: "mode_edge m (StatusInputs b k) m"

inductive_cases mode_edge_to_fault: "mode_edge m e Fault"
inductive_cases mode_edge_from_ethernet: "mode_edge Ethernet e m"

lemma mode_edge_busy: "mode_edge Operational (Cmd c True) Operational"
  by (cases "c = EnterEthernet") (auto intro: mode_edge.intros)

text \<open>The reducer implements the mode diagram: on every event it moves along an arrow of it,
  and the diagram is deterministic, so it moves along the only one.\<close>

theorem mode_diagram_refined:
  "mode_edge (bs_mode s) e m \<longleftrightarrow> m = bs_mode (snd (bs_step s e))"
  unfolding bs_step_mode
proof
  assume "mode_edge (bs_mode s) e m"
  then show "m = (case e of
       Health h \<Rightarrow> if bs_mode s = Ethernet then Ethernet else if h then Operational
                   else if bs_mode s = Initializing then Initializing else Fault
     | StatusInputs b k \<Rightarrow> bs_mode s
     | Cmd c a \<Rightarrow> if c = EnterEthernet \<and> \<not> (bs_mode s = Operational \<and> a) then Ethernet
                  else if c = ReturnToEthercat \<and> bs_mode s = Ethernet then Initializing
                  else bs_mode s)"
    by cases (auto split: bs_event.splits)
qed (cases "bs_mode s"; cases e; auto intro: mode_edge.intros mode_edge_busy split: if_splits)

text \<open>Boot gating: as long as no healthy bus has been reported, no wrap and no knife command
  is accepted, whatever else happens (commands, input samples, mode switches).\<close>

theorem boot_gating:
  assumes "Health True \<notin> set evs"
  shows "Some (Inr FireWrap) \<notin> set (run_outs bs_step bs_new evs)
    \<and> Some (Inr FireKnife) \<notin> set (run_outs bs_step bs_new evs)"
proof -
  have "Some (Inr FireWrap) \<notin> set (run_outs bs_step s evs)
    \<and> Some (Inr FireKnife) \<notin> set (run_outs bs_step s evs)"
    if "bs_mode s \<noteq> Operational" for s
    using assms that
  proof (induction evs arbitrary: s)
    case Nil
    then show ?case by simp
  next
    case (Cons e evs)
    have m: "bs_mode (snd (bs_step s e)) \<noteq> Operational"
      using Cons.prems unfolding bs_step_mode by (auto split: bs_event.splits)
    have "fst (bs_step s e) \<noteq> Some (Inr FireWrap) \<and> fst (bs_step s e) \<noteq> Some (Inr FireKnife)"
      using Cons.prems(2) by (cases e) (simp_all add: bs_handle_accepts)
    then show ?case using Cons.IH [OF _ m] Cons.prems(1) by auto
  qed
  then show ?thesis by (simp add: bs_new_def)
qed

theorem boot_gating_witness:
  "Some (Inr FireWrap) \<notin> set (run_outs bs_step bs_new [Health False, Cmd Wrap False])"
proof -
  have "Health True \<notin> set [Health False, Cmd Wrap False]" by simp
  from boot_gating [OF this] show ?thesis by simp
qed

text \<open>Maintenance mode is left only by the operator: from Ethernet mode, any sequence of
  events without a return command (bus health reports, inputs, other commands) stays in
  Ethernet mode with the inputs unknown, and accepts no wrap, knife or second mode switch.\<close>

theorem ethernet_left_only_by_return:
  assumes "bs_mode s = Ethernet" "bs_wf s"
    and "\<forall>e\<in>set evs. \<forall>a. e \<noteq> Cmd ReturnToEthercat a"
  shows "let t = run_end bs_step s evs in
    bs_mode t = Ethernet \<and> bs_knife_in t = None \<and> \<not> bs_wrap_armed t
    \<and> set (run_outs bs_step s evs) \<inter> {Some (Inr FireWrap), Some (Inr FireKnife),
        Some (Inr SwitchToEthernet), Some (Inr SwitchToEthercat)} = {}"
proof -
  have "bs_mode (run_end bs_step s evs) = Ethernet
    \<and> set (run_outs bs_step s evs) \<inter> {Some (Inr FireWrap), Some (Inr FireKnife),
        Some (Inr SwitchToEthernet), Some (Inr SwitchToEthercat)} = {}"
    using assms(1,3)
  proof (induction evs arbitrary: s)
    case Nil
    then show ?case by simp
  next
    case (Cons e evs)
    have m: "bs_mode (snd (bs_step s e)) = Ethernet"
      using Cons.prems unfolding bs_step_mode by (auto split: bs_event.splits)
    have "fst (bs_step s e) \<notin> {Some (Inr FireWrap), Some (Inr FireKnife),
        Some (Inr SwitchToEthernet), Some (Inr SwitchToEthercat)}"
      using Cons.prems by (cases e) (auto simp: bs_handle_accepts)
    then show ?case using Cons.IH [OF m] Cons.prems(2) by simp
  qed
  moreover have "bs_wf (run_end bs_step s evs)" by (rule bs.run_inv [OF assms(2)])
  ultimately show ?thesis by (auto simp: Let_def bs_wf_def bs_wrap_armed_def)
qed

theorem ethernet_left_only_by_return_witness:
  "bs_mode (run_end bs_step (snd (bs_step bs_new (Cmd EnterEthernet False)))
     [Health True, Cmd Wrap False, StatusInputs True True]) = Ethernet"
proof -
  let ?s = "snd (bs_step bs_new (Cmd EnterEthernet False))"
  have "bs_mode ?s = Ethernet" "bs_wf ?s"
    by (simp_all add: bs_step_mode bs_wf_step bs_wf_new del: bs_step.simps)
  from ethernet_left_only_by_return [OF this, of "[Health True, Cmd Wrap False, StatusInputs True True]"]
  show ?thesis by (simp add: Let_def del: bs_step.simps run_end_Cons run_outs_Cons)
qed

text \<open>In every state the machine can reach, a known knife position, a bale-full indication or
  an armed wrap key means the mode is Operational: while booting, faulted or in maintenance
  the inputs read as unknown.\<close>

theorem inputs_known_only_operational:
  assumes "s = run_end bs_step bs_new evs"
    and "bs_knife_in s \<noteq> None \<or> bs_bale_full s \<or> bs_wrap_armed s"
  shows "bs_mode s = Operational"
proof -
  have "bs_wf s" unfolding assms(1) by (rule bs.run_inv [OF bs_wf_new])
  then show ?thesis using assms(2) by (auto simp: bs_wf_def bs_wrap_armed_def)
qed

theorem inputs_known_only_operational_witness:
  "bs_mode (run_end bs_step bs_new [Health True, StatusInputs True False]) = Operational"
  by (rule inputs_known_only_operational [OF refl])
    (simp add: on_bus_health_def on_inputs_def bs_new_def)

end
