(* ===== verification/Ports.thy ===== *)
theory Ports
  imports RustText Ipc
begin

text \<open>
  The hardware ports of the control cycle (\<open>baler-daemon/src/ports.rs\<close>). A \<open>&mut dyn Trait\<close>
  argument is a record of functions on the state behind it. Here are the inputs and outputs of
  one scan, the network, bus and watchdog ports, the network error with its \<open>Display\<close>, and the
  simulated implementations of the host build.
\<close>

subsection \<open>Inputs, outputs, ports\<close>

record inputs =
  in_bale_full :: bool
  in_knife_in :: bool
  in_bale_open :: bool
  in_healthy :: bool

record outputs =
  out_wrap :: bool
  out_knives_in :: bool
  out_knives_out :: bool

text \<open>The argv and the captured error text; the exit code is absent after a signal.\<close>

datatype net_error =
    NetCommand (ne_argv: str) (ne_code: "int option") (ne_stderr: str)
  | NetSpawn (ne_argv: str) (ne_source: str)

record 'n net_port =
  np_enter_ethernet :: "'n \<Rightarrow> (net_error + ipv4) \<times> 'n"
  np_enter_ethercat :: "'n \<Rightarrow> (net_error + unit) \<times> 'n"

record 'b bus_port =
  bp_suspend :: "'b \<Rightarrow> 'b"
  bp_restart :: "'b \<Rightarrow> 'b"

record 'd watchdog_port =
  wp_pet :: "'d \<Rightarrow> 'd"

definition show_int :: "int \<Rightarrow> str" where
  "show_int i = (if i < 0 then 45 # show_nat (nat (- i)) else show_nat (nat i))"

text \<open>\<open>impl Display for NetworkError\<close>.\<close>

definition net_error_display :: "net_error \<Rightarrow> str" where
  "net_error_display e =
     (case e of
        NetCommand argv code stderr \<Rightarrow>
          [96] @ argv @ lit ''` failed (exit '' @
          (case code of Some c \<Rightarrow> show_int c | None \<Rightarrow> lit ''signal'') @ lit ''): '' @ trim stderr
      | NetSpawn argv source \<Rightarrow> lit ''could not spawn `'' @ argv @ lit ''`: '' @ source)"

subsection \<open>The simulated ports\<close>

text \<open>\<open>SimBus::poll\<close> at a number of seconds since its start; \<open>write\<close> drops the outputs.\<close>

definition sim_poll :: "u64 \<Rightarrow> inputs" where
  "sim_poll elapsed_secs =
     (let phase = elapsed_secs mod 24 in
      \<lparr>in_bale_full = 16 \<le> phase, in_knife_in = False, in_bale_open = False, in_healthy = True\<rparr>)"

definition sim_write :: "outputs \<Rightarrow> unit" where
  "sim_write out = ()"

definition noop_bus :: "unit bus_port" where
  "noop_bus = \<lparr>bp_suspend = (\<lambda>_. ()), bp_restart = (\<lambda>_. ())\<rparr>"

definition sim_network :: "unit net_port" where
  "sim_network = \<lparr>np_enter_ethernet = (\<lambda>u. (Inr (192, 168, 1, 102), u)),
                  np_enter_ethercat = (\<lambda>u. (Inr (), u))\<rparr>"

definition noop_watchdog :: "unit watchdog_port" where
  "noop_watchdog = \<lparr>wp_pet = (\<lambda>u. ())\<rparr>"

subsection \<open>What a network port promises\<close>

text \<open>
  The documented contract of the network port: the address reported by a successful switch to
  Ethernet is the configured one, and no switch changes the configuration.
\<close>

locale network_controller =
  fixes port :: "'n net_port"
    and static_ip :: "'n \<Rightarrow> ipv4"
  assumes eth_ip: "np_enter_ethernet port n = (Inr ip, n') \<Longrightarrow> ip = static_ip n"
    and eth_static: "static_ip (snd (np_enter_ethernet port n)) = static_ip n"
    and ecat_static: "static_ip (snd (np_enter_ethercat port n)) = static_ip n"
begin

lemma eth_result_ip:
  "fst (np_enter_ethernet port n) = Inr ip \<Longrightarrow> ip = static_ip n"
  using eth_ip by (metis prod.collapse)

end

interpretation sim_net: network_controller sim_network "\<lambda>_. (192, 168, 1, 102)"
  by unfold_locales (auto simp: sim_network_def)

end
