(* ===== verification/Control.thy ===== *)
theory Control
  imports InputConditioner Pulse Counter BalerState Ports
begin

text \<open>
  The 10 ms control cycle of the daemon (\<open>baler-daemon/src/control.rs\<close>). \<open>ctl_step\<close> is composed
  of the blocks of \<open>Control::step\<close> in their order: health and inputs, the bale count, the
  attention latch, the command loop, the manual-IO watchdog, the outputs, the snapshot. The
  world it runs in holds the file system of the counters and the states behind the network and
  bus ports.
\<close>

subsection \<open>State\<close>

definition SCAN :: duration where
  "SCAN = from_millis 10"

definition DEBOUNCE :: u8 where
  "DEBOUNCE = 3"

definition PULSE :: duration where
  "PULSE = from_secs 5"

definition FULL_LATCH_CYCLES :: u32 where
  "FULL_LATCH_CYCLES = 2000"

definition MANUAL_IO_WATCHDOG :: u32 where
  "MANUAL_IO_WATCHDOG = 30"

record control =
  ct_counters :: counter_store
  ct_state :: baler_state
  ct_wrap :: pulse_engine
  ct_knives_in :: pulse_engine
  ct_knives_out :: pulse_engine
  ct_full_db :: debouncer
  ct_knife_db :: debouncer
  ct_open_db :: debouncer
  ct_last_open_level :: bool
  ct_last_ip :: "ipv4 option"
  ct_full_latch_remaining :: u32
  ct_last_di1 :: bool
  ct_last_di2 :: bool
  ct_last_di3 :: bool
  ct_manual_io_remaining :: u32
  ct_manual_wrap :: bool
  ct_manual_knives_in :: bool
  ct_manual_knives_out :: bool

record ('n, 'b) world =
  w_fs :: fs
  w_net :: 'n
  w_bus :: 'b

definition ctl_init :: "counter_store \<Rightarrow> control" where
  "ctl_init counters =
     \<lparr>ct_counters = counters,
      ct_state = bs_new,
      ct_wrap = pe_new PULSE,
      ct_knives_in = pe_new PULSE,
      ct_knives_out = pe_new PULSE,
      ct_full_db = db_new DEBOUNCE False,
      ct_knife_db = db_new DEBOUNCE False,
      ct_open_db = db_new DEBOUNCE False,
      ct_last_open_level = False,
      ct_last_ip = None,
      ct_full_latch_remaining = 0,
      ct_last_di1 = False,
      ct_last_di2 = False,
      ct_last_di3 = False,
      ct_manual_io_remaining = 0,
      ct_manual_wrap = False,
      ct_manual_knives_in = False,
      ct_manual_knives_out = False\<rparr>"

text \<open>\<open>Control::new\<close>: the only failure is that of loading the counters.\<close>

definition ctl_new :: "path \<Rightarrow> fs \<Rightarrow> (io_error + control) \<times> fs" where
  "ctl_new counter_path f =
     (case cs_load counter_path f of
        (Inl e, f') \<Rightarrow> (Inl e, f')
      | (Inr s, f') \<Rightarrow> (Inr (ctl_init s), f'))"

subsection \<open>The blocks of the cycle\<close>

definition ctl_inputs :: "inputs \<Rightarrow> control \<Rightarrow> control" where
  "ctl_inputs i c0 =
     (let c = c0\<lparr>ct_state := on_bus_health (in_healthy i) (ct_state c0),
                 ct_last_di1 := in_bale_full i,
                 ct_last_di2 := in_knife_in i,
                 ct_last_di3 := in_bale_open i,
                 ct_full_db := snd (db_update (ct_full_db c0) (in_bale_full i)),
                 ct_knife_db := snd (db_update (ct_knife_db c0) (in_knife_in i)),
                 ct_open_db := snd (db_update (ct_open_db c0) (in_bale_open i))\<rparr>
      in if in_healthy i then
           c\<lparr>ct_state := on_inputs (db_level (ct_full_db c)) (db_level (ct_knife_db c)) (ct_state c)\<rparr>
         else c)"

definition ctl_count :: "inputs \<Rightarrow> control \<Rightarrow> fs \<Rightarrow> control \<times> fs" where
  "ctl_count i c f =
     (let open_level = db_level (ct_open_db c);
          (c1, f1) =
            (if in_healthy i \<and> open_level \<and> \<not> ct_last_open_level c then
               let (_, s, g) = increment_bale (ct_counters c) f in (c\<lparr>ct_counters := s\<rparr>, g)
             else (c, f))
      in (c1\<lparr>ct_last_open_level := open_level\<rparr>, f1))"

definition ctl_latch :: "inputs \<Rightarrow> control \<Rightarrow> control" where
  "ctl_latch i c =
     (if in_healthy i \<and> db_level (ct_full_db c) then
        c\<lparr>ct_full_latch_remaining := FULL_LATCH_CYCLES\<rparr>
      else if 0 < ct_full_latch_remaining c then
        c\<lparr>ct_full_latch_remaining := ct_full_latch_remaining c - 1\<rparr>
      else c)"

definition ctl_knife_active :: "control \<Rightarrow> bool" where
  "ctl_knife_active c \<longleftrightarrow> pe_is_active (ct_knives_in c) \<or> pe_is_active (ct_knives_out c)"

text \<open>The arms of the match on the action the reducer answered with.\<close>

definition ctl_action ::
  "'n net_port \<Rightarrow> 'b bus_port \<Rightarrow> bool \<Rightarrow> reject + action \<Rightarrow> control \<times> ('n, 'b) world
   \<Rightarrow> control \<times> ('n, 'b) world" where
  "ctl_action net bus knife_active r cw =
     (let (c, w) = cw in
      case r of
        Inl _ \<Rightarrow> (c, w)
      | Inr FireWrap \<Rightarrow>
          (c\<lparr>ct_wrap := snd (pe_trigger (ct_wrap c)), ct_full_latch_remaining := 0\<rparr>, w)
      | Inr FireKnife \<Rightarrow>
          if \<not> knife_active then
            (if db_level (ct_knife_db c)
             then (c\<lparr>ct_knives_in := snd (pe_trigger (ct_knives_in c))\<rparr>, w)
             else (c\<lparr>ct_knives_out := snd (pe_trigger (ct_knives_out c))\<rparr>, w))
          else (c, w)
      | Inr ActResetSession \<Rightarrow>
          let (_, s, f) = reset_session (ct_counters c) (w_fs w)
          in (c\<lparr>ct_counters := s\<rparr>, w\<lparr>w_fs := f\<rparr>)
      | Inr (ActAdjustSession delta) \<Rightarrow>
          let (_, s, f) = adjust_session (scast delta) (ct_counters c) (w_fs w)
          in (c\<lparr>ct_counters := s\<rparr>, w\<lparr>w_fs := f\<rparr>)
      | Inr ActResetTotal \<Rightarrow>
          let (_, s, f) = reset_total (ct_counters c) (w_fs w)
          in (c\<lparr>ct_counters := s\<rparr>, w\<lparr>w_fs := f\<rparr>)
      | Inr SwitchToEthernet \<Rightarrow>
          let w1 = w\<lparr>w_bus := bp_suspend bus (w_bus w)\<rparr>;
              (ip, n) = np_enter_ethernet net (w_net w1)
          in (c\<lparr>ct_last_ip := (case ip of Inr a \<Rightarrow> Some a | Inl _ \<Rightarrow> None)\<rparr>, w1\<lparr>w_net := n\<rparr>)
      | Inr SwitchToEthercat \<Rightarrow>
          let (_, n) = np_enter_ethercat net (w_net w);
              w1 = w\<lparr>w_net := n\<rparr>
          in (c\<lparr>ct_last_ip := None\<rparr>, w1\<lparr>w_bus := bp_restart bus (w_bus w1)\<rparr>))"

text \<open>One iteration of the command loop; the flag is \<open>got_manual\<close>.\<close>

definition ctl_command ::
  "'n net_port \<Rightarrow> 'b bus_port \<Rightarrow> command \<Rightarrow> bool \<times> control \<times> ('n, 'b) world
   \<Rightarrow> bool \<times> control \<times> ('n, 'b) world" where
  "ctl_command net bus cmd gcw =
     (let (got_manual, c, w) = gcw in
      case cmd of
        ManualIo wrap knives_in knives_out \<Rightarrow>
          (True, c\<lparr>ct_manual_wrap := wrap, ct_manual_knives_in := knives_in,
                   ct_manual_knives_out := knives_out\<rparr>, w)
      | _ \<Rightarrow>
          if 0 < ct_manual_io_remaining c then (got_manual, c, w)
          else
            let knife_active = ctl_knife_active c;
                any_active = (pe_is_active (ct_wrap c) \<or> knife_active);
                (r, st) = bs_handle cmd any_active (ct_state c)
            in (got_manual, ctl_action net bus knife_active r (c\<lparr>ct_state := st\<rparr>, w)))"

definition ctl_commands ::
  "'n net_port \<Rightarrow> 'b bus_port \<Rightarrow> command list \<Rightarrow> control \<times> ('n, 'b) world
   \<Rightarrow> bool \<times> control \<times> ('n, 'b) world" where
  "ctl_commands net bus cmds cw = fold (ctl_command net bus) cmds (False, cw)"

definition ctl_watchdog :: "bool \<Rightarrow> control \<Rightarrow> control" where
  "ctl_watchdog got_manual c =
     (if got_manual then c\<lparr>ct_manual_io_remaining := MANUAL_IO_WATCHDOG\<rparr>
      else if 0 < ct_manual_io_remaining c then
        c\<lparr>ct_manual_io_remaining := ct_manual_io_remaining c - 1\<rparr>
      else c)"

definition ctl_outputs :: "inputs \<Rightarrow> control \<Rightarrow> outputs \<times> control" where
  "ctl_outputs i c =
     (if 0 < ct_manual_io_remaining c then
        let knives_in = (in_healthy i \<and> ct_manual_knives_in c)
        in (\<lparr>out_wrap = (in_healthy i \<and> ct_manual_wrap c),
             out_knives_in = knives_in,
             out_knives_out = (in_healthy i \<and> ct_manual_knives_out c \<and> \<not> knives_in)\<rparr>, c)
      else
        let c1 = c\<lparr>ct_wrap := snd (pe_tick SCAN (in_healthy i) (ct_wrap c)),
                   ct_knives_in := snd (pe_tick SCAN (in_healthy i) (ct_knives_in c)),
                   ct_knives_out := snd (pe_tick SCAN (in_healthy i) (ct_knives_out c))\<rparr>
        in (\<lparr>out_wrap = pe_output (ct_wrap c1),
             out_knives_in = pe_output (ct_knives_in c1),
             out_knives_out = pe_output (ct_knives_out c1)\<rparr>, c1))"

definition knife_pos_of :: "bool option \<Rightarrow> knife_pos" where
  "knife_pos_of k = (case k of None \<Rightarrow> KUnknown | Some True \<Rightarrow> KIn | Some False \<Rightarrow> KOut)"

definition ctl_snapshot :: "control \<Rightarrow> state_snapshot" where
  "ctl_snapshot c =
     (let counts = cs_snapshot (ct_counters c) in
      \<lparr>ss_mode = bs_mode (ct_state c),
       ss_bale_full = bs_bale_full (ct_state c),
       ss_knife = knife_pos_of (bs_knife_in (ct_state c)),
       ss_wrap_armed = bs_wrap_armed (ct_state c),
       ss_full_latched = (0 < ct_full_latch_remaining c),
       ss_wrap_active = pe_is_active (ct_wrap c),
       ss_knife_active = (pe_is_active (ct_knives_in c) \<or> pe_is_active (ct_knives_out c)),
       ss_session = cn_session counts,
       ss_total = cn_total counts,
       ss_di1 = ct_last_di1 c,
       ss_di2 = ct_last_di2 c,
       ss_di3 = ct_last_di3 c,
       ss_ip = (case ct_last_ip c of None \<Rightarrow> (0, 0, 0, 0) | Some ip \<Rightarrow> ip),
       ss_ip_valid = (ct_last_ip c \<noteq> None)\<rparr>)"

definition ctl_idle_snapshot :: "mode \<Rightarrow> control \<Rightarrow> state_snapshot" where
  "ctl_idle_snapshot m c =
     (let counts = cs_snapshot (ct_counters c) in
      \<lparr>ss_mode = m, ss_bale_full = False, ss_knife = KUnknown, ss_wrap_armed = False,
       ss_full_latched = False, ss_wrap_active = False, ss_knife_active = False,
       ss_session = cn_session counts, ss_total = cn_total counts,
       ss_di1 = False, ss_di2 = False, ss_di3 = False,
       ss_ip = (0, 0, 0, 0), ss_ip_valid = False\<rparr>)"

text \<open>\<open>Control::step\<close>.\<close>

definition ctl_step ::
  "'n net_port \<Rightarrow> 'b bus_port \<Rightarrow> control \<times> ('n, 'b) world \<Rightarrow> inputs \<times> command list
   \<Rightarrow> (outputs \<times> state_snapshot) \<times> control \<times> ('n, 'b) world" where
  "ctl_step net bus cw ic =
     (let (c0, w0) = cw; (i, cmds) = ic;
          c1 = ctl_inputs i c0;
          (c2, f) = ctl_count i c1 (w_fs w0);
          c3 = ctl_latch i c2;
          (got_manual, c4, w4) = ctl_commands net bus cmds (c3, w0\<lparr>w_fs := f\<rparr>);
          c5 = ctl_watchdog got_manual c4;
          (outs, c6) = ctl_outputs i c5
      in ((outs, ctl_snapshot c6), c6, w4))"

end
