(* ===== verification/ControlInv.thy ===== *)
theory ControlInv
  imports Control
begin

text \<open>
  The invariant of the control cycle: well-formed parts, thresholds and durations as built, the
  two knife pulses exclusive, the countdowns within their bounds, a static IP only in
  maintenance mode. Every block of the cycle keeps it, so every cycle does, and every output of
  every run is safe. Frame facts say which block writes which field.
\<close>

subsection \<open>Invariant\<close>

definition ctl_inv :: "control \<Rightarrow> bool" where
  "ctl_inv c \<longleftrightarrow>
     bs_wf (ct_state c)
     \<and> pe_wf (ct_wrap c) \<and> pe_wf (ct_knives_in c) \<and> pe_wf (ct_knives_out c)
     \<and> pe_duration (ct_wrap c) = PULSE \<and> pe_duration (ct_knives_in c) = PULSE
     \<and> pe_duration (ct_knives_out c) = PULSE
     \<and> db_wf (ct_full_db c) \<and> db_wf (ct_knife_db c) \<and> db_wf (ct_open_db c)
     \<and> pe.excl (ct_knives_in c) (ct_knives_out c)
     \<and> ct_full_latch_remaining c \<le> FULL_LATCH_CYCLES
     \<and> ct_manual_io_remaining c \<le> MANUAL_IO_WATCHDOG
     \<and> (ct_last_ip c \<noteq> None \<longrightarrow> bs_mode (ct_state c) = Ethernet)"

lemma dur_valid_SCAN [simp]: "dur_valid SCAN"
  and dur_valid_PULSE [simp]: "dur_valid PULSE"
  by (simp_all add: SCAN_def PULSE_def)

lemma ctl_inv_init: "ctl_inv (ctl_init s)"
  by (simp add: ctl_inv_def ctl_init_def bs_wf_new pe_wf_new db_wf_new pe.excl_def)

lemma ctl_inv_inputs [inv_intros]: "ctl_inv c \<Longrightarrow> ctl_inv (ctl_inputs i c)"
  by (auto simp: ctl_inv_def ctl_inputs_def Let_def on_bus_health_mode
      intro!: bs_wf_inputs bs_wf_health db_wf_update)

lemma ctl_inv_count [inv_intros]: "ctl_inv c \<Longrightarrow> ctl_inv (fst (ctl_count i c f))"
  by (auto simp: ctl_inv_def ctl_count_def Let_def split: prod.split)

lemma dec_le: "0 < x \<Longrightarrow> x \<le> b \<Longrightarrow> x - 1 \<le> b" for x b :: "'a::len word"
  using unat_pred [of x] by (simp add: word_le_nat_alt)

lemma ctl_inv_latch [inv_intros]: "ctl_inv c \<Longrightarrow> ctl_inv (ctl_latch i c)"
  by (auto simp: ctl_inv_def ctl_latch_def dec_le)

lemma ctl_inv_watchdog [inv_intros]: "ctl_inv c \<Longrightarrow> ctl_inv (ctl_watchdog g c)"
  by (auto simp: ctl_inv_def ctl_watchdog_def dec_le)

lemma ctl_inv_outputs [inv_intros]: "ctl_inv c \<Longrightarrow> ctl_inv (snd (ctl_outputs i c))"
  by (auto simp: ctl_inv_def ctl_outputs_def Let_def pe_wf_tick pe.excl_tick)

text \<open>Fields the invariant does not read.\<close>

lemma ctl_inv_counters [simp]: "ctl_inv (c\<lparr>ct_counters := s\<rparr>) = ctl_inv c"
  and ctl_inv_manual_bits [simp]:
    "ctl_inv (c\<lparr>ct_manual_wrap := a, ct_manual_knives_in := b, ct_manual_knives_out := d\<rparr>)
       = ctl_inv c"
  by (simp_all add: ctl_inv_def)

subsection \<open>One command at a time\<close>

text \<open>The iteration for each command: ignored in manual-IO mode, else the action's effect.\<close>

lemma ctl_command_manual [simp]:
  "ctl_command net bus (ManualIo a b d) (g, c, w) =
    (True, c\<lparr>ct_manual_wrap := a, ct_manual_knives_in := b, ct_manual_knives_out := d\<rparr>, w)"
  by (simp add: ctl_command_def)

lemma ctl_command_ignored:
  "0 < ct_manual_io_remaining c \<Longrightarrow> \<not> is_manual_io cmd \<Longrightarrow>
     ctl_command net bus cmd (g, c, w) = (g, c, w)"
  by (cases cmd) (simp_all add: ctl_command_def)

definition ctl_any_active :: "control \<Rightarrow> bool" where
  "ctl_any_active c \<longleftrightarrow> pe_active (ct_wrap c) \<or> pe_active (ct_knives_in c) \<or> pe_active (ct_knives_out c)"

lemma ctl_command_normal:
  assumes "ct_manual_io_remaining c = 0" "\<not> is_manual_io cmd"
  shows "ctl_command net bus cmd (g, c, w) =
    (g, ctl_action net bus (ctl_knife_active c) (fst (bs_handle cmd (ctl_any_active c) (ct_state c)))
          (c\<lparr>ct_state := snd (bs_handle cmd (ctl_any_active c) (ct_state c))\<rparr>, w))"
  using assms
  by (cases cmd)
    (simp_all add: ctl_command_def ctl_any_active_def ctl_knife_active_def pe_is_active_def
      Let_def split_beta del: bs_handle.simps)

lemma ctl_inv_action:
  assumes inv: "ctl_inv c"
    and r: "r = fst (bs_handle cmd (ctl_any_active c) (ct_state c))"
    and st: "st = snd (bs_handle cmd (ctl_any_active c) (ct_state c))"
  shows "ctl_inv (fst (ctl_action net bus (ctl_knife_active c) r (c\<lparr>ct_state := st\<rparr>, w)))"
proof -
  have wf: "bs_wf st" using inv by (simp add: st ctl_inv_def bs_wf_handle)
  have eth: "r = Inr SwitchToEthernet \<Longrightarrow> bs_mode st = Ethernet"
    unfolding r st by (auto simp: bs_handle_mode bs_handle_accepts simp del: bs_handle.simps)
  have mode: "r \<noteq> Inr SwitchToEthernet \<Longrightarrow> r \<noteq> Inr SwitchToEthercat \<Longrightarrow>
      bs_mode st = bs_mode (ct_state c)"
    unfolding r st by (auto simp: bs_handle_mode bs_handle_accepts simp del: bs_handle.simps)
  show ?thesis
  proof (cases r)
    case (Inl e)
    then show ?thesis using inv wf mode by (auto simp: ctl_action_def ctl_inv_def)
  next
    case (Inr a)
    show ?thesis
    proof (cases a)
      case FireWrap
      then show ?thesis
        using inv wf mode Inr by (auto simp: ctl_action_def ctl_inv_def pe_wf_trigger)
    next
      case FireKnife
      then show ?thesis
        using inv wf mode Inr pe.excl_fire_left pe.excl_fire_right
        by (auto simp: ctl_action_def ctl_inv_def pe_wf_trigger ctl_knife_active_def
            pe_is_active_def)
    next
      case SwitchToEthernet
      then show ?thesis
        using inv wf eth Inr by (auto simp: ctl_action_def ctl_inv_def Let_def split_beta)
    next
      case SwitchToEthercat
      then show ?thesis
        using inv wf mode Inr by (auto simp: ctl_action_def ctl_inv_def Let_def split_beta)
    qed (use inv wf mode Inr in \<open>auto simp: ctl_action_def Let_def split_beta ctl_inv_def\<close>)
  qed
qed

lemma ctl_inv_command [inv_intros]:
  assumes "ctl_inv c"
  shows "ctl_inv (fst (snd (ctl_command net bus cmd (g, c, w))))"
proof (cases "is_manual_io cmd")
  case True
  then show ?thesis using assms by (cases cmd) simp_all
next
  case False
  show ?thesis
  proof (cases "ct_manual_io_remaining c = 0")
    case True
    then show ?thesis using False assms by (simp add: ctl_command_normal ctl_inv_action)
  next
    case nz: False
    then have "0 < ct_manual_io_remaining c" by (simp add: word_gt_0)
    then show ?thesis using False assms by (simp add: ctl_command_ignored)
  qed
qed

lemma ctl_inv_commands [inv_intros]:
  assumes "ctl_inv (fst cw)"
  shows "ctl_inv (fst (snd (ctl_commands net bus cmds cw)))"
  unfolding ctl_commands_def
proof (rule fold_invariant_set [where P = "\<lambda>s. ctl_inv (fst (snd s))"])
  show "ctl_inv (fst (snd (False, cw)))" using assms by simp
  show "ctl_inv (fst (snd (ctl_command net bus x t)))" if "ctl_inv (fst (snd t))" for x t
    using ctl_inv_command [OF that, of net bus x "fst t" "snd (snd t)"] by simp
qed

subsection \<open>The cycle as its blocks\<close>

definition ctl_pre :: "inputs \<Rightarrow> control \<times> ('n, 'b) world \<Rightarrow> control \<times> ('n, 'b) world" where
  "ctl_pre i cw =
     (let (c2, f) = ctl_count i (ctl_inputs i (fst cw)) (w_fs (snd cw))
      in (ctl_latch i c2, (snd cw)\<lparr>w_fs := f\<rparr>))"

lemma ctl_step_blocks:
  "ctl_step net bus cw (i, cmds) =
    (let (g, c4, w4) = ctl_commands net bus cmds (ctl_pre i cw);
         (outs, c6) = ctl_outputs i (ctl_watchdog g c4)
     in ((outs, ctl_snapshot c6), c6, w4))"
  by (simp add: ctl_step_def ctl_pre_def Let_def split_beta)

lemma ctl_inv_pre: "ctl_inv (fst cw) \<Longrightarrow> ctl_inv (fst (ctl_pre i cw))"
  by (simp add: ctl_pre_def Let_def split_beta ctl_inv_latch ctl_inv_count ctl_inv_inputs)

lemma ctl_inv_step: "ctl_inv (fst cw) \<Longrightarrow> ctl_inv (fst (snd (ctl_step net bus cw ic)))"
  by (cases ic)
    (simp add: ctl_step_blocks Let_def split_beta ctl_inv_outputs ctl_inv_watchdog
      ctl_inv_commands ctl_inv_pre)

subsection \<open>Every output is safe\<close>

text \<open>
  The electrical contract of one cycle: the opposing knife outputs are never both high, and
  nothing is energized into a bus that is not healthy.
\<close>

definition safe_outputs :: "inputs \<times> command list \<Rightarrow> outputs \<times> state_snapshot \<Rightarrow> bool" where
  "safe_outputs ic os \<longleftrightarrow>
     \<not> (out_knives_in (fst os) \<and> out_knives_out (fst os))
     \<and> (\<not> in_healthy (fst ic) \<longrightarrow>
           \<not> out_wrap (fst os) \<and> \<not> out_knives_in (fst os) \<and> \<not> out_knives_out (fst os))
     \<and> (ss_ip_valid (snd os) \<longrightarrow> ss_mode (snd os) = Ethernet)"

lemma ctl_outputs_safe:
  assumes "ctl_inv c"
  shows "\<not> (out_knives_in (fst (ctl_outputs i c)) \<and> out_knives_out (fst (ctl_outputs i c)))"
    and "\<not> in_healthy i \<Longrightarrow> \<not> out_wrap (fst (ctl_outputs i c)) \<and>
      \<not> out_knives_in (fst (ctl_outputs i c)) \<and> \<not> out_knives_out (fst (ctl_outputs i c))"
proof -
  have "pe.excl (snd (pe_tick SCAN (in_healthy i) (ct_knives_in c)))
      (snd (pe_tick SCAN (in_healthy i) (ct_knives_out c)))"
    using assms by (simp add: ctl_inv_def pe.excl_tick)
  then show "\<not> (out_knives_in (fst (ctl_outputs i c)) \<and> out_knives_out (fst (ctl_outputs i c)))"
    by (auto simp: ctl_outputs_def Let_def pe_output_def pe.excl_def)
  show "\<not> in_healthy i \<Longrightarrow> \<not> out_wrap (fst (ctl_outputs i c)) \<and>
      \<not> out_knives_in (fst (ctl_outputs i c)) \<and> \<not> out_knives_out (fst (ctl_outputs i c))"
    by (simp add: ctl_outputs_def Let_def pe_output_def)
qed

lemma ctl_step_safe:
  assumes "ctl_inv (fst cw)"
  shows "safe_outputs ic (fst (ctl_step net bus cw ic))"
proof -
  obtain i cmds where ic: "ic = (i, cmds)" by fastforce
  define c5 where "c5 = (let (g, c4, w4) = ctl_commands net bus cmds (ctl_pre i cw)
      in ctl_watchdog g c4)"
  have e: "fst (ctl_step net bus cw ic) =
      (fst (ctl_outputs i c5), ctl_snapshot (snd (ctl_outputs i c5)))"
    by (simp add: ic ctl_step_blocks c5_def Let_def split_beta)
  have inv: "ctl_inv c5"
    by (simp add: c5_def Let_def split_beta ctl_inv_watchdog ctl_inv_commands ctl_inv_pre assms)
  have "ctl_inv (snd (ctl_outputs i c5))" by (rule ctl_inv_outputs [OF inv])
  then show ?thesis
    unfolding safe_outputs_def e
    using ctl_outputs_safe [OF inv, of i] by (auto simp: ic ctl_snapshot_def Let_def ctl_inv_def)
qed

interpretation ctl: safe_machine "ctl_step net bus" "\<lambda>cw. ctl_inv (fst cw)" safe_outputs
  for net :: "'n net_port" and bus :: "'b bus_port"
  by unfold_locales (rule ctl_inv_step, assumption, rule ctl_step_safe, assumption)

subsection \<open>What a command writes\<close>

lemma ctl_action_frame [simp]:
  "ct_manual_io_remaining (fst (ctl_action net bus k r (c, w))) = ct_manual_io_remaining c"
  "ct_manual_wrap (fst (ctl_action net bus k r (c, w))) = ct_manual_wrap c"
  "ct_manual_knives_in (fst (ctl_action net bus k r (c, w))) = ct_manual_knives_in c"
  "ct_manual_knives_out (fst (ctl_action net bus k r (c, w))) = ct_manual_knives_out c"
  "ct_full_db (fst (ctl_action net bus k r (c, w))) = ct_full_db c"
  "ct_knife_db (fst (ctl_action net bus k r (c, w))) = ct_knife_db c"
  "ct_open_db (fst (ctl_action net bus k r (c, w))) = ct_open_db c"
  "ct_last_open_level (fst (ctl_action net bus k r (c, w))) = ct_last_open_level c"
  "ct_state (fst (ctl_action net bus k r (c, w))) = ct_state c"
  by (cases r; simp add: ctl_action_def;
      simp add: Let_def split_beta split: action.split)+

text \<open>Only its own action moves each of the other fields.\<close>

lemma ctl_action_wrap:
  "ct_wrap (fst (ctl_action net bus k r (c, w))) =
    (if r = Inr FireWrap then snd (pe_trigger (ct_wrap c)) else ct_wrap c)"
  "ct_full_latch_remaining (fst (ctl_action net bus k r (c, w))) =
    (if r = Inr FireWrap then 0 else ct_full_latch_remaining c)"
  by (cases r; simp add: ctl_action_def;
      simp add: Let_def split_beta split: action.split)+

lemma ctl_action_knives:
  "r \<noteq> Inr FireKnife \<Longrightarrow> ct_knives_in (fst (ctl_action net bus k r (c, w))) = ct_knives_in c"
  "r \<noteq> Inr FireKnife \<Longrightarrow> ct_knives_out (fst (ctl_action net bus k r (c, w))) = ct_knives_out c"
  by (cases r; simp add: ctl_action_def;
      simp add: Let_def split_beta split: action.split)+

lemma ctl_action_ports:
  "r \<noteq> Inr SwitchToEthernet \<Longrightarrow> r \<noteq> Inr SwitchToEthercat \<Longrightarrow>
     w_bus (snd (ctl_action net bus k r (c, w))) = w_bus w
     \<and> w_net (snd (ctl_action net bus k r (c, w))) = w_net w"
  by (cases r; simp add: ctl_action_def;
      simp add: Let_def split_beta split: action.split)

lemma ctl_action_total:
  "cn_total (cs_counters (ct_counters (fst (ctl_action net bus k r (c, w))))) =
    (if r = Inr ActResetTotal then 0 else cn_total (cs_counters (ct_counters c)))"
  by (cases r; simp add: ctl_action_def;
      simp add: Let_def split_beta cs_ops_defs cs_update_def split: action.split)

text \<open>A field of the control state read by \<open>f\<close> that a command keeps, the loop keeps.\<close>

lemma ctl_commands_keep:
  fixes net :: "'n net_port" and bus :: "'b bus_port" and cw :: "control \<times> ('n, 'b) world"
  assumes "\<And>cmd g c w. cmd \<in> set cmds \<Longrightarrow> Q c \<Longrightarrow>
      Q (fst (snd (ctl_command net bus cmd (g, c, w)))) \<and>
      f (fst (snd (ctl_command net bus cmd (g, c, w)))) (snd (snd (ctl_command net bus cmd (g, c, w))))
        = f c w"
    and "Q (fst cw)"
  shows "Q (fst (snd (ctl_commands net bus cmds cw)))
    \<and> f (fst (snd (ctl_commands net bus cmds cw))) (snd (snd (ctl_commands net bus cmds cw)))
        = f (fst cw) (snd cw)"
  unfolding ctl_commands_def
proof (rule fold_invariant_set [where
      P = "\<lambda>s. Q (fst (snd s)) \<and> f (fst (snd s)) (snd (snd s)) = f (fst cw) (snd cw)"])
  show "Q (fst (snd (False, cw))) \<and> f (fst (snd (False, cw))) (snd (snd (False, cw))) = f (fst cw) (snd cw)"
    using assms(2) by simp
next
  fix x and t :: "bool \<times> control \<times> ('n, 'b) world"
  assume "x \<in> set cmds"
    and "Q (fst (snd t)) \<and> f (fst (snd t)) (snd (snd t)) = f (fst cw) (snd cw)"
  then show "Q (fst (snd (ctl_command net bus x t)))
      \<and> f (fst (snd (ctl_command net bus x t))) (snd (snd (ctl_command net bus x t)))
          = f (fst cw) (snd cw)"
    using assms(1) [of x "fst (snd t)" "fst t" "snd (snd t)"] by simp
qed

text \<open>The three ways one iteration can go.\<close>

lemma ctl_command_cases:
  obtains (manual) a b d where "cmd = ManualIo a b d"
      "ctl_command net bus cmd (g, c, w) =
        (True, c\<lparr>ct_manual_wrap := a, ct_manual_knives_in := b, ct_manual_knives_out := d\<rparr>, w)"
  | (ignored) "\<not> is_manual_io cmd" "0 < ct_manual_io_remaining c"
      "ctl_command net bus cmd (g, c, w) = (g, c, w)"
  | (handled) r st where "\<not> is_manual_io cmd" "ct_manual_io_remaining c = 0"
      "bs_handle cmd (ctl_any_active c) (ct_state c) = (r, st)"
      "ctl_command net bus cmd (g, c, w) =
        (g, ctl_action net bus (ctl_knife_active c) r (c\<lparr>ct_state := st\<rparr>, w))"
proof (cases "is_manual_io cmd")
  case True
  then show thesis using manual by (cases cmd) auto
next
  case False
  show thesis
  proof (cases "ct_manual_io_remaining c = 0")
    case True
    obtain r st where h: "bs_handle cmd (ctl_any_active c) (ct_state c) = (r, st)" by fastforce
    show thesis
      by (rule handled [OF False True h]) (simp add: ctl_command_normal [OF True False] h)
  next
    case nz: False
    then have "0 < ct_manual_io_remaining c" by (simp add: word_gt_0)
    then show thesis using ignored False ctl_command_ignored by blast
  qed
qed

lemma ctl_command_frame [simp]:
  "ct_manual_io_remaining (fst (snd (ctl_command net bus cmd (g, c, w)))) = ct_manual_io_remaining c"
  "ct_full_db (fst (snd (ctl_command net bus cmd (g, c, w)))) = ct_full_db c"
  "ct_knife_db (fst (snd (ctl_command net bus cmd (g, c, w)))) = ct_knife_db c"
  "ct_open_db (fst (snd (ctl_command net bus cmd (g, c, w)))) = ct_open_db c"
  "ct_last_open_level (fst (snd (ctl_command net bus cmd (g, c, w)))) = ct_last_open_level c"
  by (rule ctl_command_cases [of cmd net bus g c w]; simp)+

lemma ctl_commands_frame [simp]:
  "ct_manual_io_remaining (fst (snd (ctl_commands net bus cmds cw))) = ct_manual_io_remaining (fst cw)"
  "ct_full_db (fst (snd (ctl_commands net bus cmds cw))) = ct_full_db (fst cw)"
  "ct_knife_db (fst (snd (ctl_commands net bus cmds cw))) = ct_knife_db (fst cw)"
  "ct_open_db (fst (snd (ctl_commands net bus cmds cw))) = ct_open_db (fst cw)"
  "ct_last_open_level (fst (snd (ctl_commands net bus cmds cw))) = ct_last_open_level (fst cw)"
  using ctl_commands_keep [where Q = "\<lambda>_. True" and cmds = cmds and net = net and bus = bus and cw = cw
      and f = "\<lambda>c w. (ct_manual_io_remaining c, ct_full_db c, ct_knife_db c, ct_open_db c,
        ct_last_open_level c)"]
  by simp_all

lemma ctl_commands_got:
  "fst (ctl_commands net bus cmds cw) \<longleftrightarrow> (\<exists>cmd\<in>set cmds. is_manual_io cmd)"
proof -
  have step: "fst (ctl_command net bus cmd s) \<longleftrightarrow> fst s \<or> is_manual_io cmd" for cmd s
  proof -
    obtain g c w where s: "s = (g, c, w)" by (metis prod_cases3)
    show ?thesis unfolding s by (rule ctl_command_cases [of cmd net bus g c w]) auto
  qed
  have "fst (fold (ctl_command net bus) cmds s) \<longleftrightarrow> fst s \<or> (\<exists>cmd\<in>set cmds. is_manual_io cmd)" for s
    by (induction cmds arbitrary: s) (auto simp: step)
  then show ?thesis by (simp add: ctl_commands_def)
qed

text \<open>Leaving the \<open>Wrap\<close> command out leaves the wrap pulse and the latch alone, and so on.\<close>

lemma ctl_commands_no_wrap:
  assumes "Wrap \<notin> set cmds"
  shows "ct_wrap (fst (snd (ctl_commands net bus cmds cw))) = ct_wrap (fst cw)"
    and "ct_full_latch_remaining (fst (snd (ctl_commands net bus cmds cw)))
      = ct_full_latch_remaining (fst cw)"
proof -
  have "ct_wrap (fst (snd (ctl_command net bus cmd (g, c, w)))) = ct_wrap c
    \<and> ct_full_latch_remaining (fst (snd (ctl_command net bus cmd (g, c, w))))
      = ct_full_latch_remaining c" if "cmd \<in> set cmds" for cmd g c w
  proof (rule ctl_command_cases [of cmd net bus g c w])
    fix r st
    assume h: "bs_handle cmd (ctl_any_active c) (ct_state c) = (r, st)"
      and e: "ctl_command net bus cmd (g, c, w) =
        (g, ctl_action net bus (ctl_knife_active c) r (c\<lparr>ct_state := st\<rparr>, w))"
    have "r \<noteq> Inr FireWrap"
      using bs_handle_accepts(1) [of cmd "ctl_any_active c" "ct_state c"] that assms h by auto
    then show ?thesis by (simp add: e ctl_action_wrap)
  qed simp_all
  then show "ct_wrap (fst (snd (ctl_commands net bus cmds cw))) = ct_wrap (fst cw)"
    and "ct_full_latch_remaining (fst (snd (ctl_commands net bus cmds cw)))
      = ct_full_latch_remaining (fst cw)"
    using ctl_commands_keep [where Q = "\<lambda>_. True" and cmds = cmds and net = net and bus = bus
        and cw = cw and f = "\<lambda>c w. (ct_wrap c, ct_full_latch_remaining c)"]
    by simp_all
qed

lemma ctl_commands_no_knife:
  assumes "ToggleKnife \<notin> set cmds"
  shows "ct_knives_in (fst (snd (ctl_commands net bus cmds cw))) = ct_knives_in (fst cw)"
    and "ct_knives_out (fst (snd (ctl_commands net bus cmds cw))) = ct_knives_out (fst cw)"
proof -
  have "ct_knives_in (fst (snd (ctl_command net bus cmd (g, c, w)))) = ct_knives_in c
    \<and> ct_knives_out (fst (snd (ctl_command net bus cmd (g, c, w)))) = ct_knives_out c"
    if "cmd \<in> set cmds" for cmd g c w
  proof (rule ctl_command_cases [of cmd net bus g c w])
    fix r st
    assume h: "bs_handle cmd (ctl_any_active c) (ct_state c) = (r, st)"
      and e: "ctl_command net bus cmd (g, c, w) =
        (g, ctl_action net bus (ctl_knife_active c) r (c\<lparr>ct_state := st\<rparr>, w))"
    have "r \<noteq> Inr FireKnife"
      using bs_handle_accepts(2) [of cmd "ctl_any_active c" "ct_state c"] that assms h by auto
    then show ?thesis by (simp add: e ctl_action_knives)
  qed simp_all
  then show "ct_knives_in (fst (snd (ctl_commands net bus cmds cw))) = ct_knives_in (fst cw)"
    and "ct_knives_out (fst (snd (ctl_commands net bus cmds cw))) = ct_knives_out (fst cw)"
    using ctl_commands_keep [where Q = "\<lambda>_. True" and cmds = cmds and net = net and bus = bus
        and cw = cw and f = "\<lambda>c w. (ct_knives_in c, ct_knives_out c)"]
    by simp_all
qed

end
