(* ===== verification/ControlCycle.thy ===== *)
theory ControlCycle
  imports ControlInv
begin

text \<open>
  One control cycle in closed form: what the cycle does to the outputs, the countdowns, the
  debouncers and the pulses, in normal control and in manual-IO mode, as equations the
  properties of the runs are derived from.
\<close>

subsection \<open>One cycle in closed form\<close>

text \<open>The control state and the world after the command loop of the cycle.\<close>

definition ctl_body ::
  "'n net_port \<Rightarrow> 'b bus_port \<Rightarrow> control \<times> ('n, 'b) world \<Rightarrow> inputs \<times> command list
   \<Rightarrow> control \<times> ('n, 'b) world" where
  "ctl_body net bus cw ic = snd (ctl_commands net bus (snd ic) (ctl_pre (fst ic) cw))"

text \<open>The manual-IO countdown after the cycle.\<close>

definition ctl_remaining :: "command list \<Rightarrow> u32 \<Rightarrow> u32" where
  "ctl_remaining cmds r =
     (if \<exists>cmd\<in>set cmds. is_manual_io cmd then MANUAL_IO_WATCHDOG
      else if 0 < r then r - 1 else 0)"

lemma ctl_pre_frame [simp]:
  "ct_manual_io_remaining (fst (ctl_pre i cw)) = ct_manual_io_remaining (fst cw)"
  "ct_wrap (fst (ctl_pre i cw)) = ct_wrap (fst cw)"
  "ct_knives_in (fst (ctl_pre i cw)) = ct_knives_in (fst cw)"
  "ct_knives_out (fst (ctl_pre i cw)) = ct_knives_out (fst cw)"
  "ct_manual_wrap (fst (ctl_pre i cw)) = ct_manual_wrap (fst cw)"
  "ct_manual_knives_in (fst (ctl_pre i cw)) = ct_manual_knives_in (fst cw)"
  "ct_manual_knives_out (fst (ctl_pre i cw)) = ct_manual_knives_out (fst cw)"
  "ct_last_ip (fst (ctl_pre i cw)) = ct_last_ip (fst cw)"
  "w_net (snd (ctl_pre i cw)) = w_net (snd cw)"
  "w_bus (snd (ctl_pre i cw)) = w_bus (snd cw)"
  by (simp_all add: ctl_pre_def ctl_inputs_def ctl_count_def ctl_latch_def Let_def split_beta)

lemma ctl_pre_levels [simp]:
  "ct_full_db (fst (ctl_pre i cw)) = snd (db_update (ct_full_db (fst cw)) (in_bale_full i))"
  "ct_knife_db (fst (ctl_pre i cw)) = snd (db_update (ct_knife_db (fst cw)) (in_knife_in i))"
  "ct_open_db (fst (ctl_pre i cw)) = snd (db_update (ct_open_db (fst cw)) (in_bale_open i))"
  "ct_last_open_level (fst (ctl_pre i cw)) =
     db_level (snd (db_update (ct_open_db (fst cw)) (in_bale_open i)))"
  by (simp_all add: ctl_pre_def ctl_inputs_def ctl_count_def ctl_latch_def Let_def split_beta)

lemma ctl_pre_mode [simp]:
  "bs_mode (ct_state (fst (ctl_pre i cw))) =
     bs_mode (on_bus_health (in_healthy i) (ct_state (fst cw)))"
  by (simp add: ctl_pre_def ctl_inputs_def ctl_count_def ctl_latch_def Let_def split_beta)

lemma ctl_pre_latch:
  "ct_full_latch_remaining (fst (ctl_pre i cw)) =
    (if in_healthy i \<and> db_level (snd (db_update (ct_full_db (fst cw)) (in_bale_full i)))
     then FULL_LATCH_CYCLES
     else if 0 < ct_full_latch_remaining (fst cw) then ct_full_latch_remaining (fst cw) - 1
     else ct_full_latch_remaining (fst cw))"
  by (simp add: ctl_pre_def ctl_inputs_def ctl_count_def ctl_latch_def Let_def split_beta)

lemma ctl_watchdog_remaining:
  "ct_manual_io_remaining (ctl_watchdog (\<exists>cmd\<in>set cmds. is_manual_io cmd) c) =
     ctl_remaining cmds (ct_manual_io_remaining c)"
  by (auto simp: ctl_watchdog_def ctl_remaining_def word_gt_0)

lemma ctl_watchdog_frame [simp]:
  "ct_wrap (ctl_watchdog g c) = ct_wrap c"
  "ct_knives_in (ctl_watchdog g c) = ct_knives_in c"
  "ct_knives_out (ctl_watchdog g c) = ct_knives_out c"
  "ct_manual_wrap (ctl_watchdog g c) = ct_manual_wrap c"
  "ct_manual_knives_in (ctl_watchdog g c) = ct_manual_knives_in c"
  "ct_manual_knives_out (ctl_watchdog g c) = ct_manual_knives_out c"
  "ct_full_latch_remaining (ctl_watchdog g c) = ct_full_latch_remaining c"
  "ct_full_db (ctl_watchdog g c) = ct_full_db c"
  "ct_knife_db (ctl_watchdog g c) = ct_knife_db c"
  "ct_open_db (ctl_watchdog g c) = ct_open_db c"
  "ct_last_open_level (ctl_watchdog g c) = ct_last_open_level c"
  "ct_counters (ctl_watchdog g c) = ct_counters c"
  "ct_state (ctl_watchdog g c) = ct_state c"
  "ct_last_ip (ctl_watchdog g c) = ct_last_ip c"
  by (simp_all add: ctl_watchdog_def)

lemma ctl_outputs_frame [simp]:
  "ct_manual_io_remaining (snd (ctl_outputs i c)) = ct_manual_io_remaining c"
  "ct_full_latch_remaining (snd (ctl_outputs i c)) = ct_full_latch_remaining c"
  "ct_full_db (snd (ctl_outputs i c)) = ct_full_db c"
  "ct_knife_db (snd (ctl_outputs i c)) = ct_knife_db c"
  "ct_open_db (snd (ctl_outputs i c)) = ct_open_db c"
  "ct_last_open_level (snd (ctl_outputs i c)) = ct_last_open_level c"
  "ct_counters (snd (ctl_outputs i c)) = ct_counters c"
  "ct_state (snd (ctl_outputs i c)) = ct_state c"
  "ct_last_ip (snd (ctl_outputs i c)) = ct_last_ip c"
  by (simp_all add: ctl_outputs_def Let_def)

lemma ctl_step_eq:
  "ctl_step net bus cw ic =
    (let b = ctl_body net bus cw ic;
         c5 = ctl_watchdog (\<exists>cmd\<in>set (snd ic). is_manual_io cmd) (fst b);
         (outs, c6) = ctl_outputs (fst ic) c5
     in ((outs, ctl_snapshot c6), c6, snd b))"
  by (cases ic)
    (simp add: ctl_step_blocks ctl_body_def Let_def split_beta ctl_commands_got)

lemma ctl_body_frame [simp]:
  "ct_manual_io_remaining (fst (ctl_body net bus cw ic)) = ct_manual_io_remaining (fst cw)"
  "ct_full_db (fst (ctl_body net bus cw ic)) =
     snd (db_update (ct_full_db (fst cw)) (in_bale_full (fst ic)))"
  "ct_knife_db (fst (ctl_body net bus cw ic)) =
     snd (db_update (ct_knife_db (fst cw)) (in_knife_in (fst ic)))"
  "ct_open_db (fst (ctl_body net bus cw ic)) =
     snd (db_update (ct_open_db (fst cw)) (in_bale_open (fst ic)))"
  "ct_last_open_level (fst (ctl_body net bus cw ic)) =
     db_level (snd (db_update (ct_open_db (fst cw)) (in_bale_open (fst ic))))"
  by (simp_all add: ctl_body_def)

text \<open>Every field after the cycle, from the state after the command loop.\<close>

lemma ctl_step_fields:
  "ct_manual_io_remaining (fst (snd (ctl_step net bus cw ic))) =
     ctl_remaining (snd ic) (ct_manual_io_remaining (fst cw))"
  "ct_full_latch_remaining (fst (snd (ctl_step net bus cw ic))) =
     ct_full_latch_remaining (fst (ctl_body net bus cw ic))"
  "ct_full_db (fst (snd (ctl_step net bus cw ic))) =
     snd (db_update (ct_full_db (fst cw)) (in_bale_full (fst ic)))"
  "ct_knife_db (fst (snd (ctl_step net bus cw ic))) =
     snd (db_update (ct_knife_db (fst cw)) (in_knife_in (fst ic)))"
  "ct_open_db (fst (snd (ctl_step net bus cw ic))) =
     snd (db_update (ct_open_db (fst cw)) (in_bale_open (fst ic)))"
  "ct_last_open_level (fst (snd (ctl_step net bus cw ic))) =
     db_level (snd (db_update (ct_open_db (fst cw)) (in_bale_open (fst ic))))"
  "ct_counters (fst (snd (ctl_step net bus cw ic))) = ct_counters (fst (ctl_body net bus cw ic))"
  "ct_state (fst (snd (ctl_step net bus cw ic))) = ct_state (fst (ctl_body net bus cw ic))"
  "snd (snd (ctl_step net bus cw ic)) = snd (ctl_body net bus cw ic)"
  "ct_last_ip (fst (snd (ctl_step net bus cw ic))) = ct_last_ip (fst (ctl_body net bus cw ic))"
  by (simp_all add: ctl_step_eq Let_def split_beta ctl_watchdog_remaining)

text \<open>The pulses and the outputs, in normal control and in manual-IO mode.\<close>

lemma ctl_step_normal:
  fixes net :: "'n net_port" and bus :: "'b bus_port" and cw :: "control \<times> ('n, 'b) world"
    and ic :: "inputs \<times> command list"
  assumes "ctl_remaining (snd ic) (ct_manual_io_remaining (fst cw)) = 0"
  defines "b \<equiv> fst (ctl_body net bus cw ic)" and "s \<equiv> ctl_step net bus cw ic"
    and "h \<equiv> in_healthy (fst ic)"
  shows "ct_wrap (fst (snd s)) = snd (pe_tick SCAN h (ct_wrap b))"
    and "ct_knives_in (fst (snd s)) = snd (pe_tick SCAN h (ct_knives_in b))"
    and "ct_knives_out (fst (snd s)) = snd (pe_tick SCAN h (ct_knives_out b))"
    and "out_wrap (fst (fst s)) = pe_active (ct_wrap (fst (snd s)))"
    and "out_knives_in (fst (fst s)) = pe_active (ct_knives_in (fst (snd s)))"
    and "out_knives_out (fst (fst s)) = pe_active (ct_knives_out (fst (snd s)))"
  unfolding s_def b_def h_def using assms(1)
  by (simp_all add: ctl_step_eq Let_def split_beta ctl_outputs_def ctl_watchdog_remaining
      pe_output_def)

lemma ctl_step_manual:
  fixes net :: "'n net_port" and bus :: "'b bus_port" and cw :: "control \<times> ('n, 'b) world"
    and ic :: "inputs \<times> command list"
  assumes "0 < ctl_remaining (snd ic) (ct_manual_io_remaining (fst cw))"
  defines "b \<equiv> fst (ctl_body net bus cw ic)" and "s \<equiv> ctl_step net bus cw ic"
    and "h \<equiv> in_healthy (fst ic)"
  shows "ct_wrap (fst (snd s)) = ct_wrap b"
    and "ct_knives_in (fst (snd s)) = ct_knives_in b"
    and "ct_knives_out (fst (snd s)) = ct_knives_out b"
    and "fst (fst s) = \<lparr>out_wrap = h \<and> ct_manual_wrap b,
        out_knives_in = h \<and> ct_manual_knives_in b,
        out_knives_out = h \<and> ct_manual_knives_out b \<and> \<not> (h \<and> ct_manual_knives_in b)\<rparr>"
  unfolding s_def b_def h_def using assms(1)
  by (simp_all add: ctl_step_eq Let_def split_beta ctl_outputs_def ctl_watchdog_remaining)

lemma ctl_snapshot_after:
  "snd (fst (ctl_step net bus cw ic)) = ctl_snapshot (fst (snd (ctl_step net bus cw ic)))"
  by (simp add: ctl_step_eq Let_def split_beta)

end
