(* ===== verification/ControlPulse.thy ===== *)
theory ControlPulse
  imports ControlCycle
begin

text \<open>
  The outputs of the control cycle over its runs: no pair of opposing outputs and nothing into
  a bus that is down, nothing without a command, and the exact length and direction of the
  pulses that a command starts.
\<close>

subsection \<open>A pulse ticked at the scan\<close>

definition pe_at :: "nat \<Rightarrow> pulse_engine \<Rightarrow> bool" where
  "pe_at k p \<longleftrightarrow> pe_wf p \<and> pe_duration p = PULSE \<and> pe_active p
     \<and> dur_ns (pe_elapsed p) = k * 10000000"

lemma dur_ns_SCAN [simp]: "dur_ns SCAN = 10000000"
  and dur_ns_PULSE [simp]: "dur_ns PULSE = 5000000000"
  by (simp_all add: SCAN_def PULSE_def dur_ns_from_millis dur_ns_from_secs)

lemma pe_at_trigger:
  "pe_wf p \<Longrightarrow> pe_duration p = PULSE \<Longrightarrow> \<not> pe_active p \<Longrightarrow> pe_at 0 (snd (pe_trigger p))"
  by (simp add: pe_at_def pe_wf_trigger) (simp add: pe_trigger_def)

lemma pe_at_tick:
  assumes "pe_at k p" "k < 500"
  shows "if k < 499 then pe_at (Suc k) (snd (pe_tick SCAN True p))
    else \<not> pe_active (snd (pe_tick SCAN True p))"
proof -
  let ?e = "dur_sat_add (pe_elapsed p) SCAN"
  have v: "dur_valid (pe_elapsed p)" "dur_valid PULSE" and a: "pe_active p"
    and d: "pe_duration p = PULSE" and wf: "pe_wf p"
    using assms(1) by (auto simp: pe_at_def pe_wf_def)
  have ns: "dur_ns ?e = Suc k * 10000000"
    using assms dur_ns_bound [OF v(2)]
    by (simp add: dur_ns_sat_add [OF v(1) dur_valid_SCAN] pe_at_def)
  have le: "PULSE \<le> ?e \<longleftrightarrow> 499 \<le> k"
    unfolding dur_le_iff [OF v(2) dur_valid_sat_add [OF v(1) dur_valid_SCAN]] ns by auto
  show ?thesis
    using le ns a d pe_wf_tick [OF dur_valid_SCAN wf, of True]
    by (auto simp: pe_tick_def pe_at_def)
qed

text \<open>
  A machine that owns such a pulse: while the pulse is active a cycle of the kind \<open>ok\<close> ticks it
  once, and the output shows whether it is active.
\<close>

locale pulse_driver =
  fixes step :: "'s \<Rightarrow> 'i \<Rightarrow> 'o \<times> 's"
    and sel :: "'s \<Rightarrow> pulse_engine"
    and out :: "'o \<Rightarrow> 'v"
    and on :: 'v
    and off :: 'v
    and inv :: "'s \<Rightarrow> bool"
    and ok :: "'i \<Rightarrow> bool"
  assumes drive_inv: "inv s \<Longrightarrow> ok x \<Longrightarrow> pe_active (sel s) \<Longrightarrow> inv (snd (step s x))"
    and drive_tick: "inv s \<Longrightarrow> ok x \<Longrightarrow> pe_active (sel s) \<Longrightarrow>
      sel (snd (step s x)) = snd (pe_tick SCAN True (sel s))"
    and drive_out: "inv s \<Longrightarrow> ok x \<Longrightarrow> pe_active (sel s) \<Longrightarrow>
      out (fst (step s x)) = (if pe_active (sel (snd (step s x))) then on else off)"
begin

lemma pulse_rest:
  assumes "inv s" "pe_at k (sel s)" "k < 500" "length xs = 500 - k" "\<forall>x\<in>set xs. ok x"
  shows "map out (run_outs step s xs) = replicate (499 - k) on @ [off]"
  using assms
proof (induction xs arbitrary: s k)
  case Nil
  then show ?case by simp
next
  case (Cons x xs)
  let ?s = "snd (step s x)"
  have a: "pe_active (sel s)" using Cons.prems(2) by (simp add: pe_at_def)
  have ok: "ok x" using Cons.prems(5) by simp
  note t = drive_tick [OF Cons.prems(1) ok a] and o = drive_out [OF Cons.prems(1) ok a]
  show ?case
  proof (cases "k < 499")
    case True
    then have at: "pe_at (Suc k) (sel ?s)" using pe_at_tick [OF Cons.prems(2,3)] t by simp
    then have on: "out (fst (step s x)) = on" using o by (simp add: pe_at_def)
    have "map out (run_outs step ?s xs) = replicate (499 - Suc k) on @ [off]"
      using Cons.IH [OF drive_inv [OF Cons.prems(1) ok a] at] Cons.prems(4,5) True by simp
    moreover have "499 - k = Suc (499 - Suc k)" using True by simp
    ultimately show ?thesis by (simp add: on)
  next
    case False
    then have k: "k = 499" using Cons.prems(3) by simp
    then have "\<not> pe_active (sel ?s)" using pe_at_tick [OF Cons.prems(2,3)] t by simp
    then show ?thesis using o k Cons.prems(4) by simp
  qed
qed

text \<open>The cycle that triggers the pulse ticks it already.\<close>

lemma pulse_whole:
  assumes "inv (snd (step s x))" "sel (snd (step s x)) = snd (pe_tick SCAN True (snd (pe_trigger p)))"
    and "out (fst (step s x)) = (if pe_active (sel (snd (step s x))) then on else off)"
    and "pe_wf p" "pe_duration p = PULSE" "\<not> pe_active p"
    and "length xs = 499" "\<forall>x\<in>set xs. ok x"
  shows "map out (run_outs step s (x # xs)) = replicate 499 on @ [off]"
proof -
  have at: "pe_at 1 (sel (snd (step s x)))"
    using pe_at_tick [OF pe_at_trigger [OF assms(4-6)]] assms(2) by simp
  then have on: "out (fst (step s x)) = on" using assms(3) by (simp add: pe_at_def)
  have r: "replicate 499 on = on # replicate 498 on"
    by (simp only: replicate_Suc [symmetric]) simp
  from pulse_rest [OF assms(1) at _ _ assms(8)] assms(7) show ?thesis
    by (simp add: on r)
qed

end

subsection \<open>Commands leave an active pulse alone\<close>

lemma pe_trigger_active [simp]: "pe_active p \<Longrightarrow> pe_trigger p = (False, p)"
  by (simp add: pe_trigger_def)

lemma ctl_commands_active_wrap:
  assumes "pe_active (ct_wrap (fst cw))"
  shows "ct_wrap (fst (snd (ctl_commands net bus cmds cw))) = ct_wrap (fst cw)"
proof -
  have "pe_active (ct_wrap (fst (snd (ctl_command net bus cmd (g, c, w)))))
      \<and> ct_wrap (fst (snd (ctl_command net bus cmd (g, c, w)))) = ct_wrap c"
    if "pe_active (ct_wrap c)" for cmd g c w
    by (rule ctl_command_cases [of cmd net bus g c w]) (use that in \<open>auto simp: ctl_action_wrap\<close>)
  then show ?thesis
    using ctl_commands_keep [where Q = "\<lambda>c. pe_active (ct_wrap c)" and cmds = cmds and net = net
        and bus = bus and cw = cw and f = "\<lambda>c w. ct_wrap c"] assms
    by simp
qed

lemma ctl_action_knife_busy:
  "k \<Longrightarrow> ct_knives_in (fst (ctl_action net bus k r (c, w))) = ct_knives_in c
    \<and> ct_knives_out (fst (ctl_action net bus k r (c, w))) = ct_knives_out c"
  by (cases "r = Inr FireKnife") (simp_all add: ctl_action_knives, simp add: ctl_action_def)

lemma ctl_commands_active_knives:
  assumes "ctl_knife_active (fst cw)"
  shows "ct_knives_in (fst (snd (ctl_commands net bus cmds cw))) = ct_knives_in (fst cw)
    \<and> ct_knives_out (fst (snd (ctl_commands net bus cmds cw))) = ct_knives_out (fst cw)"
proof -
  have "ctl_knife_active (fst (snd (ctl_command net bus cmd (g, c, w))))
      \<and> (ct_knives_in (fst (snd (ctl_command net bus cmd (g, c, w)))),
         ct_knives_out (fst (snd (ctl_command net bus cmd (g, c, w)))))
        = (ct_knives_in c, ct_knives_out c)"
    if "ctl_knife_active c" for cmd g c w
    by (rule ctl_command_cases [of cmd net bus g c w])
      (use that in \<open>auto simp: ctl_action_knife_busy ctl_knife_active_def\<close>)
  then show ?thesis
    using ctl_commands_keep [where Q = ctl_knife_active and cmds = cmds and net = net
        and bus = bus and cw = cw and f = "\<lambda>c w. (ct_knives_in c, ct_knives_out c)"] assms
    by simp
qed

lemma ctl_knife_active_pre [simp]: "ctl_knife_active (fst (ctl_pre i cw)) = ctl_knife_active (fst cw)"
  by (simp add: ctl_knife_active_def)

text \<open>A cycle on a healthy bus that brings no manual-IO command.\<close>

definition plain_cycle :: "inputs \<times> command list \<Rightarrow> bool" where
  "plain_cycle ic \<longleftrightarrow> in_healthy (fst ic) \<and> (\<forall>cmd\<in>set (snd ic). \<not> is_manual_io cmd)"

lemma plain_remaining [simp]: "plain_cycle ic \<Longrightarrow> ctl_remaining (snd ic) 0 = 0"
  by (auto simp: plain_cycle_def ctl_remaining_def)

lemma plain_healthy [simp]: "plain_cycle ic \<Longrightarrow> in_healthy (fst ic)"
  by (simp add: plain_cycle_def)

definition ctl_normal :: "control \<times> ('n, 'b) world \<Rightarrow> bool" where
  "ctl_normal cw \<longleftrightarrow> ctl_inv (fst cw) \<and> ct_manual_io_remaining (fst cw) = 0"

lemma ctl_normal_step:
  "ctl_normal cw \<Longrightarrow> plain_cycle ic \<Longrightarrow> ctl_normal (snd (ctl_step net bus cw ic))"
  by (simp add: ctl_normal_def ctl_inv_step ctl_step_fields)

text \<open>The three pulses as pulse drivers of the cycle.\<close>

interpretation wrap_drv: pulse_driver "ctl_step net bus" "\<lambda>cw. ct_wrap (fst cw)"
    "\<lambda>os. out_wrap (fst os)" True False ctl_normal plain_cycle
  for net :: "'n net_port" and bus :: "'b bus_port"
proof unfold_locales
  fix s :: "control \<times> ('n, 'b) world" and x
  assume n: "ctl_normal s" and ok: "plain_cycle x" and a: "pe_active (ct_wrap (fst s))"
  then show "ctl_normal (snd (ctl_step net bus s x))" by (simp add: ctl_normal_step)
  have r: "ctl_remaining (snd x) (ct_manual_io_remaining (fst s)) = 0"
    using n ok by (simp add: ctl_normal_def)
  have b: "ct_wrap (fst (ctl_body net bus s x)) = ct_wrap (fst s)"
    using a by (simp add: ctl_body_def ctl_commands_active_wrap)
  show "ct_wrap (fst (snd (ctl_step net bus s x))) = snd (pe_tick SCAN True (ct_wrap (fst s)))"
    using ok by (simp add: ctl_step_normal [OF r] b)
  show "out_wrap (fst (fst (ctl_step net bus s x))) =
      (if pe_active (ct_wrap (fst (snd (ctl_step net bus s x)))) then True else False)"
    by (simp add: ctl_step_normal [OF r])
qed

text \<open>The knife pulse in one direction, with the opposing pulse idle.\<close>

definition knife_sel :: "bool \<Rightarrow> control \<Rightarrow> pulse_engine" where
  "knife_sel inward c = (if inward then ct_knives_in c else ct_knives_out c)"

definition knife_outs :: "outputs \<Rightarrow> bool \<times> bool" where
  "knife_outs o1 = (out_knives_in o1, out_knives_out o1)"

interpretation knife_drv: pulse_driver "ctl_step net bus" "\<lambda>cw. knife_sel inward (fst cw)"
    "\<lambda>os. knife_outs (fst os)" "(inward, \<not> inward)" "(False, False)"
    "\<lambda>cw. ctl_normal cw \<and> \<not> pe_active (knife_sel (\<not> inward) (fst cw))" plain_cycle
  for net :: "'n net_port" and bus :: "'b bus_port" and inward :: bool
proof unfold_locales
  fix s :: "control \<times> ('n, 'b) world" and x
  assume n: "ctl_normal s \<and> \<not> pe_active (knife_sel (\<not> inward) (fst s))"
    and ok: "plain_cycle x" and a: "pe_active (knife_sel inward (fst s))"
  have r: "ctl_remaining (snd x) (ct_manual_io_remaining (fst s)) = 0"
    using n ok by (simp add: ctl_normal_def)
  have "ctl_knife_active (fst s)"
    using a by (auto simp: ctl_knife_active_def knife_sel_def pe_is_active_def split: if_splits)
  then have b: "ct_knives_in (fst (ctl_body net bus s x)) = ct_knives_in (fst s)"
      "ct_knives_out (fst (ctl_body net bus s x)) = ct_knives_out (fst s)"
    using ctl_commands_active_knives [of "ctl_pre (fst x) s" net bus "snd x"]
    by (simp_all add: ctl_body_def)
  show "ctl_normal (snd (ctl_step net bus s x))
      \<and> \<not> pe_active (knife_sel (\<not> inward) (fst (snd (ctl_step net bus s x))))"
    using n ok by (auto simp: ctl_normal_step knife_sel_def ctl_step_normal [OF r] b)
  show "knife_sel inward (fst (snd (ctl_step net bus s x))) =
      snd (pe_tick SCAN True (knife_sel inward (fst s)))"
    using ok by (simp add: knife_sel_def ctl_step_normal [OF r] b)
  show "knife_outs (fst (fst (ctl_step net bus s x))) =
      (if pe_active (knife_sel inward (fst (snd (ctl_step net bus s x))))
       then (inward, \<not> inward) else (False, False))"
    using n ok by (auto simp: knife_sel_def knife_outs_def ctl_step_normal [OF r] b)
qed

subsection \<open>Firing\<close>

text \<open>A single command in normal control.\<close>

lemma ctl_commands_single:
  assumes "ct_manual_io_remaining (fst cw) = 0" "\<not> is_manual_io cmd"
  shows "snd (ctl_commands net bus [cmd] cw) =
    ctl_action net bus (ctl_knife_active (fst cw))
      (fst (bs_handle cmd (ctl_any_active (fst cw)) (ct_state (fst cw))))
      ((fst cw)\<lparr>ct_state := snd (bs_handle cmd (ctl_any_active (fst cw)) (ct_state (fst cw)))\<rparr>, snd cw)"
  using ctl_command_normal [OF assms, of net bus False "snd cw"] by (simp add: ctl_commands_def)

lemma ctl_body_wrap:
  assumes "bs_mode (ct_state (fst cw)) \<noteq> Ethernet" "in_healthy i"
    and "ct_manual_io_remaining (fst cw) = 0"
  shows "ct_wrap (fst (ctl_body net bus cw (i, [Wrap]))) = snd (pe_trigger (ct_wrap (fst cw)))"
    and "ct_full_latch_remaining (fst (ctl_body net bus cw (i, [Wrap]))) = 0"
  using assms
  by (simp_all add: ctl_body_def ctl_commands_single require_operational_def
      on_bus_health_mode ctl_action_def split_beta)

lemma ctl_body_knife:
  fixes net :: "'n net_port" and bus :: "'b bus_port" and cw :: "control \<times> ('n, 'b) world"
    and i :: inputs
  assumes "bs_mode (ct_state (fst cw)) \<noteq> Ethernet" "in_healthy i"
    and "ct_manual_io_remaining (fst cw) = 0" "\<not> ctl_knife_active (fst cw)"
  defines "lvl \<equiv> db_level (snd (db_update (ct_knife_db (fst cw)) (in_knife_in i)))"
    and "b \<equiv> fst (ctl_body net bus cw (i, [ToggleKnife]))"
  shows "knife_sel lvl b = snd (pe_trigger (knife_sel lvl (fst cw)))"
    and "knife_sel (\<not> lvl) b = knife_sel (\<not> lvl) (fst cw)"
  using assms(1-4) unfolding lvl_def b_def
  by (auto simp: ctl_body_def ctl_commands_single require_operational_def
      on_bus_health_mode ctl_action_def split_beta knife_sel_def)

subsection \<open>Properties\<close>

text \<open>C1. In every cycle of every run from power-up, whatever the inputs, the commands and the
  behaviour of the network and bus ports and of the disk: the two knife outputs are never high
  together, no output is high while the bus is not healthy, and a static address is shown only
  in maintenance mode. (\<open>safe_outputs\<close> says this of one cycle.)\<close>

theorem outputs_always_safe:
  "list_all2 safe_outputs xs (run_outs (ctl_step net bus) (ctl_init counters, w) xs)"
  by (rule ctl.run_good) (simp add: ctl_inv_init)

text \<open>The commands that can move the machine, and a daemon that moves nothing.\<close>

definition motion :: "command \<Rightarrow> bool" where
  "motion c \<longleftrightarrow> c = Wrap \<or> c = ToggleKnife \<or> is_manual_io c"

definition quiet :: "control \<Rightarrow> bool" where
  "quiet c \<longleftrightarrow> ct_manual_io_remaining c = 0 \<and> \<not> pe_active (ct_wrap c)
     \<and> \<not> pe_active (ct_knives_in c) \<and> \<not> pe_active (ct_knives_out c)"

lemma quiet_init: "quiet (ctl_init counters)"
  by (simp add: quiet_def ctl_init_def)

lemma quiet_step:
  assumes "quiet (fst cw)" "\<forall>c\<in>set (snd ic). \<not> motion c"
  shows "quiet (fst (snd (ctl_step net bus cw ic)))"
    and "fst (fst (ctl_step net bus cw ic)) =
      \<lparr>out_wrap = False, out_knives_in = False, out_knives_out = False\<rparr>"
proof -
  have no: "Wrap \<notin> set (snd ic)" "ToggleKnife \<notin> set (snd ic)"
      "\<forall>cmd\<in>set (snd ic). \<not> is_manual_io cmd"
    using assms(2) by (auto simp: motion_def)
  have r: "ctl_remaining (snd ic) (ct_manual_io_remaining (fst cw)) = 0"
    using no(3) assms(1) unfolding ctl_remaining_def quiet_def by simp
  have p: "ct_wrap (fst (ctl_body net bus cw ic)) = ct_wrap (fst cw)"
      "ct_knives_in (fst (ctl_body net bus cw ic)) = ct_knives_in (fst cw)"
      "ct_knives_out (fst (ctl_body net bus cw ic)) = ct_knives_out (fst cw)"
    by (simp_all add: ctl_body_def ctl_commands_no_wrap [OF no(1)] ctl_commands_no_knife [OF no(2)])
  show "quiet (fst (snd (ctl_step net bus cw ic)))"
    using assms(1) r by (simp add: quiet_def ctl_step_normal(1-3) [OF r] p ctl_step_fields(1))
  show "fst (fst (ctl_step net bus cw ic)) =
      \<lparr>out_wrap = False, out_knives_in = False, out_knives_out = False\<rparr>"
    using assms(1) ctl_step_normal(4-6) [OF r, of net bus]
    by (intro outputs.equality) (simp_all add: quiet_def ctl_step_normal(1-3) [OF r] p)
qed

text \<open>No output without an operator command: over any run from power-up in which no wrap,
  knife or manual-IO command arrives, every output of every cycle is low, whatever the inputs
  and the bus do.\<close>

theorem no_command_no_output:
  fixes net :: "'n net_port" and bus :: "'b bus_port" and w :: "('n, 'b) world"
  assumes "\<forall>(i, cmds)\<in>set xs. Wrap \<notin> set cmds \<and> ToggleKnife \<notin> set cmds
      \<and> (\<forall>cmd\<in>set cmds. \<not> is_manual_io cmd)"
  shows "fst ` set (run_outs (ctl_step net bus) (ctl_init counters, w) xs)
    \<subseteq> {\<lparr>out_wrap = False, out_knives_in = False, out_knives_out = False\<rparr>}"
proof -
  have "fst ` set (run_outs (ctl_step net bus) cw xs)
      \<subseteq> {\<lparr>out_wrap = False, out_knives_in = False, out_knives_out = False\<rparr>}" if "quiet (fst cw)" for cw
    using assms that
  proof (induction xs arbitrary: cw)
    case Nil
    then show ?case by simp
  next
    case (Cons ic xs)
    have "\<forall>c\<in>set (snd ic). \<not> motion c" using Cons.prems(1) by (auto simp: motion_def)
    from quiet_step [OF Cons.prems(2) this] show ?case using Cons.IH Cons.prems(1) by simp
  qed
  then show ?thesis by (simp add: quiet_init)
qed

definition demo_inputs :: inputs where
  "demo_inputs = \<lparr>in_bale_full = True, in_knife_in = False, in_bale_open = False, in_healthy = True\<rparr>"

definition demo_store :: counter_store where
  "demo_store = \<lparr>cs_path = demo_path, cs_counters = counters_default\<rparr>"

definition demo_world :: "(unit, unit) world" where
  "demo_world = \<lparr>w_fs = empty_fs, w_net = (), w_bus = ()\<rparr>"

theorem no_command_no_output_witness:
  "fst ` set (run_outs (ctl_step sim_network noop_bus) (ctl_init demo_store, demo_world)
      [(demo_inputs, [ResetSession]), (demo_inputs, [EnterEthernet])])
    \<subseteq> {\<lparr>out_wrap = False, out_knives_in = False, out_knives_out = False\<rparr>}"
  by (rule no_command_no_output) simp

lemma wrap_pulse_run:
  assumes inv: "ctl_inv (fst cw)"
    and "ct_manual_io_remaining (fst cw) = 0" "\<not> pe_active (ct_wrap (fst cw))"
    and "bs_mode (ct_state (fst cw)) \<noteq> Ethernet"
    and "in_healthy i" "length rest = 499" "\<forall>ic\<in>set rest. plain_cycle ic"
  shows "map (\<lambda>os. out_wrap (fst os)) (run_outs (ctl_step net bus) cw ((i, [Wrap]) # rest))
    = replicate 499 True @ [False]"
proof (rule wrap_drv.pulse_whole)
  have n: "ctl_normal cw" using inv assms(2) by (simp add: ctl_normal_def)
  have ok: "plain_cycle (i, [Wrap])" using assms(5) by (simp add: plain_cycle_def)
  then have r: "ctl_remaining (snd (i, [Wrap])) (ct_manual_io_remaining (fst cw)) = 0"
    by (simp only: assms(2) plain_remaining)
  show "ctl_normal (snd (ctl_step net bus cw (i, [Wrap])))" by (rule ctl_normal_step [OF n ok])
  show "ct_wrap (fst (snd (ctl_step net bus cw (i, [Wrap])))) =
      snd (pe_tick SCAN True (snd (pe_trigger (ct_wrap (fst cw)))))"
    using assms(5) by (simp only: ctl_step_normal [OF r] ctl_body_wrap [OF assms(4,5,2)] fst_conv)
  show "out_wrap (fst (fst (ctl_step net bus cw (i, [Wrap])))) =
      (if pe_active (ct_wrap (fst (snd (ctl_step net bus cw (i, [Wrap]))))) then True else False)"
    by (simp only: ctl_step_normal(4) [OF r]) simp
  show "pe_wf (ct_wrap (fst cw))" "pe_duration (ct_wrap (fst cw)) = PULSE"
    using inv by (simp_all add: ctl_inv_def)
qed (use assms in simp_all)

text \<open>C9. The wrap pulse: a wrap command accepted on a healthy bus while no wrap pulse runs drives the
  output high in this and the next 498 cycles and low in the 500th, as long as the bus stays
  healthy and no manual-IO command comes (\<open>plain_cycle\<close>); any other command that arrives
  meanwhile (another wrap, a knife, a switch to Ethernet or back, resets, corrections) makes no
  difference. What manual-IO does to a pulse is shown in \<open>ControlModes\<close>. The starting state
  is any reachable one that is out of manual-IO and of maintenance mode.\<close>

theorem wrap_pulse_exact:
  assumes "cw = run_end (ctl_step net bus) (ctl_init counters, w) history"
    and "ct_manual_io_remaining (fst cw) = 0" "\<not> pe_active (ct_wrap (fst cw))"
    and "bs_mode (ct_state (fst cw)) \<noteq> Ethernet"
    and "in_healthy i" "length rest = 499" "\<forall>ic\<in>set rest. plain_cycle ic"
  shows "map (\<lambda>os. out_wrap (fst os)) (run_outs (ctl_step net bus) cw ((i, [Wrap]) # rest))
    = replicate 499 True @ [False]"
proof (rule wrap_pulse_run)
  show "ctl_inv (fst cw)" unfolding assms(1) by (rule ctl.run_inv) (simp add: ctl_inv_init)
qed (use assms in simp_all)

theorem wrap_pulse_exact_witness:
  "map (\<lambda>os. out_wrap (fst os)) (run_outs (ctl_step sim_network noop_bus)
      (ctl_init demo_store, demo_world) ((demo_inputs, [Wrap]) # replicate 499 (demo_inputs, [EnterEthernet])))
    = replicate 499 True @ [False]"
  by (rule wrap_pulse_exact [where history = "[]" and counters = demo_store and w = demo_world])
    (simp_all add: ctl_init_def bs_new_def demo_inputs_def plain_cycle_def)

text \<open>C10. The knife pulse: a knife command accepted while neither knife pulse runs drives exactly
  the output of the debounced knife level of that cycle (in when the input is high, out when it
  is low) for 499 cycles and then none, and the opposing output stays low throughout, even if
  the input flips and the operator fires again meanwhile.\<close>

theorem knife_pulse_directional:
  assumes "cw = run_end (ctl_step net bus) (ctl_init counters, w) history"
    and "ct_manual_io_remaining (fst cw) = 0" "\<not> ctl_knife_active (fst cw)"
    and "bs_mode (ct_state (fst cw)) \<noteq> Ethernet"
    and "in_healthy i" "length rest = 499" "\<forall>ic\<in>set rest. plain_cycle ic"
    and "inward = db_level (snd (db_update (ct_knife_db (fst cw)) (in_knife_in i)))"
  shows "map (\<lambda>os. knife_outs (fst os))
      (run_outs (ctl_step net bus) cw ((i, [ToggleKnife]) # rest))
    = replicate 499 (inward, \<not> inward) @ [(False, False)]"
proof (rule knife_drv.pulse_whole)
  let ?x = "(i, [ToggleKnife])"
  let ?s = "ctl_step net bus cw ?x"
  have inv: "ctl_inv (fst cw)" unfolding assms(1) by (rule ctl.run_inv) (simp add: ctl_inv_init)
  then have n: "ctl_normal cw" using assms(2) by (simp add: ctl_normal_def)
  have ok: "plain_cycle ?x" using assms(5) by (simp add: plain_cycle_def)
  then have r: "ctl_remaining (snd ?x) (ct_manual_io_remaining (fst cw)) = 0"
    by (simp only: assms(2) plain_remaining)
  note b = ctl_body_knife [OF assms(4,5,2,3), where net = net and bus = bus, folded assms(8)]
  have idle: "\<not> pe_active (knife_sel d (fst cw))" for d
    using assms(3) by (auto simp: ctl_knife_active_def pe_is_active_def knife_sel_def)
  have t: "knife_sel d (fst (snd ?s)) = snd (pe_tick SCAN True (knife_sel d (fst (ctl_body net bus cw ?x))))"
    for d using assms(5) by (simp add: knife_sel_def ctl_step_normal [OF r])
  show "ctl_normal (snd ?s) \<and> \<not> pe_active (knife_sel (\<not> inward) (fst (snd ?s)))"
    using ctl_normal_step [OF n ok] idle by (simp add: t b)
  then show "knife_outs (fst (fst ?s)) =
      (if pe_active (knife_sel inward (fst (snd ?s))) then (inward, \<not> inward) else (False, False))"
    by (auto simp: knife_outs_def knife_sel_def ctl_step_normal(5,6) [OF r] simp del: ctl_step_normal(1-3))
  show "knife_sel inward (fst (snd ?s)) = snd (pe_tick SCAN True (snd (pe_trigger (knife_sel inward (fst cw)))))"
    by (simp add: t b)
  show "pe_wf (knife_sel inward (fst cw))" "pe_duration (knife_sel inward (fst cw)) = PULSE"
    using inv by (simp_all add: ctl_inv_def knife_sel_def)
  show "\<not> pe_active (knife_sel inward (fst cw))" by (rule idle)
qed (use assms in simp_all)

theorem knife_pulse_directional_witness:
  "map (\<lambda>os. knife_outs (fst os)) (run_outs (ctl_step sim_network noop_bus)
      (ctl_init demo_store, demo_world)
      ((demo_inputs, [ToggleKnife]) # replicate 499 (demo_inputs\<lparr>in_knife_in := True\<rparr>, [ToggleKnife])))
    = replicate 499 (False, \<not> False) @ [(False, False)]"
  by (rule knife_pulse_directional [where history = "[]" and counters = demo_store and w = demo_world])
    (simp_all add: ctl_init_def bs_new_def demo_inputs_def plain_cycle_def ctl_knife_active_def
      pe_is_active_def db_new_def db_update_def)

end
