(* ===== verification/ControlModes.thy ===== *)
theory ControlModes
  imports ControlPulse
begin

text \<open>
  The modes of the control cycle: the attention latch as a function of the last 2000 cycles,
  the manual-IO mode with its watchdog and what it suspends, and maintenance mode with the
  calls it makes on the ports.
\<close>

subsection \<open>The attention latch\<close>

text \<open>Per cycle: was the debounced bale-full input true on a healthy bus?\<close>

primrec full_levels :: "debouncer \<Rightarrow> inputs list \<Rightarrow> bool list" where
  "full_levels d [] = []"
| "full_levels d (i # is) =
     (let d' = snd (db_update d (in_bale_full i))
      in (in_healthy i \<and> db_level d') # full_levels d' is)"

lemma full_levels_snoc:
  "full_levels d (is @ [i]) = full_levels d is @
     [in_healthy i \<and>
      db_level (snd (db_update (run_end db_update d (map in_bale_full is)) (in_bale_full i)))]"
  by (induction "is" arbitrary: d) (simp_all add: Let_def)

lemma length_full_levels [simp]: "length (full_levels d is) = length is"
  by (induction "is" arbitrary: d) (simp_all add: Let_def)

lemma ctl_run_full_db:
  "ct_full_db (fst (run_end (ctl_step net bus) cw xs)) =
     run_end db_update (ct_full_db (fst cw)) (map (\<lambda>ic. in_bale_full (fst ic)) xs)"
  by (induction xs arbitrary: cw) (simp_all add: ctl_step_fields)

lemma ctl_step_latch:
  assumes "Wrap \<notin> set (snd ic)"
  shows "unat (ct_full_latch_remaining (fst (snd (ctl_step net bus cw ic)))) =
    (if in_healthy (fst ic) \<and> db_level (snd (db_update (ct_full_db (fst cw)) (in_bale_full (fst ic))))
     then 2000 else unat (ct_full_latch_remaining (fst cw)) - 1)"
  using unat_pred [of "ct_full_latch_remaining (fst cw)"]
  by (auto simp: ctl_step_fields ctl_body_def ctl_commands_no_wrap [OF assms] ctl_pre_latch
      FULL_LATCH_CYCLES_def word_gt_0)

lemma latch_remaining_run:
  assumes "\<forall>ic\<in>set xs. Wrap \<notin> set (snd ic)" "ct_full_latch_remaining (fst cw) = 0"
  shows "unat (ct_full_latch_remaining (fst (run_end (ctl_step net bus) cw xs))) =
    (let ls = full_levels (ct_full_db (fst cw)) (map fst xs)
     in if True \<in> set ls then 2000 - trail False ls else 0)"
  using assms(1)
proof (induction xs rule: rev_induct)
  case Nil
  then show ?case using assms(2) by simp
next
  case (snoc ic xs)
  let ?c = "run_end (ctl_step net bus) cw xs"
  let ?ls = "full_levels (ct_full_db (fst cw)) (map fst xs)"
  let ?b = "in_healthy (fst ic) \<and> db_level (snd (db_update (ct_full_db (fst ?c)) (in_bale_full (fst ic))))"
  have ls: "full_levels (ct_full_db (fst cw)) (map fst (xs @ [ic])) = ?ls @ [?b]"
    by (simp add: full_levels_snoc ctl_run_full_db comp_def)
  have nw: "Wrap \<notin> set (snd ic)" using snoc.prems by simp
  have IH: "unat (ct_full_latch_remaining (fst ?c)) = (if True \<in> set ?ls then 2000 - trail False ?ls else 0)"
    using snoc by (simp add: Let_def)
  have "unat (ct_full_latch_remaining (fst (run_end (ctl_step net bus) cw (xs @ [ic])))) =
      (if ?b then 2000 else unat (ct_full_latch_remaining (fst ?c)) - 1)"
    by (simp only: run_end_snoc ctl_step_latch [OF nw])
  then show ?case
    unfolding ls Let_def IH by (cases ?b) auto
qed

text \<open>C21. FULL is shown exactly when the debounced bale-full input was true on a healthy bus in
  one of the last 2000 cycles (20 s at the scan), this one included, as long as no wrap is
  commanded.\<close>

theorem full_shown_iff_recent:
  assumes "\<forall>ic\<in>set xs. Wrap \<notin> set (snd ic)"
  defines "ls \<equiv> full_levels (db_new DEBOUNCE False) (map fst xs)"
  shows "ss_full_latched (ctl_snapshot (fst (run_end (ctl_step net bus) (ctl_init counters, w) xs)))
    \<longleftrightarrow> True \<in> set (drop (length ls - 2000) ls)"
proof -
  let ?c = "fst (run_end (ctl_step net bus) (ctl_init counters, w) xs)"
  have "unat (ct_full_latch_remaining ?c) = (if True \<in> set ls then 2000 - trail False ls else 0)"
    using latch_remaining_run [OF assms(1), of "(ctl_init counters, w)" net bus]
    by (simp add: ctl_init_def ls_def Let_def)
  then have "ss_full_latched (ctl_snapshot ?c) \<longleftrightarrow> True \<in> set ls \<and> \<not> 2000 \<le> trail False ls"
    by (simp add: ctl_snapshot_def Let_def word_less_nat_alt not_le)
  also have "\<dots> \<longleftrightarrow> True \<in> set (drop (length ls - 2000) ls)"
    unfolding trail_ge_iff by (cases "2000 \<le> length ls") (auto dest: in_set_dropD)
  finally show ?thesis .
qed

theorem full_shown_iff_recent_witness:
  "ss_full_latched (ctl_snapshot (fst (run_end (ctl_step sim_network noop_bus)
     (ctl_init demo_store, demo_world) (replicate 3 (demo_inputs, [])))))"
proof -
  have "True \<in> set (drop (length (full_levels (db_new DEBOUNCE False) (map fst (replicate 3 (demo_inputs, [] :: command list)))) - 2000)
      (full_levels (db_new DEBOUNCE False) (map fst (replicate 3 (demo_inputs, [] :: command list)))))"
    by code_simp
  then show ?thesis by (subst full_shown_iff_recent) simp_all
qed

text \<open>C31. A wrap commanded while the bale-full input is still true hides FULL in that cycle only:
  the next healthy cycle in which the debounced input is still true shows it again. (The
  comment beside the code says the wrap clears the latch so that it stops nagging.)\<close>

theorem wrap_hides_full_one_cycle:
  assumes "cw = run_end (ctl_step net bus) (ctl_init counters, w) history"
    and "ct_manual_io_remaining (fst cw) = 0" "bs_mode (ct_state (fst cw)) \<noteq> Ethernet"
    and "in_healthy i" "in_healthy j" "Wrap \<notin> set cmds"
    and "full_levels (ct_full_db (fst cw)) [i, j] = [True, True]"
  shows "map (\<lambda>os. ss_full_latched (snd os)) (run_outs (ctl_step net bus) cw [(i, [Wrap]), (j, cmds)])
    = [False, True]"
proof -
  let ?s = "snd (ctl_step net bus cw (i, [Wrap]))"
  have a: "ct_full_latch_remaining (fst ?s) = 0"
    by (simp add: ctl_step_fields ctl_body_wrap [OF assms(3,4,2)])
  have "unat (ct_full_latch_remaining (fst (snd (ctl_step net bus ?s (j, cmds))))) = 2000"
    using ctl_step_latch [of "(j, cmds)" net bus ?s] assms(5-7)
    by (simp add: ctl_step_fields Let_def)
  with a show ?thesis
    by (simp add: ctl_snapshot_after) (simp add: ctl_snapshot_def Let_def word_less_nat_alt)
qed

theorem wrap_hides_full_one_cycle_witness:
  "map (\<lambda>os. ss_full_latched (snd os)) (run_outs (ctl_step sim_network noop_bus)
      (run_end (ctl_step sim_network noop_bus) (ctl_init demo_store, demo_world)
         (replicate 3 (demo_inputs, [])))
      [(demo_inputs, [Wrap]), (demo_inputs, [])]) = [False, True]"
proof (rule wrap_hides_full_one_cycle [OF refl])
  let ?cw = "run_end (ctl_step sim_network noop_bus) (ctl_init demo_store, demo_world)
      (replicate 3 (demo_inputs, []))"
  show "ct_manual_io_remaining (fst ?cw) = 0" by code_simp
  show "bs_mode (ct_state (fst ?cw)) \<noteq> Ethernet" by code_simp
  show "full_levels (ct_full_db (fst ?cw)) [demo_inputs, demo_inputs] = [True, True]" by code_simp
qed (simp_all add: demo_inputs_def)

subsection \<open>Manual-IO mode\<close>

text \<open>While manual-IO runs, the loop carries out nothing but manual-IO commands.\<close>

lemma ctl_command_remaining:
  "ct_manual_io_remaining (fst (snd (ctl_command net bus cmd s))) = ct_manual_io_remaining (fst (snd s))"
  using ctl_command_frame(1) [of net bus cmd "fst s" "fst (snd s)" "snd (snd s)"] by simp

lemma ctl_commands_filter:
  assumes "0 < ct_manual_io_remaining (fst cw)"
  shows "ctl_commands net bus cmds cw = ctl_commands net bus (filter is_manual_io cmds) cw"
proof -
  have "fold (ctl_command net bus) cmds s = fold (ctl_command net bus) (filter is_manual_io cmds) s"
    if "0 < ct_manual_io_remaining (fst (snd s))" for s
    using that
  proof (induction cmds arbitrary: s)
    case Nil
    then show ?case by simp
  next
    case (Cons cmd cmds)
    show ?case
    proof (cases "is_manual_io cmd")
      case True
      then show ?thesis using Cons by (simp add: ctl_command_remaining)
    next
      case False
      then have "ctl_command net bus cmd s = s"
        using ctl_command_ignored [OF _ False, of "fst (snd s)" net bus "fst s" "snd (snd s)"]
          Cons.prems by simp
      then show ?thesis using Cons False by simp
    qed
  qed
  then show ?thesis using assms by (simp add: ctl_commands_def)
qed

text \<open>Manual-IO mode suspends the machine: while its watchdog runs, a cycle behaves as if
  every other command (wrap, knife, counter changes, mode switches) had not been sent.\<close>

theorem manual_io_suspends_commands:
  assumes "0 < ct_manual_io_remaining (fst cw)"
  shows "ctl_step net bus cw (i, cmds) = ctl_step net bus cw (i, filter is_manual_io cmds)"
proof -
  have "(\<exists>cmd\<in>set (filter is_manual_io cmds). is_manual_io cmd) = (\<exists>cmd\<in>set cmds. is_manual_io cmd)"
    by auto
  moreover have "ctl_body net bus cw (i, cmds) = ctl_body net bus cw (i, filter is_manual_io cmds)"
    unfolding ctl_body_def snd_conv fst_conv
    by (subst ctl_commands_filter) (simp_all add: assms)
  ultimately show ?thesis by (simp only: ctl_step_eq snd_conv fst_conv)
qed

theorem manual_io_suspends_commands_witness:
  "let cw = snd (ctl_step sim_network noop_bus (ctl_init demo_store, demo_world)
       (demo_inputs, [ManualIo True False False]))
   in ctl_step sim_network noop_bus cw (demo_inputs, [Wrap, EnterEthernet, ResetTotal])
    = ctl_step sim_network noop_bus cw (demo_inputs, [])"
proof -
  have "0 < ct_manual_io_remaining (fst (snd (ctl_step sim_network noop_bus
      (ctl_init demo_store, demo_world) (demo_inputs, [ManualIo True False False]))))"
    by (simp add: ctl_step_fields ctl_remaining_def MANUAL_IO_WATCHDOG_def)
  from manual_io_suspends_commands [OF this, of sim_network noop_bus demo_inputs
      "[Wrap, EnterEthernet, ResetTotal]"]
  show ?thesis by (simp add: Let_def)
qed

text \<open>The outputs of manual-IO for held keys: gated by the bus, knives-in before knives-out.\<close>

definition held_outputs :: "bool \<Rightarrow> bool \<Rightarrow> bool \<Rightarrow> bool \<Rightarrow> outputs" where
  "held_outputs wrap knives_in knives_out healthy =
     \<lparr>out_wrap = healthy \<and> wrap, out_knives_in = healthy \<and> knives_in,
      out_knives_out = healthy \<and> knives_out \<and> \<not> knives_in\<rparr>"

text \<open>
  The manual-IO run: \<open>n\<close> cycles of countdown left, the keys held, the pulses \<open>ps\<close> frozen.
\<close>

definition manual_at ::
  "nat \<Rightarrow> bool \<times> bool \<times> bool \<Rightarrow> pulse_engine \<times> pulse_engine \<times> pulse_engine \<Rightarrow> control \<Rightarrow> bool" where
  "manual_at n keys ps c \<longleftrightarrow>
     unat (ct_manual_io_remaining c) = n
     \<and> (ct_manual_wrap c, ct_manual_knives_in c, ct_manual_knives_out c) = keys
     \<and> (ct_wrap c, ct_knives_in c, ct_knives_out c) = ps"

definition no_manual :: "inputs \<times> command list \<Rightarrow> bool" where
  "no_manual ic \<longleftrightarrow> (\<forall>cmd\<in>set (snd ic). \<not> is_manual_io cmd)"

text \<open>A cycle without commands keeps all of these up to the countdown and the ticks.\<close>

lemma ctl_body_idle_manual:
  assumes "0 < ct_manual_io_remaining (fst cw)" "no_manual ic"
  shows "ctl_body net bus cw ic = ctl_pre (fst ic) cw"
proof -
  have "filter is_manual_io (snd ic) = []" using assms(2) by (auto simp: no_manual_def filter_empty_conv)
  then show ?thesis
    unfolding ctl_body_def by (subst ctl_commands_filter) (simp_all add: assms(1) ctl_commands_def)
qed

lemma ctl_manual_frame:
  "ct_manual_wrap (fst (snd (ctl_step net bus cw ic))) = ct_manual_wrap (fst (ctl_body net bus cw ic))"
  "ct_manual_knives_in (fst (snd (ctl_step net bus cw ic))) =
     ct_manual_knives_in (fst (ctl_body net bus cw ic))"
  "ct_manual_knives_out (fst (snd (ctl_step net bus cw ic))) =
     ct_manual_knives_out (fst (ctl_body net bus cw ic))"
  by (simp_all add: ctl_step_eq Let_def split_beta ctl_outputs_def)

lemma unat_remaining_idle:
  "no_manual ic \<Longrightarrow> unat (ctl_remaining (snd ic) r) = unat r - 1"
  using unat_pred [of r] by (auto simp: ctl_remaining_def no_manual_def word_gt_0)

lemma manual_countdown:
  fixes net :: "'n net_port" and bus :: "'b bus_port" and cw :: "control \<times> ('n, 'b) world"
  assumes "manual_at (Suc (Suc n)) (a, b, d) ps (fst cw)" "no_manual ic"
  shows "manual_at (Suc n) (a, b, d) ps (fst (snd (ctl_step net bus cw ic)))"
    and "fst (fst (ctl_step net bus cw ic)) = held_outputs a b d (in_healthy (fst ic))"
proof -
  have pos: "0 < ct_manual_io_remaining (fst cw)"
    using assms(1) by (simp add: manual_at_def word_less_nat_alt)
  note body = ctl_body_idle_manual [OF pos assms(2)]
  have rem: "unat (ctl_remaining (snd ic) (ct_manual_io_remaining (fst cw))) = Suc n"
    using assms by (simp add: manual_at_def unat_remaining_idle)
  then have r: "0 < ctl_remaining (snd ic) (ct_manual_io_remaining (fst cw))"
    by (simp add: word_less_nat_alt)
  show "manual_at (Suc n) (a, b, d) ps (fst (snd (ctl_step net bus cw ic)))"
    using assms(1) rem
    by (auto simp: manual_at_def ctl_step_fields ctl_manual_frame ctl_step_manual(1-3) [OF r] body)
  show "fst (fst (ctl_step net bus cw ic)) = held_outputs a b d (in_healthy (fst ic))"
    using assms(1) by (auto simp: ctl_step_manual(4) [OF r] body manual_at_def held_outputs_def)
qed

text \<open>The last cycle of the countdown returns to the pulses and ticks them.\<close>

lemma manual_expires:
  fixes net :: "'n net_port" and bus :: "'b bus_port" and cw :: "control \<times> ('n, 'b) world"
    and ic :: "inputs \<times> command list"
  assumes "manual_at 1 keys (w, p, q) (fst cw)" "no_manual ic"
  defines "h \<equiv> in_healthy (fst ic)"
  shows "fst (fst (ctl_step net bus cw ic)) =
    \<lparr>out_wrap = pe_active (snd (pe_tick SCAN h w)), out_knives_in = pe_active (snd (pe_tick SCAN h p)),
     out_knives_out = pe_active (snd (pe_tick SCAN h q))\<rparr>"
proof -
  have pos: "0 < ct_manual_io_remaining (fst cw)"
    using assms(1) by (simp add: manual_at_def word_less_nat_alt)
  note body = ctl_body_idle_manual [OF pos assms(2)]
  have "unat (ctl_remaining (snd ic) (ct_manual_io_remaining (fst cw))) = 0"
    using assms(1,2) by (simp add: manual_at_def unat_remaining_idle)
  then have r: "ctl_remaining (snd ic) (ct_manual_io_remaining (fst cw)) = 0"
    by (simp add: unat_eq_zero)
  show ?thesis
    using assms(1) ctl_step_normal(4-6) [OF r, of net bus]
    by (intro outputs.equality) (auto simp: ctl_step_normal(1-3) [OF r] body manual_at_def h_def)
qed

lemma manual_run:
  fixes net :: "'n net_port" and bus :: "'b bus_port" and cw :: "control \<times> ('n, 'b) world"
  assumes "manual_at (Suc (length xs)) (a, b, d) ps (fst cw)" "\<forall>ic\<in>set xs. no_manual ic"
  shows "map fst (run_outs (ctl_step net bus) cw xs) =
      map (\<lambda>ic. held_outputs a b d (in_healthy (fst ic))) xs
    \<and> manual_at 1 (a, b, d) ps (fst (run_end (ctl_step net bus) cw xs))"
  using assms
proof (induction xs arbitrary: cw)
  case Nil
  then show ?case by simp
next
  case (Cons ic xs)
  have at: "manual_at (Suc (Suc (length xs))) (a, b, d) ps (fst cw)" and no: "no_manual ic"
    using Cons.prems by simp_all
  show ?case
    using Cons.IH [OF manual_countdown(1) [OF at no]] manual_countdown(2) [OF at no] Cons.prems(2)
    by simp
qed

lemma manual_begins:
  fixes net :: "'n net_port" and bus :: "'b bus_port" and cw :: "control \<times> ('n, 'b) world"
    and i :: inputs and a b d :: bool
  defines "s \<equiv> ctl_step net bus cw (i, [ManualIo a b d])"
  shows "manual_at 30 (a, b, d) (ct_wrap (fst cw), ct_knives_in (fst cw), ct_knives_out (fst cw))
      (fst (snd s))"
    and "fst (fst s) = held_outputs a b d (in_healthy i)"
proof -
  let ?x = "(i, [ManualIo a b d])"
  have rem: "ctl_remaining (snd ?x) (ct_manual_io_remaining (fst cw)) = MANUAL_IO_WATCHDOG"
    by (simp add: ctl_remaining_def)
  then have r: "0 < ctl_remaining (snd ?x) (ct_manual_io_remaining (fst cw))"
    by (simp add: MANUAL_IO_WATCHDOG_def)
  have body: "fst (ctl_body net bus cw ?x) = (fst (ctl_pre i cw))\<lparr>ct_manual_wrap := a,
      ct_manual_knives_in := b, ct_manual_knives_out := d\<rparr>"
    using ctl_command_manual [of net bus a b d False "fst (ctl_pre i cw)" "snd (ctl_pre i cw)"]
    by (simp add: ctl_body_def ctl_commands_def del: ctl_command_manual)
  show "manual_at 30 (a, b, d) (ct_wrap (fst cw), ct_knives_in (fst cw), ct_knives_out (fst cw))
      (fst (snd s))"
    using rem unfolding s_def
    by (simp add: manual_at_def ctl_step_fields(1) ctl_manual_frame ctl_step_manual(1-3) [OF r] body
        MANUAL_IO_WATCHDOG_def)
  show "fst (fst s) = held_outputs a b d (in_healthy i)"
    unfolding s_def by (auto simp: ctl_step_manual(4) [OF r] body held_outputs_def)
qed

lemma manual_window:
  fixes net :: "'n net_port" and bus :: "'b bus_port" and cw :: "control \<times> ('n, 'b) world"
    and ic :: "inputs \<times> command list"
  assumes "length xs = 29" "\<forall>x\<in>set (xs @ [ic]). no_manual x"
  defines "h \<equiv> in_healthy (fst ic)"
  shows "map fst (run_outs (ctl_step net bus) cw ((i, [ManualIo a b d]) # xs @ [ic])) =
    map (\<lambda>x. held_outputs a b d (in_healthy (fst x))) ((i, [ManualIo a b d]) # xs)
    @ [\<lparr>out_wrap = pe_active (snd (pe_tick SCAN h (ct_wrap (fst cw)))),
       out_knives_in = pe_active (snd (pe_tick SCAN h (ct_knives_in (fst cw)))),
       out_knives_out = pe_active (snd (pe_tick SCAN h (ct_knives_out (fst cw))))\<rparr>]"
proof -
  let ?s = "snd (ctl_step net bus cw (i, [ManualIo a b d]))"
  have at: "manual_at (Suc (length xs)) (a, b, d)
      (ct_wrap (fst cw), ct_knives_in (fst cw), ct_knives_out (fst cw)) (fst ?s)"
    using manual_begins(1) [of a b d cw net bus i] assms(1) by simp
  note r = manual_run [OF at, of net bus]
  have no: "\<forall>x\<in>set xs. no_manual x" "no_manual ic" using assms(2) by simp_all
  show ?thesis
    using r [OF no(1)] manual_begins(2) [of net bus cw i a b d]
      manual_expires [OF conjunct2 [OF r [OF no(1)]] no(2), of net bus]
    by (simp add: run_outs_append h_def)
qed

text \<open>C15. The manual-IO watchdog fails safe: after one manual-IO command the outputs follow the
  held keys (on a healthy bus, knives-in winning over knives-out) for that and the next 29
  cycles, 300 ms, and with no further manual-IO command they are all low in the cycle after,
  whatever else was commanded meanwhile. (No pulse was running when it began.)\<close>

theorem manual_io_fails_safe:
  assumes "\<not> pe_active (ct_wrap (fst cw))" "\<not> ctl_knife_active (fst cw)"
    and "length xs = 29" "\<forall>x\<in>set (xs @ [ic]). no_manual x"
  shows "map fst (run_outs (ctl_step net bus) cw ((i, [ManualIo a b d]) # xs @ [ic])) =
    map (\<lambda>x. held_outputs a b d (in_healthy (fst x))) ((i, [ManualIo a b d]) # xs)
    @ [\<lparr>out_wrap = False, out_knives_in = False, out_knives_out = False\<rparr>]"
  using assms(1,2)
  by (subst manual_window [OF assms(3,4)]) (simp add: ctl_knife_active_def pe_is_active_def)

theorem manual_io_fails_safe_witness:
  "map fst (run_outs (ctl_step sim_network noop_bus) (ctl_init demo_store, demo_world)
      ((demo_inputs, [ManualIo True True True]) # replicate 29 (demo_inputs, [Wrap]) @ [(demo_inputs, [])])) =
    map (\<lambda>x. held_outputs True True True (in_healthy (fst x)))
      ((demo_inputs, [ManualIo True True True]) # replicate 29 (demo_inputs, [Wrap]))
    @ [\<lparr>out_wrap = False, out_knives_in = False, out_knives_out = False\<rparr>]"
  by (rule manual_io_fails_safe)
    (simp_all add: ctl_init_def ctl_knife_active_def pe_is_active_def no_manual_def)

text \<open>C30. A wrap pulse is suspended, not aborted, by manual-IO mode: with no key held it is low
  for the 30 cycles of the watchdog even if the bus is lost and comes back meanwhile, and the
  first cycle after, on a healthy bus, drives the output high again with no new wrap command.\<close>

theorem manual_io_suspends_pulse:
  assumes "pe_at k (ct_wrap (fst cw))" "k < 499"
    and "length xs = 29" "\<forall>x\<in>set (xs @ [ic]). no_manual x" "in_healthy (fst ic)"
  shows "map (\<lambda>os. out_wrap (fst os))
      (run_outs (ctl_step net bus) cw ((i, [ManualIo False False False]) # xs @ [ic]))
    = replicate 30 False @ [True]"
proof -
  have "pe_active (snd (pe_tick SCAN True (ct_wrap (fst cw))))"
    using pe_at_tick [OF assms(1)] assms(2) by (simp add: pe_at_def)
  then have e: "map out_wrap (map fst (run_outs (ctl_step net bus) cw
      ((i, [ManualIo False False False]) # xs @ [ic]))) = map (\<lambda>_. False) ((i, []) # xs) @ [True]"
    using assms(5) unfolding manual_window [OF assms(3,4)] by (simp add: held_outputs_def)
  have "map (\<lambda>_. False) ((i, []) # xs) = replicate 30 False"
    using assms(3) by (simp only: map_replicate_const) simp
  with e show ?thesis by (simp only: map_map comp_def)
qed

theorem manual_io_suspends_pulse_witness:
  "map (\<lambda>os. out_wrap (fst os)) (run_outs (ctl_step sim_network noop_bus)
      (snd (ctl_step sim_network noop_bus (ctl_init demo_store, demo_world) (demo_inputs, [Wrap])))
      ((demo_inputs, [ManualIo False False False])
        # replicate 29 (demo_inputs\<lparr>in_healthy := False\<rparr>, []) @ [(demo_inputs, [])]))
    = replicate 30 False @ [True]"
proof (rule manual_io_suspends_pulse [where k = 1])
  let ?cw = "(ctl_init demo_store, demo_world)"
  have r: "ctl_remaining (snd (demo_inputs, [Wrap])) (ct_manual_io_remaining (fst ?cw)) = 0"
    by (simp add: ctl_remaining_def ctl_init_def)
  have w: "ct_wrap (fst (ctl_body sim_network noop_bus ?cw (demo_inputs, [Wrap]))) =
      snd (pe_trigger (pe_new PULSE))"
    by (subst ctl_body_wrap) (simp_all add: ctl_init_def bs_new_def demo_inputs_def)
  have "pe_at 0 (snd (pe_trigger (pe_new PULSE)))"
    by (rule pe_at_trigger) (simp_all add: pe_wf_new)
  from pe_at_tick [OF this] show "pe_at 1 (ct_wrap (fst (snd (ctl_step sim_network noop_bus ?cw
      (demo_inputs, [Wrap])))))"
    using ctl_step_normal(1) [OF r] w by (simp add: demo_inputs_def [THEN arg_cong, of in_healthy])
qed (simp_all add: no_manual_def demo_inputs_def)

end
