(* ===== verification/ControlEthernet.thy ===== *)
theory ControlEthernet
  imports ControlModes
begin

text \<open>
  Maintenance mode under the control cycle: the pulses are idle in it, the calls on the bus and
  network ports follow the mode, and the address shown is the one the network port promises.
\<close>

subsection \<open>An invariant of the command loop\<close>

text \<open>
  A relation between the control state and the world that the head of the cycle establishes and
  every iteration keeps holds after the loop.
\<close>

lemma ctl_body_invariant:
  fixes net :: "'n net_port" and bus :: "'b bus_port" and cw :: "control \<times> ('n, 'b) world"
  assumes "P (fst (ctl_pre (fst ic) cw)) (snd (ctl_pre (fst ic) cw))"
    and "\<And>cmd g c w. cmd \<in> set (snd ic) \<Longrightarrow> P c w \<Longrightarrow>
      P (fst (snd (ctl_command net bus cmd (g, c, w)))) (snd (snd (ctl_command net bus cmd (g, c, w))))"
  shows "P (fst (ctl_body net bus cw ic)) (snd (ctl_body net bus cw ic))"
proof -
  have "P (fst (snd (fold (ctl_command net bus) (snd ic) (False, ctl_pre (fst ic) cw))))
      (snd (snd (fold (ctl_command net bus) (snd ic) (False, ctl_pre (fst ic) cw))))"
  proof (rule fold_invariant_set [where P = "\<lambda>s. P (fst (snd s)) (snd (snd s))"])
    fix x and t :: "bool \<times> control \<times> ('n, 'b) world"
    assume "x \<in> set (snd ic)" "P (fst (snd t)) (snd (snd t))"
    from assms(2) [OF this, of "fst t"]
    show "P (fst (snd (ctl_command net bus x t))) (snd (snd (ctl_command net bus x t)))" by simp
  qed (use assms(1) in simp)
  then show ?thesis by (simp add: ctl_body_def ctl_commands_def)
qed

lemma ctl_action_mode [simp]:
  "bs_mode (ct_state (fst (ctl_action net bus k r (c, w)))) = bs_mode (ct_state c)"
  by simp

subsection \<open>The pulses are idle in maintenance mode\<close>

definition ctl_pulsing :: "control \<Rightarrow> bool" where
  "ctl_pulsing c \<longleftrightarrow> pe_active (ct_wrap c) \<or> ctl_knife_active c"

lemma ctl_pulsing_any: "ctl_any_active c = ctl_pulsing c"
  by (simp add: ctl_any_active_def ctl_pulsing_def ctl_knife_active_def pe_is_active_def)

lemma ctl_pulsing_pre [simp]: "ctl_pulsing (fst (ctl_pre i cw)) = ctl_pulsing (fst cw)"
  by (simp add: ctl_pulsing_def)

lemma ctl_pulsing_state [simp]: "ctl_pulsing (c\<lparr>ct_state := s\<rparr>) = ctl_pulsing c"
  by (simp add: ctl_pulsing_def ctl_knife_active_def)

text \<open>Only an accepted wrap or knife starts a pulse, and only while operational.\<close>

lemma ctl_command_pulsing:
  assumes "bs_mode (ct_state c) \<noteq> Operational \<longrightarrow> \<not> ctl_pulsing c"
  shows "let c' = fst (snd (ctl_command net bus cmd (g, c, w)))
    in bs_mode (ct_state c') \<noteq> Operational \<longrightarrow> \<not> ctl_pulsing c'"
proof (rule ctl_command_cases [of cmd net bus g c w])
  fix r st
  assume h: "bs_handle cmd (ctl_any_active c) (ct_state c) = (r, st)"
    and e: "ctl_command net bus cmd (g, c, w) =
      (g, ctl_action net bus (ctl_knife_active c) r (c\<lparr>ct_state := st\<rparr>, w))"
  let ?c = "fst (ctl_action net bus (ctl_knife_active c) r (c\<lparr>ct_state := st\<rparr>, w))"
  have st: "bs_mode st = bs_mode (snd (bs_handle cmd (ctl_any_active c) (ct_state c)))"
    by (simp add: h)
  show ?thesis
  proof (cases "r = Inr FireWrap \<or> r = Inr FireKnife")
    case True
    then have "bs_mode (ct_state c) = Operational" "cmd \<noteq> EnterEthernet" "cmd \<noteq> ReturnToEthercat"
      using bs_handle_accepts(1,2) [of cmd "ctl_any_active c" "ct_state c"] h by auto
    then show ?thesis using st by (simp add: e Let_def bs_handle_mode)
  next
    case False
    then have "ctl_pulsing ?c = ctl_pulsing c"
      by (simp add: ctl_pulsing_def ctl_knife_active_def ctl_action_wrap ctl_action_knives)
    then show ?thesis
      using assms st
      by (auto simp: e Let_def bs_handle_mode ctl_pulsing_any split: if_splits)
  qed
qed (use assms in \<open>simp_all add: Let_def ctl_pulsing_def ctl_knife_active_def\<close>)

definition eth_idle :: "control \<Rightarrow> bool" where
  "eth_idle c \<longleftrightarrow> ct_manual_io_remaining c = 0
     \<and> (bs_mode (ct_state c) = Ethernet \<longrightarrow> \<not> ctl_pulsing c)"

lemma no_manual_remaining [simp]: "no_manual ic \<Longrightarrow> ctl_remaining (snd ic) 0 = 0"
  by (auto simp: ctl_remaining_def no_manual_def)

lemma ctl_pulsing_step:
  assumes "ctl_remaining (snd ic) (ct_manual_io_remaining (fst cw)) = 0"
  shows "ctl_pulsing (fst (snd (ctl_step net bus cw ic))) \<Longrightarrow>
    in_healthy (fst ic) \<and> ctl_pulsing (fst (ctl_body net bus cw ic))"
  unfolding ctl_pulsing_def ctl_knife_active_def pe_is_active_def ctl_step_normal(1-3) [OF assms]
  by (cases "in_healthy (fst ic)") (auto dest: pe.tick_only_lowers simp del: pe_tick_idle)

lemma eth_idle_step:
  assumes "eth_idle (fst cw)" "no_manual ic"
  shows "eth_idle (fst (snd (ctl_step net bus cw ic)))"
proof -
  have r: "ctl_remaining (snd ic) (ct_manual_io_remaining (fst cw)) = 0"
    using assms by (simp add: eth_idle_def)
  have "\<not> ctl_pulsing (fst (snd (ctl_step net bus cw ic)))"
    if eth: "bs_mode (ct_state (fst (ctl_body net bus cw ic))) = Ethernet"
  proof (cases "in_healthy (fst ic)")
    case True
    have "bs_mode (ct_state (fst (ctl_body net bus cw ic))) \<noteq> Operational
        \<longrightarrow> \<not> ctl_pulsing (fst (ctl_body net bus cw ic))"
    proof (rule ctl_body_invariant [where
          P = "\<lambda>c w. bs_mode (ct_state c) \<noteq> Operational \<longrightarrow> \<not> ctl_pulsing c"])
      show "bs_mode (ct_state (fst (ctl_pre (fst ic) cw))) \<noteq> Operational
          \<longrightarrow> \<not> ctl_pulsing (fst (ctl_pre (fst ic) cw))"
        using assms(1) True by (simp add: on_bus_health_mode eth_idle_def)
    qed (rule ctl_command_pulsing [unfolded Let_def])
    then show ?thesis using eth ctl_pulsing_step [OF r] by auto
  next
    case False
    then show ?thesis using ctl_pulsing_step [OF r] by auto
  qed
  then show ?thesis using r by (simp add: eth_idle_def ctl_step_fields)
qed

text \<open>Maintenance mode is quiet: over any run from power-up without manual-IO commands, in
  every cycle that shows Ethernet mode all three outputs are low, however the mode was entered
  and whatever the bus reports.\<close>

theorem ethernet_outputs_low:
  fixes net :: "'n net_port" and bus :: "'b bus_port" and w :: "('n, 'b) world"
  assumes "\<forall>ic\<in>set xs. no_manual ic"
    and "(outs, snap) \<in> set (run_outs (ctl_step net bus) (ctl_init counters, w) xs)"
    and "ss_mode snap = Ethernet"
  shows "outs = \<lparr>out_wrap = False, out_knives_in = False, out_knives_out = False\<rparr>"
proof -
  have "(outs, snap) \<in> set (run_outs (ctl_step net bus) cw xs) \<Longrightarrow> ?thesis" if "eth_idle (fst cw)" for cw
    using assms(1) that
  proof (induction xs arbitrary: cw)
    case Nil
    then show ?case by simp
  next
    case (Cons ic xs)
    let ?s = "ctl_step net bus cw ic"
    have no: "no_manual ic" using Cons.prems(2) by simp
    have i: "eth_idle (fst (snd ?s))" by (rule eth_idle_step [OF Cons.prems(3) no])
    show ?case
    proof (cases "(outs, snap) = fst ?s")
      case True
      have r: "ctl_remaining (snd ic) (ct_manual_io_remaining (fst cw)) = 0"
        using Cons.prems(3) no by (simp add: eth_idle_def)
      have "snap = ctl_snapshot (fst (snd ?s))"
        using arg_cong [OF True, of snd] by (simp add: ctl_snapshot_after)
      then have "\<not> ctl_pulsing (fst (snd ?s))"
        using i assms(3) by (simp add: eth_idle_def ctl_snapshot_def Let_def)
      moreover have "outs = fst (fst ?s)" using True by (metis fst_conv)
      ultimately show ?thesis
        by (intro outputs.equality)
          (simp_all add: ctl_step_normal(4-6) [OF r] ctl_pulsing_def ctl_knife_active_def
            pe_is_active_def del: pe_tick_idle)
    next
      case False
      then show ?thesis using Cons.IH [OF _ _ i] Cons.prems(1,2) by simp
    qed
  qed
  moreover have "eth_idle (fst (ctl_init counters, w))" by (simp add: eth_idle_def ctl_init_def bs_new_def)
  ultimately show ?thesis using assms(2) by blast
qed

theorem ethernet_outputs_low_witness:
  "fst (fst (ctl_step sim_network noop_bus (ctl_init demo_store, demo_world) (demo_inputs, [EnterEthernet, Wrap])))
    = \<lparr>out_wrap = False, out_knives_in = False, out_knives_out = False\<rparr>"
proof (rule ethernet_outputs_low)
  show "\<forall>ic\<in>set [(demo_inputs, [EnterEthernet, Wrap])]. no_manual ic" by (simp add: no_manual_def)
  show "(fst (fst (ctl_step sim_network noop_bus (ctl_init demo_store, demo_world) (demo_inputs, [EnterEthernet, Wrap]))),
      snd (fst (ctl_step sim_network noop_bus (ctl_init demo_store, demo_world) (demo_inputs, [EnterEthernet, Wrap]))))
    \<in> set (run_outs (ctl_step sim_network noop_bus) (ctl_init demo_store, demo_world)
        [(demo_inputs, [EnterEthernet, Wrap])])" by simp
  show "ss_mode (snd (fst (ctl_step sim_network noop_bus (ctl_init demo_store, demo_world)
      (demo_inputs, [EnterEthernet, Wrap])))) = Ethernet" by code_simp
qed

subsection \<open>The calls on the bus port\<close>

text \<open>A bus port that records the calls made on it: a suspend as \<open>True\<close>, a restart as \<open>False\<close>.\<close>

definition log_bus :: "bool list bus_port" where
  "log_bus = \<lparr>bp_suspend = (\<lambda>l. l @ [True]), bp_restart = (\<lambda>l. l @ [False])\<rparr>"

lemma log_bus_simps [simp]:
  "bp_suspend log_bus l = l @ [True]"
  "bp_restart log_bus l = l @ [False]"
  by (simp_all add: log_bus_def)

definition log_ok :: "control \<Rightarrow> ('n, bool list) world \<Rightarrow> bool" where
  "log_ok c w \<longleftrightarrow> w_bus w = map even [0..<length (w_bus w)]
     \<and> (odd (length (w_bus w)) \<longleftrightarrow> bs_mode (ct_state c) = Ethernet)"

lemma ctl_action_switch:
  "w_bus (snd (ctl_action net bus k (Inr SwitchToEthernet) (c, w))) = bp_suspend bus (w_bus w)"
  "w_bus (snd (ctl_action net bus k (Inr SwitchToEthercat) (c, w))) = bp_restart bus (w_bus w)"
  "w_net (snd (ctl_action net bus k (Inr SwitchToEthernet) (c, w))) = snd (np_enter_ethernet net (w_net w))"
  "w_net (snd (ctl_action net bus k (Inr SwitchToEthercat) (c, w))) = snd (np_enter_ethercat net (w_net w))"
  by (simp_all add: ctl_action_def Let_def split_beta)

lemma log_ok_command:
  assumes "log_ok c w"
  shows "log_ok (fst (snd (ctl_command net log_bus cmd (g, c, w))))
    (snd (snd (ctl_command net log_bus cmd (g, c, w))))"
proof (rule ctl_command_cases [of cmd net log_bus g c w])
  fix r st
  assume h: "bs_handle cmd (ctl_any_active c) (ct_state c) = (r, st)"
    and e: "ctl_command net log_bus cmd (g, c, w) =
      (g, ctl_action net log_bus (ctl_knife_active c) r (c\<lparr>ct_state := st\<rparr>, w))"
  have st: "bs_mode st =
      (if cmd = EnterEthernet \<and> \<not> (bs_mode (ct_state c) = Operational \<and> ctl_any_active c) then Ethernet
       else if cmd = ReturnToEthercat \<and> bs_mode (ct_state c) = Ethernet then Initializing
       else bs_mode (ct_state c))"
    using bs_handle_mode [of cmd "ctl_any_active c" "ct_state c"] h by simp
  consider (eth) "r = Inr SwitchToEthernet" | (ecat) "r = Inr SwitchToEthercat"
    | (other) "r \<noteq> Inr SwitchToEthernet" "r \<noteq> Inr SwitchToEthercat" by blast
  then show ?thesis
  proof cases
    case eth
    then have "cmd = EnterEthernet" "bs_mode (ct_state c) \<noteq> Ethernet"
        "\<not> (bs_mode (ct_state c) = Operational \<and> ctl_any_active c)"
      using bs_handle_accepts(3) [of cmd "ctl_any_active c" "ct_state c"] h by simp_all
    then show ?thesis
      using assms st unfolding e eth by (simp add: log_ok_def ctl_action_switch)
  next
    case ecat
    then have "cmd = ReturnToEthercat" "bs_mode (ct_state c) = Ethernet"
      using bs_handle_accepts(4) [of cmd "ctl_any_active c" "ct_state c"] h by simp_all
    then show ?thesis
      using assms st unfolding e ecat by (simp add: log_ok_def ctl_action_switch)
  next
    case other
    have "bs_mode st = bs_mode (ct_state c)"
      using other bs_handle_accepts(3,4) [of cmd "ctl_any_active c" "ct_state c"] h
      unfolding st by auto
    then show ?thesis using assms ctl_action_ports [OF other, of net log_bus] by (simp add: e log_ok_def)
  qed
qed (use assms in \<open>simp_all add: log_ok_def\<close>)

text \<open>C22. Over every run from power-up the EtherCAT master is suspended and restarted strictly in
  turn, the suspend first, and the last call is a suspend exactly while the mode is Ethernet: no
  second suspend, no restart out of the blue, none missed.\<close>

theorem bus_calls_alternate:
  "(c', w') = run_end (ctl_step net log_bus) (ctl_init counters, \<lparr>w_fs = f, w_net = n, w_bus = []\<rparr>) xs
   \<Longrightarrow> w_bus w' = map even [0..<length (w_bus w')]
     \<and> (odd (length (w_bus w')) \<longleftrightarrow> ss_mode (ctl_snapshot c') = Ethernet)"
proof -
  have step: "log_ok (fst (snd (ctl_step net log_bus cw ic))) (snd (snd (ctl_step net log_bus cw ic)))"
    if "log_ok (fst cw) (snd cw)" for cw and ic
  proof -
    have "log_ok (fst (ctl_body net log_bus cw ic)) (snd (ctl_body net log_bus cw ic))"
      by (rule ctl_body_invariant [where P = log_ok])
        (use that log_ok_command in \<open>simp_all add: log_ok_def on_bus_health_mode\<close>)
    then show ?thesis by (simp add: log_ok_def ctl_step_fields)
  qed
  have run: "log_ok (fst (run_end (ctl_step net log_bus) cw xs)) (snd (run_end (ctl_step net log_bus) cw xs))"
    if "log_ok (fst cw) (snd cw)" for cw
    using that by (induction xs arbitrary: cw) (simp_all add: step)
  assume e: "(c', w') = run_end (ctl_step net log_bus)
      (ctl_init counters, \<lparr>w_fs = f, w_net = n, w_bus = []\<rparr>) xs"
  have "log_ok c' w'"
    using run [of "(ctl_init counters, \<lparr>w_fs = f, w_net = n, w_bus = []\<rparr>)"]
    unfolding e [symmetric] by (simp add: log_ok_def ctl_init_def bs_new_def)
  then show ?thesis by (simp add: log_ok_def ctl_snapshot_def Let_def)
qed

theorem bus_calls_alternate_witness:
  "\<exists>c' w'. (c', w') = run_end (ctl_step sim_network log_bus)
      (ctl_init demo_store, \<lparr>w_fs = empty_fs, w_net = (), w_bus = []\<rparr>)
      [(demo_inputs, [EnterEthernet, EnterEthernet]), (demo_inputs, [ReturnToEthercat])]
    \<and> w_bus w' = map even [0..<length (w_bus w')]"
  by (metis bus_calls_alternate surj_pair)

subsection \<open>The address shown\<close>

context network_controller
begin

lemma command_ip:
  assumes "static_ip (w_net w) = a \<and> (\<forall>ip. ct_last_ip c = Some ip \<longrightarrow> ip = a)"
  shows "static_ip (w_net (snd (snd (ctl_command port bus cmd (g, c, w))))) = a
    \<and> (\<forall>ip. ct_last_ip (fst (snd (ctl_command port bus cmd (g, c, w)))) = Some ip \<longrightarrow> ip = a)"
proof (rule ctl_command_cases [of cmd port bus g c w])
  fix r st
  assume e: "ctl_command port bus cmd (g, c, w) =
      (g, ctl_action port bus (ctl_knife_active c) r (c\<lparr>ct_state := st\<rparr>, w))"
  show ?thesis
  proof (cases r)
    case (Inl x)
    then show ?thesis using assms by (simp add: e ctl_action_def)
  next
    case (Inr x)
    then show ?thesis
      using assms eth_static ecat_static eth_result_ip
      by (cases x) (auto simp: e ctl_action_def Let_def split_beta split: sum.splits)
  qed
qed (use assms in simp_all)

lemma step_ip:
  assumes "static_ip (w_net (snd cw)) = a \<and> (\<forall>ip. ct_last_ip (fst cw) = Some ip \<longrightarrow> ip = a)"
  shows "static_ip (w_net (snd (snd (ctl_step port bus cw ic)))) = a
    \<and> (\<forall>ip. ct_last_ip (fst (snd (ctl_step port bus cw ic))) = Some ip \<longrightarrow> ip = a)"
proof -
  have "static_ip (w_net (snd (ctl_body port bus cw ic))) = a
    \<and> (\<forall>ip. ct_last_ip (fst (ctl_body port bus cw ic)) = Some ip \<longrightarrow> ip = a)"
    by (rule ctl_body_invariant [where
          P = "\<lambda>c w. static_ip (w_net w) = a \<and> (\<forall>ip. ct_last_ip c = Some ip \<longrightarrow> ip = a)"])
      (use assms command_ip in simp_all)
  then show ?thesis
    unfolding ctl_step_fields .
qed

lemma run_ip:
  assumes "ct_last_ip (fst cw) = None"
  shows "ct_last_ip (fst (run_end (ctl_step port bus) cw xs)) = Some ip \<Longrightarrow>
    ip = static_ip (w_net (snd cw))"
proof -
  have "static_ip (w_net (snd (run_end (ctl_step port bus) cw xs))) = a
      \<and> (\<forall>ip. ct_last_ip (fst (run_end (ctl_step port bus) cw xs)) = Some ip \<longrightarrow> ip = a)"
    if "static_ip (w_net (snd cw)) = a \<and> (\<forall>ip. ct_last_ip (fst cw) = Some ip \<longrightarrow> ip = a)" for cw a
    using that
  proof (induction xs arbitrary: cw)
    case Nil
    then show ?case by simp
  next
    case (Cons ic xs)
    then show ?case using Cons.IH [OF step_ip [OF Cons.prems]] by simp
  qed
  from this [of cw "static_ip (w_net (snd cw))"]
  show "ct_last_ip (fst (run_end (ctl_step port bus) cw xs)) = Some ip \<Longrightarrow>
    ip = static_ip (w_net (snd cw))" using assms by simp
qed

end

end
