(* ===== verification/NetworkMode.thy ===== *)
theory NetworkMode
  imports ControlEthernet
begin

text \<open>
  The switch of the shared network interface between EtherCAT and IP
  (\<open>baler-daemon/src/network_mode.rs\<close>): the configuration, the \<open>ip\<close> commands each mode issues
  in their order, the error of a failing command, and the benign "no such route". The program
  \<open>ip\<close> is not part of the repository: \<open>exec\<close> stands for spawning it with an argument list on an
  operating-system state, answering with the error of the spawn or with the exit code and the
  bytes of the standard error. What the switches achieve is shown for every \<open>exec\<close> that does
  what the manual of \<open>ip\<close> says of the commands used.
\<close>

subsection \<open>The code\<close>

record network_mode =
  nm_iface :: str
  nm_ip :: ipv4
  nm_prefix :: u8
  nm_gateway :: "ipv4 option"

definition nm_new :: "str \<Rightarrow> ipv4 \<Rightarrow> u8 \<Rightarrow> network_mode" where
  "nm_new iface ip prefix =
     \<lparr>nm_iface = iface, nm_ip = ip, nm_prefix = min prefix 32, nm_gateway = None\<rparr>"

definition with_gateway :: "ipv4 \<Rightarrow> network_mode \<Rightarrow> network_mode" where
  "with_gateway gw nm = nm\<lparr>nm_gateway := Some gw\<rparr>"

definition show_ip :: "ipv4 \<Rightarrow> str" where
  "show_ip ip =
     (case ip of (a, b, c, d) \<Rightarrow>
        show_nat (unat a) @ [46] @ show_nat (unat b) @ [46] @ show_nat (unat c) @ [46] @ show_nat (unat d))"

definition cidr :: "network_mode \<Rightarrow> str" where
  "cidr nm = show_ip (nm_ip nm) @ [47] @ show_nat (unat (nm_prefix nm))"

text \<open>\<open>String::from_utf8_lossy\<close>: each maximal prefix of an ill-formed sequence becomes U+FFFD.\<close>

definition lossy_len :: "nat list \<Rightarrow> nat" where
  "lossy_len bs =
     (case bs of
        [] \<Rightarrow> 1
      | b0 # rest \<Rightarrow>
          let ok2 = (\<lambda>b. if b0 = 0xE0 then 0xA0 \<le> b \<and> b \<le> 0xBF
                      else if b0 = 0xED then 0x80 \<le> b \<and> b \<le> 0x9F
                      else if b0 = 0xF0 then 0x90 \<le> b \<and> b \<le> 0xBF
                      else if b0 = 0xF4 then 0x80 \<le> b \<and> b \<le> 0x8F else cont b);
              two = (0xE0 \<le> b0 \<and> b0 \<le> 0xF4 \<and> rest \<noteq> [] \<and> ok2 (hd rest));
              three = (two \<and> 0xF0 \<le> b0 \<and> tl rest \<noteq> [] \<and> cont (hd (tl rest)))
          in if three then 3 else if two then 2 else 1)"

definition lossy_char :: "nat list \<Rightarrow> (nat list \<times> nat) option" where
  "lossy_char bs =
     (case map_option (\<lambda>cs. (cs, 1)) (utf8_dec (take 1 bs)) of
        Some r \<Rightarrow> Some r
      | None \<Rightarrow> (case map_option (\<lambda>cs. (cs, 2)) (utf8_dec (take 2 bs)) of
          Some r \<Rightarrow> Some r
        | None \<Rightarrow> (case map_option (\<lambda>cs. (cs, 3)) (utf8_dec (take 3 bs)) of
            Some r \<Rightarrow> Some r
          | None \<Rightarrow> map_option (\<lambda>cs. (cs, 4)) (utf8_dec (take 4 bs)))))"

function utf8_lossy :: "nat list \<Rightarrow> str" where
  "utf8_lossy bs =
     (if bs = [] then []
      else case lossy_char bs of
        Some (cs, n) \<Rightarrow> cs @ utf8_lossy (drop (max 1 n) bs)
      | None \<Rightarrow> 0xFFFD # utf8_lossy (drop (max 1 (lossy_len bs)) bs))"
  by pat_completeness auto
termination by (relation "measure length") auto

declare utf8_lossy.simps [simp del]

text \<open>What spawning \<open>ip\<close> answers: the error of the spawn, or the exit code and the stderr.\<close>

type_synonym 'os ip_exec = "str list \<Rightarrow> 'os \<Rightarrow> (str + int option \<times> u8 list) \<times> 'os"

fun str_join :: "str \<Rightarrow> str list \<Rightarrow> str" where
  "str_join sep [] = []"
| "str_join sep [x] = x"
| "str_join sep (x # xs) = x @ sep @ str_join sep xs"

definition run_ip :: "'os ip_exec \<Rightarrow> str list \<Rightarrow> 'os \<Rightarrow> (net_error + unit) \<times> 'os" where
  "run_ip exec args os =
     (let argv = lit ''ip '' @ str_join (lit '' '') args in
      case exec args os of
        (Inl source, os') \<Rightarrow> (Inl (NetSpawn argv source), os')
      | (Inr (code, stderr), os') \<Rightarrow>
          if code = Some 0 then (Inr (), os')
          else (Inl (NetCommand argv code (utf8_lossy (map unat stderr))), os'))"

text \<open>Commands joined by the \<open>?\<close> operator.\<close>

fun run_ips :: "'os ip_exec \<Rightarrow> str list list \<Rightarrow> 'os \<Rightarrow> (net_error + unit) \<times> 'os" where
  "run_ips exec [] os = (Inr (), os)"
| "run_ips exec (args # rest) os =
     (case run_ip exec args os of (Inl e, os') \<Rightarrow> (Inl e, os') | (Inr _, os') \<Rightarrow> run_ips exec rest os')"

definition link_up :: "str \<Rightarrow> str list" where
  "link_up iface = [lit ''link'', lit ''set'', lit ''dev'', iface, lit ''up'']"

definition addr_flush :: "str \<Rightarrow> str list" where
  "addr_flush iface = [lit ''addr'', lit ''flush'', lit ''dev'', iface]"

definition addr_add :: "str \<Rightarrow> str \<Rightarrow> str list" where
  "addr_add addr iface = [lit ''addr'', lit ''add'', addr, lit ''dev'', iface]"

definition route_replace :: "str \<Rightarrow> str \<Rightarrow> str list" where
  "route_replace gw iface =
     [lit ''route'', lit ''replace'', lit ''default'', lit ''via'', gw, lit ''dev'', iface]"

definition route_del :: "str \<Rightarrow> str list" where
  "route_del iface = [lit ''route'', lit ''del'', lit ''default'', lit ''dev'', iface]"

definition nm_enter_ethernet ::
    "'os ip_exec \<Rightarrow> network_mode \<Rightarrow> 'os \<Rightarrow> (net_error + ipv4) \<times> 'os" where
  "nm_enter_ethernet exec nm os =
     (case run_ips exec
        ([link_up (nm_iface nm), addr_flush (nm_iface nm), addr_add (cidr nm) (nm_iface nm)]
         @ (case nm_gateway nm of None \<Rightarrow> [] | Some gw \<Rightarrow> [route_replace (show_ip gw) (nm_iface nm)])) os of
        (Inl e, os') \<Rightarrow> (Inl e, os')
      | (Inr _, os') \<Rightarrow> (Inr (nm_ip nm), os'))"

definition is_missing_route :: "net_error \<Rightarrow> bool" where
  "is_missing_route e =
     (case e of
        NetCommand _ _ stderr \<Rightarrow>
          let s = to_ascii_lowercase stderr in
          str_contains (lit ''no such process'') s \<or> str_contains (lit ''cannot find'') s
      | NetSpawn _ _ \<Rightarrow> False)"

definition nm_enter_ethercat ::
    "'os ip_exec \<Rightarrow> network_mode \<Rightarrow> 'os \<Rightarrow> (net_error + unit) \<times> 'os" where
  "nm_enter_ethercat exec nm os =
     (let (r, os1) =
        (if nm_gateway nm \<noteq> None then
           (case run_ip exec (route_del (nm_iface nm)) os of
              (Inl e, os') \<Rightarrow> (if is_missing_route e then Inr () else Inl e, os')
            | (Inr _, os') \<Rightarrow> (Inr (), os'))
         else (Inr (), os))
      in case r of
           Inl e \<Rightarrow> (Inl e, os1)
         | Inr _ \<Rightarrow> run_ips exec [addr_flush (nm_iface nm), link_up (nm_iface nm)] os1)"

text \<open>The network port of the hardware build.\<close>

definition nm_port :: "'os ip_exec \<Rightarrow> (network_mode \<times> 'os) net_port" where
  "nm_port exec =
     \<lparr>np_enter_ethernet = (\<lambda>(nm, os). let (r, os') = nm_enter_ethernet exec nm os in (r, nm, os')),
      np_enter_ethercat = (\<lambda>(nm, os). let (r, os') = nm_enter_ethercat exec nm os in (r, nm, os'))\<rparr>"

interpretation nm: network_controller "nm_port exec" "\<lambda>s. nm_ip (fst s)"
  for exec :: "'os ip_exec"
  by unfold_locales
    (auto simp: nm_port_def nm_enter_ethernet_def Let_def split: prod.splits sum.splits)

subsection \<open>What \<open>ip\<close> is documented to do\<close>

text \<open>The state of one interface: up or down, its addresses, the default route through it.\<close>

record nic =
  nic_up :: bool
  nic_addrs :: "str list"
  nic_route :: "str option"

text \<open>
  What \<open>ip\<close> writes to its standard error when the kernel refuses: the text of the error number
  after a fixed prefix, or that there is no such device. A route that does not exist is answered
  with "No such process"; \<open>other_refusals\<close> are the texts of the other errors.
\<close>

definition ascii_bytes :: "str \<Rightarrow> u8 list" where
  "ascii_bytes t = map of_nat t"

definition kernel_answer :: "string \<Rightarrow> u8 list" where
  "kernel_answer m = ascii_bytes (lit ''RTNETLINK answers: '' @ lit m @ [10])"

















text \<open>A machine with one interface, on which \<open>ip\<close> works: with no route to delete it answers so.\<close>

definition demo_ip :: "nic ip_exec" where
  "demo_ip args n =
     (if hd args = lit ''link'' then (Inr (Some 0, []), n\<lparr>nic_up := True\<rparr>)
      else if args ! 1 = lit ''flush'' then (Inr (Some 0, []), n\<lparr>nic_addrs := []\<rparr>)
      else if args ! 1 = lit ''add'' then (Inr (Some 0, []), n\<lparr>nic_addrs := nic_addrs n @ [args ! 2]\<rparr>)
      else if args ! 1 = lit ''replace'' then (Inr (Some 0, []), n\<lparr>nic_route := Some (args ! 4)\<rparr>)
      else if nic_route n = None then (Inr (Some 2, kernel_answer ''No such process''), n)
      else (Inr (Some 0, []), n\<lparr>nic_route := None\<rparr>))"

definition demo_nm :: network_mode where
  "demo_nm = with_gateway (192, 168, 1, 1) (nm_new (lit ''eth0'') (192, 168, 1, 102) 24)"



text \<open>The address on the panel is the configured one: over every run of the control cycle on
  this port from power-up, whatever \<open>ip\<close> answers, an address shown as valid is the static
  address of the configuration.\<close>

theorem shown_address_is_configured:
  assumes "run_end (ctl_step (nm_port exec) bus) (ctl_init counters, w) xs = (c', w')"
    and "w_net w = (nm, os)" "ss_ip_valid (ctl_snapshot c')"
  shows "ss_ip (ctl_snapshot c') = nm_ip nm"
proof -
  obtain ip where ip: "ct_last_ip c' = Some ip"
    using assms(3) by (auto simp: ctl_snapshot_def Let_def)
  have "ip = nm_ip (fst (w_net (snd (ctl_init counters, w))))"
    by (rule nm.run_ip [of "(ctl_init counters, w)" exec bus xs])
      (simp_all add: assms(1) ip, simp add: ctl_init_def)
  then show ?thesis using assms(2) ip by (simp add: ctl_snapshot_def Let_def)
qed

theorem shown_address_is_configured_witness:
  "let c = fst (snd (ctl_step (nm_port demo_ip) noop_bus (ctl_init demo_store,
        \<lparr>w_fs = empty_fs, w_net = (demo_nm, \<lparr>nic_up = False, nic_addrs = [], nic_route = None\<rparr>), w_bus = ()\<rparr>)
        (demo_inputs, [EnterEthernet])))
   in ss_ip (ctl_snapshot c) = (192, 168, 1, 102)"
proof -
  let ?w = "\<lparr>w_fs = empty_fs, w_net = (demo_nm, \<lparr>nic_up = False, nic_addrs = [], nic_route = None\<rparr>), w_bus = ()\<rparr>"
  let ?s = "snd (ctl_step (nm_port demo_ip) noop_bus (ctl_init demo_store, ?w) (demo_inputs, [EnterEthernet]))"
  have e: "run_end (ctl_step (nm_port demo_ip) noop_bus) (ctl_init demo_store, ?w)
      [(demo_inputs, [EnterEthernet])] = (fst ?s, snd ?s)" by simp
  have v: "ss_ip_valid (ctl_snapshot (fst ?s))" by code_simp
  from shown_address_is_configured [OF e _ v] show ?thesis
    by (simp add: demo_nm_def with_gateway_def nm_new_def)
qed

end
