(* ===== verification/Channel.thy ===== *)
theory Channel
  imports Ports
begin

text \<open>
  The channel handles and codecs at the edge of the program. The typed channels themselves, the
  postcard format and the JSON values are libraries the repository only calls, so they are
  parameters: a reader is its \<open>try_recv\<close>, a writer its \<open>send\<close>, on a state of their own. Here are
  the two codecs (\<open>baler-core/src/codec.rs\<close>, and \<open>RawByteCodec\<close> of
  \<open>baler-daemon/src/ethercat_io.rs\<close>), the loop that drains a reader, which need not end, and what
  it returns on a reader that hands out a finite backlog in order.
\<close>

subsection \<open>Codecs\<close>

text \<open>The variants of \<open>ConnectorError\<close> the program builds.\<close>

datatype connector_error =
    CodecError str str
  | StackError str
  | PayloadOverflow nat nat

text \<open>\<open>to_slice\<close> answers with the used bytes and the buffer; the codec keeps their number.\<close>

definition postcard_encode ::
  "('t \<Rightarrow> u8 list \<Rightarrow> (str + u8 list) \<times> u8 list) \<Rightarrow> 't \<Rightarrow> u8 list \<Rightarrow> (connector_error + nat) \<times> u8 list" where
  "postcard_encode to_slice v buf =
     (case to_slice v buf of
        (Inl e, buf') \<Rightarrow> (Inl (CodecError (lit ''postcard'') e), buf')
      | (Inr used, buf') \<Rightarrow> (Inr (length used), buf'))"

definition postcard_decode :: "(u8 list \<Rightarrow> str + 't) \<Rightarrow> u8 list \<Rightarrow> connector_error + 't" where
  "postcard_decode from_bytes buf = map_sum (CodecError (lit ''postcard'')) id (from_bytes buf)"

definition raw_encode ::
  "('t \<Rightarrow> str + 'j) \<Rightarrow> ('j \<Rightarrow> u64 option) \<Rightarrow> 't \<Rightarrow> u8 list \<Rightarrow> (connector_error + nat) \<times> u8 list" where
  "raw_encode to_value as_u64 v buf =
     (case to_value v of
        Inl e \<Rightarrow> (Inl (CodecError (lit ''raw-byte'') e), buf)
      | Inr j \<Rightarrow>
          (case as_u64 j of
             None \<Rightarrow> (Inl (CodecError (lit ''raw-byte'') (lit ''expected u8-like integer'')), buf)
           | Some n \<Rightarrow>
               if 256 \<le> n then
                 (Inl (CodecError (lit ''raw-byte'') (lit ''value does not fit in u8'')), buf)
               else if buf = [] then (Inl (PayloadOverflow 1 0), buf)
               else (Inr 1, buf[0 := ucast n])))"

definition raw_decode :: "('j \<Rightarrow> str + 't) \<Rightarrow> (u8 \<Rightarrow> 'j) \<Rightarrow> u8 list \<Rightarrow> connector_error + 't" where
  "raw_decode from_value number buf =
     (if buf = [] then
        Inl (CodecError (lit ''raw-byte'') (lit ''empty buffer; expected exactly 1 byte''))
      else map_sum (CodecError (lit ''raw-byte'')) id (from_value (number (hd buf))))"

subsection \<open>Draining a reader\<close>

type_synonym ('r, 'a) try_recv = "'r \<Rightarrow> (connector_error + 'a option) \<times> 'r"
type_synonym ('w, 'a) send = "'a \<Rightarrow> 'w \<Rightarrow> (connector_error + unit) \<times> 'w"

text \<open>\<open>while let Ok(Some(env)) = rx.try_recv() { out.push(env.value) }\<close>\<close>

partial_function (option) drain_loop ::
    "('r, 'a) try_recv \<Rightarrow> 'a list \<Rightarrow> 'r \<Rightarrow> ('a list \<times> 'r) option" where
  "drain_loop recv out r =
     (case recv r of
        (Inr (Some v), r') \<Rightarrow> drain_loop recv (out @ [v]) r'
      | (_, r') \<Rightarrow> Some (out, r'))"

text \<open>The values received before the first empty or failed receive, when there is one.\<close>

primrec backlog :: "('r, 'a) try_recv \<Rightarrow> nat \<Rightarrow> 'r \<Rightarrow> ('a list \<times> 'r) option" where
  "backlog recv 0 r = None"
| "backlog recv (Suc n) r =
     (case recv r of
        (Inr (Some v), r') \<Rightarrow> map_option (\<lambda>(vs, s). (v # vs, s)) (backlog recv n r')
      | (_, r') \<Rightarrow> Some ([], r'))"

lemma drain_loop_backlog:
  "backlog recv n r = Some (vs, s) \<Longrightarrow> drain_loop recv out r = Some (out @ vs, s)"
proof (induction n arbitrary: r out vs)
  case 0
  then show ?case by simp
next
  case (Suc n)
  then show ?case
    by (subst drain_loop.simps) (auto split: prod.splits sum.splits option.splits)
qed

text \<open>A reader over a queue in memory, the demonstration instance of the parameter.\<close>

definition queue_recv :: "('a list, 'a) try_recv" where
  "queue_recv q = (case q of [] \<Rightarrow> (Inr None, []) | v # vs \<Rightarrow> (Inr (Some v), vs))"

lemma queue_backlog: "backlog queue_recv (Suc (length q)) q = Some (q, [])"
  by (induction q) (simp_all add: queue_recv_def)

subsection \<open>The codecs round-trip\<close>

text \<open>The documented laws of the JSON library on bytes.\<close>

definition json_bytes_documented ::
  "(u8 \<Rightarrow> str + 'j) \<Rightarrow> ('j \<Rightarrow> u64 option) \<Rightarrow> ('j \<Rightarrow> str + u8) \<Rightarrow> (u8 \<Rightarrow> 'j) \<Rightarrow> bool" where
  "json_bytes_documented to_value as_u64 from_value number \<longleftrightarrow>
     (\<forall>b. to_value b = Inr (number b) \<and> as_u64 (number b) = Some (ucast b)
        \<and> from_value (number b) = Inr b)"

lemma ucast_byte: "ucast (ucast b :: u64) = (b :: u8)"
  by (simp add: ucast_up_ucast_id is_up_def source_size_def target_size_def)

lemma byte_fits: "\<not> 256 \<le> (ucast (b :: u8) :: u64)"
proof -
  have "unat (ucast b :: u64) < 256"
    using unat_bound [of b] by (simp add: unsigned_ucast_eq take_bit_nat_eq_self)
  then show ?thesis by (simp add: word_le_nat_alt)
qed

text \<open>The process-image codec carries a byte unchanged and writes exactly one: encoding into
  any non-empty buffer and decoding what was written gives the byte back; an empty buffer is an
  error on both sides and never a truncation.\<close>

theorem raw_byte_roundtrip:
  assumes "json_bytes_documented to_value as_u64 from_value number"
  shows "raw_encode to_value as_u64 b buf =
      (if buf = [] then (Inl (PayloadOverflow 1 0), []) else (Inr 1, b # tl buf))
    \<and> (buf \<noteq> [] \<longrightarrow>
        raw_decode from_value number (take 1 (snd (raw_encode to_value as_u64 b buf))) = Inr b)
    \<and> (\<exists>e. raw_decode from_value number [] = Inl e)"
proof -
  have law: "to_value b = Inr (number b)" "as_u64 (number b) = Some (ucast b)"
      "from_value (number b) = Inr b"
    using assms by (auto simp: json_bytes_documented_def)
  have enc: "raw_encode to_value as_u64 b buf =
      (if buf = [] then (Inl (PayloadOverflow 1 0), []) else (Inr 1, b # tl buf))"
    using byte_fits [of b] by (cases buf) (simp_all add: raw_encode_def law ucast_byte)
  then show ?thesis by (auto simp: raw_decode_def law)
qed

theorem raw_byte_roundtrip_witness:
  "raw_decode (\<lambda>j. Inr j) (\<lambda>b. b)
     (take 1 (snd (raw_encode (\<lambda>b. Inr b) (\<lambda>j. Some (ucast j)) (5 :: u8) [0, 7]))) = Inr 5"
proof -
  have "json_bytes_documented (\<lambda>b. Inr b) (\<lambda>j. Some (ucast j)) (\<lambda>j. Inr j) (\<lambda>b. b)"
    by (simp add: json_bytes_documented_def)
  from raw_byte_roundtrip [OF this, of 5 "[0, 7]"] show ?thesis by blast
qed

end
