(* ===== verification/Bringup.thy ===== *)
theory Bringup
  imports Prelude
begin

text \<open>
  The transport bring-up policy (\<open>baler-core/src/bringup.rs\<close>): \<open>retry_open\<close>, generic in the
  resource, the error, the classifier and the closures. A closure that mutates its captures is
  a function on a world \<open>'w\<close>, threaded through the calls in the order the code makes them. The
  lemmas describe the worlds of the successive attempts and show the result of the loop in
  every case: the first success, or the last error when the attempts are used up.
\<close>

subsection \<open>The code\<close>

function retry_loop ::
  "u32 \<Rightarrow> ('w \<Rightarrow> ('e + 't) \<times> 'w) \<Rightarrow> ('e \<Rightarrow> bool) \<Rightarrow> ('w \<Rightarrow> 'w) \<Rightarrow> (u32 \<Rightarrow> 'w \<Rightarrow> 'w)
   \<Rightarrow> u32 \<Rightarrow> 'w \<Rightarrow> ('e + 't) \<times> 'w" where
  "retry_loop max_attempts open_it is_corrupted cleanup backoff attempt w =
     (case open_it w of
        (Inr v, w1) \<Rightarrow> (Inr v, w1)
      | (Inl e, w1) \<Rightarrow>
          let w2 = (if is_corrupted e then cleanup w1 else w1) in
          if max_attempts \<le> attempt then (Inl e, w2)
          else retry_loop max_attempts open_it is_corrupted cleanup backoff (attempt + 1)
                 (backoff attempt w2))"
  by pat_completeness auto
termination
proof (relation "measure (\<lambda>(m, _, _, _, _, a, _). unat m - unat a)")
  show "wf (measure (\<lambda>(m, _, _, _, _, a, _). unat m - unat a))" by simp
next
  fix m attempt :: u32
  assume "\<not> m \<le> attempt"
  then have "unat attempt < unat m" by (simp add: word_le_nat_alt)
  then have "unat m - unat (attempt + 1) < unat m - unat attempt"
    using unat_succ [of attempt m] by simp
  then show "((m, op, isc, cl, bo, attempt + 1, v), m, op, isc, cl, bo, attempt, w)
      \<in> measure (\<lambda>(m, _, _, _, _, a, _). unat m - unat a)" for op isc cl bo v w
    by simp
qed

definition retry_open ::
  "u32 \<Rightarrow> ('w \<Rightarrow> ('e + 't) \<times> 'w) \<Rightarrow> ('e \<Rightarrow> bool) \<Rightarrow> ('w \<Rightarrow> 'w) \<Rightarrow> (u32 \<Rightarrow> 'w \<Rightarrow> 'w)
   \<Rightarrow> 'w \<Rightarrow> ('e + 't) \<times> 'w" where
  "retry_open max_attempts open_it is_corrupted cleanup backoff w =
     retry_loop max_attempts open_it is_corrupted cleanup backoff 1 w"

declare retry_loop.simps [simp del]

subsection \<open>The worlds of the attempts\<close>

text \<open>After an attempt: the cleanup hook has run if the error was a corruption.\<close>

definition settle :: "('e \<Rightarrow> bool) \<Rightarrow> ('w \<Rightarrow> 'w) \<Rightarrow> ('e + 't) \<times> 'w \<Rightarrow> 'w" where
  "settle is_corrupted cleanup rw =
     (case rw of (Inl e, w) \<Rightarrow> if is_corrupted e then cleanup w else w | (Inr v, w) \<Rightarrow> w)"

text \<open>\<open>attempt_world n\<close> is the world before attempt number \<open>n + 1\<close>.\<close>

fun attempt_world ::
  "('w \<Rightarrow> ('e + 't) \<times> 'w) \<Rightarrow> ('e \<Rightarrow> bool) \<Rightarrow> ('w \<Rightarrow> 'w) \<Rightarrow> (u32 \<Rightarrow> 'w \<Rightarrow> 'w) \<Rightarrow> 'w \<Rightarrow> nat \<Rightarrow> 'w" where
  "attempt_world open_it isc cleanup backoff w 0 = w"
| "attempt_world open_it isc cleanup backoff w (Suc n) =
     backoff (of_nat (Suc n))
       (settle isc cleanup (open_it (attempt_world open_it isc cleanup backoff w n)))"

lemma retry_loop_fail:
  assumes "open_it w = (Inl e, w1)" "\<not> max_attempts \<le> attempt"
  shows "retry_loop max_attempts open_it isc cleanup backoff attempt w =
    retry_loop max_attempts open_it isc cleanup backoff (attempt + 1)
      (backoff attempt (settle isc cleanup (open_it w)))"
  by (subst retry_loop.simps) (simp add: assms settle_def Let_def)

text \<open>While attempts fail below the bound, the loop has reached the next attempt's world.\<close>

lemma retry_reaches:
  assumes "\<forall>i<n. isl (fst (open_it (attempt_world open_it isc cleanup backoff w i)))"
    and "n = 0 \<or> n < unat max_attempts"
  shows "retry_open max_attempts open_it isc cleanup backoff w =
    retry_loop max_attempts open_it isc cleanup backoff (of_nat (Suc n))
      (attempt_world open_it isc cleanup backoff w n)"
  using assms
proof (induction n)
  case 0
  then show ?case by (simp add: retry_open_def)
next
  case (Suc n)
  let ?w = "attempt_world open_it isc cleanup backoff w n"
  have bound: "Suc n < 2 ^ 32" using Suc.prems(2) unat_bound [of max_attempts] by simp
  have "\<not> max_attempts \<le> of_nat (Suc n)"
    using Suc.prems(2) unat_of_nat_small [where 'a = 32, of "Suc n"] bound
    by (simp add: word_le_nat_alt not_le del: of_nat_Suc)
  moreover obtain e w1 where "open_it ?w = (Inl e, w1)"
    using Suc.prems(1) by (metis isl_def lessI prod.collapse)
  ultimately have
    "retry_loop max_attempts open_it isc cleanup backoff (of_nat (Suc n)) ?w =
     retry_loop max_attempts open_it isc cleanup backoff (of_nat (Suc n) + 1)
       (backoff (of_nat (Suc n)) (settle isc cleanup (open_it ?w)))"
    by (rule retry_loop_fail [rotated])
  moreover have "of_nat (Suc n) + 1 = (of_nat (Suc (Suc n)) :: u32)" by simp
  ultimately show ?case using Suc by (simp del: of_nat_Suc)
qed

subsection \<open>Properties\<close>

text \<open>The first attempt that succeeds within the bound is the result, with nothing done
  after it: no cleanup, no backoff, no further open. (The bound is at least one attempt: a
  \<open>max_attempts\<close> of 0 still opens once.)\<close>

theorem retry_first_success:
  fixes open_it :: "'w \<Rightarrow> ('e + 't) \<times> 'w" and isc cleanup backoff w
  defines "aw \<equiv> attempt_world open_it isc cleanup backoff w"
  assumes "\<forall>i<n. isl (fst (open_it (aw i)))" "open_it (aw n) = (Inr v, w')"
    and "n < max 1 (unat max_attempts)"
  shows "retry_open max_attempts open_it isc cleanup backoff w = (Inr v, w')"
proof -
  have "n = 0 \<or> n < unat max_attempts" using assms(4) by auto
  from retry_reaches [OF assms(2) [unfolded aw_def] this] assms(3) show ?thesis
    by (simp add: aw_def retry_loop.simps)
qed

text \<open>C34. When every attempt within the bound fails, the loop makes exactly
  \<open>max 1 max_attempts\<close> of them and returns the last error; the backoff is not run after the
  last one, the cleanup is when that error too was a corruption.\<close>

theorem retry_exhausted:
  fixes open_it :: "'w \<Rightarrow> ('e + 't) \<times> 'w" and isc cleanup backoff w
  defines "aw \<equiv> attempt_world open_it isc cleanup backoff w"
  assumes "n + 1 = max 1 (unat max_attempts)" "\<forall>i\<le>n. isl (fst (open_it (aw i)))"
  shows "retry_open max_attempts open_it isc cleanup backoff w =
    (fst (open_it (aw n)), settle isc cleanup (open_it (aw n)))"
proof -
  have b: "n = 0 \<or> n < unat max_attempts" using assms(2) by auto
  have f: "\<forall>i<n. isl (fst (open_it (attempt_world open_it isc cleanup backoff w i)))"
    using assms(3) by (simp add: aw_def)
  have "Suc n < 2 ^ 32" using assms(2) unat_bound [of max_attempts] by auto
  then have last: "max_attempts \<le> of_nat (Suc n)"
    using assms(2) unat_of_nat_small [where 'a = 32, of "Suc n"]
    by (simp add: word_le_nat_alt del: of_nat_Suc)
  obtain e w1 where "open_it (aw n) = (Inl e, w1)"
    using assms(3) by (metis isl_def order_refl prod.collapse)
  with last show ?thesis
    unfolding retry_reaches [OF f b] aw_def [symmetric]
    by (subst retry_loop.simps) (simp add: settle_def Let_def)
qed

subsection \<open>A scripted run\<close>

text \<open>A world that counts what the hooks do and takes the outcome of each open from a list.\<close>

record script =
  outcomes :: "(bool + nat) list"
  opens :: nat
  cleanups :: nat
  backoffs :: "u32 list"

definition script_open :: "script \<Rightarrow> (bool + nat) \<times> script" where
  "script_open s =
     (case outcomes s of [] \<Rightarrow> (Inl False, s\<lparr>opens := Suc (opens s)\<rparr>)
      | r # rs \<Rightarrow> (r, s\<lparr>outcomes := rs, opens := Suc (opens s)\<rparr>))"

definition script_cleanup :: "script \<Rightarrow> script" where
  "script_cleanup s = s\<lparr>cleanups := Suc (cleanups s)\<rparr>"

definition script_backoff :: "u32 \<Rightarrow> script \<Rightarrow> script" where
  "script_backoff a s = s\<lparr>backoffs := backoffs s @ [a]\<rparr>"

definition script_of :: "(bool + nat) list \<Rightarrow> script" where
  "script_of rs = \<lparr>outcomes = rs, opens = 0, cleanups = 0, backoffs = []\<rparr>"

lemmas script_defs = script_open_def script_cleanup_def script_backoff_def script_of_def settle_def

theorem retry_first_success_witness:
  "retry_open 5 script_open id script_cleanup script_backoff
     (script_of [Inl True, Inl True, Inr 7]) =
   (Inr 7, \<lparr>outcomes = [], opens = 3, cleanups = 2, backoffs = [1, 2]\<rparr>)"
proof (rule retry_first_success [where n = "Suc (Suc 0)"])
  show "\<forall>i<Suc (Suc 0). isl (fst (script_open (attempt_world script_open id script_cleanup
      script_backoff (script_of [Inl True, Inl True, Inr 7]) i)))"
    by (simp add: script_defs All_less_Suc)
  show "script_open (attempt_world script_open id script_cleanup script_backoff
      (script_of [Inl True, Inl True, Inr 7]) (Suc (Suc 0))) =
      (Inr 7, \<lparr>outcomes = [], opens = 3, cleanups = 2, backoffs = [1, 2]\<rparr>)"
    by (simp add: script_defs)
qed simp

theorem retry_exhausted_witness:
  "retry_open 3 script_open id script_cleanup script_backoff (script_of []) =
   (Inl False, \<lparr>outcomes = [], opens = 3, cleanups = 0, backoffs = [1, 2]\<rparr>)"
proof -
  have "\<forall>i\<le>Suc (Suc 0). isl (fst (script_open (attempt_world script_open id script_cleanup
      script_backoff (script_of []) i)))"
    by (simp add: script_defs le_Suc_eq All_less_Suc flip: less_Suc_eq_le)
  note fails = this
  have bound: "Suc (Suc 0) + 1 = max 1 (unat (3 :: u32))" by simp
  have last: "script_open (attempt_world script_open id script_cleanup script_backoff
      (script_of []) (Suc (Suc 0))) =
      (Inl False, \<lparr>outcomes = [], opens = 3, cleanups = 0, backoffs = [1, 2]\<rparr>)"
    by (simp add: script_defs)
  from retry_exhausted [OF bound fails] show ?thesis
    unfolding last by (simp add: settle_def id_def)
qed

end
