(* ===== verification/Transport.thy ===== *)
theory Transport
  imports Channel Bringup RustTime
begin

text \<open>
  The daemon's end of the link to the panel (\<open>baler-daemon/src/transport.rs\<close>): opening the two
  channels with the recovery policy, publishing a snapshot, draining the commands. The node, the
  descriptors, the channels and the clean-up of dead nodes belong to the transport library and
  are parameters on a world \<open>'w\<close>; so is the \<open>Debug\<close> text of an error.
\<close>

subsection \<open>The code\<close>

definition OPEN_ATTEMPTS :: u32 where
  "OPEN_ATTEMPTS = 10"

definition backoff_for :: "u32 \<Rightarrow> duration" where
  "backoff_for attempt = from_millis (min (ucast attempt * 50) 500)"

definition is_corrupted :: "(connector_error \<Rightarrow> str) \<Rightarrow> connector_error \<Rightarrow> bool" where
  "is_corrupted debug e = str_contains (lit ''Corrupted'') (debug e)"

definition open_with_recovery ::
  "(connector_error \<Rightarrow> str) \<Rightarrow> ('w \<Rightarrow> 'w) \<Rightarrow> (duration \<Rightarrow> 'w \<Rightarrow> 'w)
   \<Rightarrow> ('w \<Rightarrow> (connector_error + 't) \<times> 'w) \<Rightarrow> 'w \<Rightarrow> (connector_error + 't) \<times> 'w" where
  "open_with_recovery debug cleanup sleep open_it w =
     retry_open OPEN_ATTEMPTS open_it (is_corrupted debug) cleanup
       (\<lambda>attempt. sleep (backoff_for attempt)) w"

definition stack_msg :: "str \<Rightarrow> connector_error" where
  "stack_msg msg = StackError msg"

text \<open>\<open>DaemonLink::new\<close>: the node, the two descriptors, then the two channels.\<close>

definition link_new ::
  "(connector_error \<Rightarrow> str) \<Rightarrow> ('w \<Rightarrow> 'w) \<Rightarrow> (duration \<Rightarrow> 'w \<Rightarrow> 'w) \<Rightarrow> ('w \<Rightarrow> (str + unit) \<times> 'w)
   \<Rightarrow> (string \<Rightarrow> connector_error + 'd) \<Rightarrow> ('d \<Rightarrow> 'w \<Rightarrow> (connector_error + 'tx) \<times> 'w)
   \<Rightarrow> ('d \<Rightarrow> 'w \<Rightarrow> (connector_error + 'rx) \<times> 'w) \<Rightarrow> 'w \<Rightarrow> (connector_error + 'tx \<times> 'rx) \<times> 'w" where
  "link_new debug cleanup sleep create_node descriptor create_writer create_reader w =
     (case create_node w of
        (Inl e, w1) \<Rightarrow> (Inl (stack_msg (lit ''node create: '' @ e)), w1)
      | (Inr _, w1) \<Rightarrow>
          (case descriptor CHANNEL_STATE of
             Inl e \<Rightarrow> (Inl e, w1)
           | Inr state_desc \<Rightarrow>
               (case descriptor CHANNEL_COMMAND of
                  Inl e \<Rightarrow> (Inl e, w1)
                | Inr cmd_desc \<Rightarrow>
                    (case open_with_recovery debug cleanup sleep (create_writer state_desc) w1 of
                       (Inl e, w2) \<Rightarrow> (Inl e, w2)
                     | (Inr tx, w2) \<Rightarrow>
                         (case open_with_recovery debug cleanup sleep (create_reader cmd_desc) w2 of
                            (Inl e, w3) \<Rightarrow> (Inl e, w3)
                          | (Inr rx, w3) \<Rightarrow> (Inr (tx, rx), w3))))))"

definition link_publish :: "('tx, state_snapshot) send \<Rightarrow> state_snapshot \<Rightarrow> 'tx \<Rightarrow> 'tx" where
  "link_publish send snapshot tx = snd (send snapshot tx)"

definition link_drain :: "('rx, command) try_recv \<Rightarrow> 'rx \<Rightarrow> (command list \<times> 'rx) option" where
  "link_drain recv rx = drain_loop recv [] rx"

subsection \<open>Properties\<close>

text \<open>Draining the command channel returns, and returns every command pending before the first
  empty or failed receive, oldest first.\<close>

theorem drain_returns_backlog:
  assumes "backlog recv n rx = Some (cmds, rx')"
  shows "link_drain recv rx = Some (cmds, rx')"
  using drain_loop_backlog [OF assms, of "[]"] by (simp add: link_drain_def)

theorem drain_returns_backlog_witness:
  "link_drain queue_recv [Wrap, ToggleKnife, Wrap] = Some ([Wrap, ToggleKnife, Wrap], [])"
  by (rule drain_returns_backlog [OF queue_backlog])

text \<open>The sleep before the attempt after number \<open>k\<close>, in milliseconds.\<close>

definition backoff_ms :: "nat \<Rightarrow> nat" where
  "backoff_ms k = min (k * 50) 500"

lemma dur_ns_backoff: "dur_ns (backoff_for a) = backoff_ms (unat a) * 1000000"
proof -
  have a: "unat a < 2 ^ 32" using unat_bound [of a] by simp
  have u: "unat (ucast a :: u64) = unat a"
    using a by (simp add: unsigned_ucast_eq take_bit_nat_eq_self)
  have "unat ((ucast a :: u64) * 50) = unat a * 50"
    using a by (simp add: unat_word_ariths u)
  then have "unat (min ((ucast a :: u64) * 50) 500) = min (unat a * 50) 500"
    by (simp add: min_def word_le_nat_alt)
  then show ?thesis by (simp add: backoff_for_def dur_ns_from_millis backoff_ms_def)
qed

text \<open>
  A world that also counts the attempts and adds up the time slept. What the closures do to the
  rest of the world is arbitrary.
\<close>

definition counted_open :: "('w \<Rightarrow> (connector_error + 't) \<times> 'w) \<Rightarrow> 'w \<times> nat \<times> nat
    \<Rightarrow> (connector_error + 't) \<times> 'w \<times> nat \<times> nat" where
  "counted_open open_it s = (let (w, n, t) = s; (r, w') = open_it w in (r, w', Suc n, t))"

definition counted_sleep :: "duration \<Rightarrow> 'w \<times> nat \<times> nat \<Rightarrow> 'w \<times> nat \<times> nat" where
  "counted_sleep d s = (let (w, n, t) = s in (w, n, t + dur_ns d))"

definition counted_cleanup :: "('w \<Rightarrow> 'w) \<Rightarrow> 'w \<times> nat \<times> nat \<Rightarrow> 'w \<times> nat \<times> nat" where
  "counted_cleanup cleanup s = (let (w, n, t) = s in (cleanup w, n, t))"

lemmas counted_defs = counted_open_def counted_sleep_def counted_cleanup_def

lemma retry_budget:
  assumes "1 \<le> unat a" "unat a \<le> 10"
    and "retry_loop OPEN_ATTEMPTS (counted_open open_it) isc (counted_cleanup cleanup)
      (\<lambda>k. counted_sleep (backoff_for k)) a (w, n, t) = (r, w', n', t')"
  shows "n' \<le> n + (11 - unat a) \<and> t' \<le> t + (\<Sum>k\<in>{unat a..<10}. backoff_ms k) * 1000000"
  using assms
proof (induction "10 - unat a" arbitrary: a w n t)
  case 0
  then have a: "unat a = 10" by simp
  then have "OPEN_ATTEMPTS \<le> a" by (simp add: OPEN_ATTEMPTS_def word_le_nat_alt)
  then have "n' = Suc n \<and> t' = t"
    using 0(4) by (subst (asm) retry_loop.simps)
      (auto simp: counted_defs Let_def split: prod.splits sum.splits if_splits)
  then show ?case using a by simp
next
  case (Suc m)
  have lt: "unat a < 10" using Suc(2) by simp
  then have nle: "\<not> OPEN_ATTEMPTS \<le> a" by (simp add: OPEN_ATTEMPTS_def word_le_nat_alt)
  have s: "unat (a + 1) = Suc (unat a)"
    using unat_succ [of a 10] lt by simp
  have sum: "(\<Sum>k\<in>{unat a..<10}. backoff_ms k) = backoff_ms (unat a) + (\<Sum>k\<in>{Suc (unat a)..<10}. backoff_ms k)"
    by (rule sum.atLeast_Suc_lessThan [OF lt])
  obtain q v where o: "open_it w = (q, v)" by fastforce
  show ?case
  proof (cases q)
    case (Inr x)
    then have "n' = Suc n \<and> t' = t"
      using Suc(5) o by (subst (asm) retry_loop.simps) (simp add: counted_defs)
    then show ?thesis using lt by simp
  next
    case (Inl e)
    define v' where "v' = (if isc e then cleanup v else v)"
    have "retry_loop OPEN_ATTEMPTS (counted_open open_it) isc (counted_cleanup cleanup)
      (\<lambda>k. counted_sleep (backoff_for k)) (a + 1) (v', Suc n, t + backoff_ms (unat a) * 1000000)
      = (r, w', n', t')"
      using Suc(5) o Inl nle
      by (subst (asm) retry_loop.simps) (simp add: counted_defs v'_def dur_ns_backoff split: if_splits)
    from Suc(1) [OF _ _ _ this] Suc(2) lt s
    have "n' \<le> Suc n + (11 - Suc (unat a)) \<and> t' \<le> t + backoff_ms (unat a) * 1000000
        + (\<Sum>k\<in>{Suc (unat a)..<10}. backoff_ms k) * 1000000" by simp
    then show ?thesis using lt by (auto simp: sum algebra_simps)
  qed
qed

text \<open>C33. Opening a channel is bounded: whatever the transport library does, at most ten attempts
  are made and at most 2.25 s are slept before the result, the channel or the last error, is
  returned.\<close>

theorem open_bounded:
  assumes "open_with_recovery debug (counted_cleanup cleanup) counted_sleep (counted_open open_it)
      (w, 0, 0) = (r, w', attempts, slept_ns)"
  shows "attempts \<le> 10 \<and> slept_ns \<le> 2250 * 1000000"
proof -
  have "(\<Sum>k\<in>{1..<10}. backoff_ms k) = 2250"
    by (simp add: backoff_ms_def numeral_eq_Suc sum.atLeast_Suc_lessThan)
  then show ?thesis
    using retry_budget [of 1 open_it "is_corrupted debug" cleanup w 0 0 r w' attempts slept_ns] assms
    by (simp add: open_with_recovery_def retry_open_def)
qed

theorem open_bounded_witness:
  "\<exists>r w' attempts slept. open_with_recovery (\<lambda>_. lit ''Corrupted'') (counted_cleanup id) counted_sleep
      (counted_open (\<lambda>u. (Inl (stack_msg []), u))) ((), 0, 0) = (r :: connector_error + unit, w', attempts, slept)
    \<and> attempts \<le> 10"
  by (metis open_bounded prod_cases4)

end
