(* ===== verification/WagoBus.thy ===== *)
theory WagoBus
  imports Channel "HOL-Library.Word"
begin

unbundle bit_operations_syntax

text \<open>
  The process image of the WAGO coupler (\<open>baler-daemon/src/ethercat_io.rs\<close>): the byte layout,
  the bus handle with its poll, its write on change, and the suspend and restart of the EtherCAT
  master. The connector and its channels are a library: the reader and the writer are its
  \<open>try_recv\<close> and \<open>send\<close>; the connector object is only held, stopped and dropped, so it is kept as
  an optional opaque value.
\<close>

subsection \<open>The byte layout\<close>

definition BIT_BALE_FULL :: nat where "BIT_BALE_FULL = 0"
definition BIT_KNIFE_IN :: nat where "BIT_KNIFE_IN = 1"
definition BIT_BALE_OPEN :: nat where "BIT_BALE_OPEN = 2"
definition BIT_WRAP :: nat where "BIT_WRAP = 0"
definition BIT_KNIVES_IN :: nat where "BIT_KNIVES_IN = 1"
definition BIT_KNIVES_OUT :: nat where "BIT_KNIVES_OUT = 2"

lemmas bit_consts = BIT_BALE_FULL_def BIT_KNIFE_IN_def BIT_BALE_OPEN_def BIT_WRAP_def
  BIT_KNIVES_IN_def BIT_KNIVES_OUT_def

definition bit_of :: "u8 \<Rightarrow> nat \<Rightarrow> bool" where
  "bit_of b idx \<longleftrightarrow> drop_bit idx b AND 1 = 1"

definition set_bit_to :: "u8 \<Rightarrow> nat \<Rightarrow> bool \<Rightarrow> u8" where
  "set_bit_to b idx on = (if on then b OR push_bit idx 1 else b AND NOT (push_bit idx 1))"

lemma bit_of_bit: "bit_of b i \<longleftrightarrow> bit b i"
  by (simp add: bit_of_def and_one_eq bit_iff_odd_drop_bit mod2_eq_if)

text \<open>Reading back a bit set at an index in range; the others are untouched.\<close>

lemma bit_of_set: "i < 8 \<Longrightarrow> bit_of (set_bit_to b i on) j = (if i = j then on else bit_of b j)"
  unfolding bit_of_bit
  by (auto simp: set_bit_to_def bit_or_iff bit_and_iff bit_not_iff bit_push_bit_iff bit_1_iff
      bit_exp_iff possible_bit_word dest: bit_imp_le_length)

datatype health_kind = Up | Connecting | Degraded | Down

definition kind_to_u8 :: "health_kind \<Rightarrow> u8" where
  "kind_to_u8 k = (case k of Up \<Rightarrow> 0 | Connecting \<Rightarrow> 1 | Degraded \<Rightarrow> 2 | Down \<Rightarrow> 3)"

lemma kind_to_u8_inj: "kind_to_u8 a = kind_to_u8 b \<longleftrightarrow> a = b"
  by (cases a; cases b) (simp_all add: kind_to_u8_def)

subsection \<open>The bus handle\<close>

record ('c, 'r, 'w) wago =
  wg_connector :: "'c option"
  wg_reader :: 'r
  wg_writer :: 'w
  wg_health :: u8
  wg_last_input :: u8
  wg_last_output :: "u8 option"
  wg_restart_requested :: bool

text \<open>The handle as \<open>register\<close> returns it, once the connector has been set up.\<close>

definition wago_new :: "'c \<Rightarrow> 'r \<Rightarrow> 'w \<Rightarrow> health_kind \<Rightarrow> ('c, 'r, 'w) wago" where
  "wago_new connector reader writer kind =
     \<lparr>wg_connector = Some connector, wg_reader = reader, wg_writer = writer,
      wg_health = kind_to_u8 kind, wg_last_input = 0, wg_last_output = None,
      wg_restart_requested = False\<rparr>"

text \<open>The health pump: the events received are stored one after the other.\<close>

definition health_pump :: "health_kind list \<Rightarrow> ('c, 'r, 'w) wago \<Rightarrow> ('c, 'r, 'w) wago" where
  "health_pump events b = fold (\<lambda>k b. b\<lparr>wg_health := kind_to_u8 k\<rparr>) events b"

definition wg_is_healthy :: "('c, 'r, 'w) wago \<Rightarrow> bool" where
  "wg_is_healthy b \<longleftrightarrow> wg_connector b \<noteq> None \<and> wg_health b = kind_to_u8 Up"

partial_function (option) poll_loop :: "('r, u8) try_recv \<Rightarrow> u8 \<Rightarrow> 'r \<Rightarrow> (u8 \<times> 'r) option" where
  "poll_loop recv prev r =
     (case recv r of
        (Inr (Some v), r') \<Rightarrow> poll_loop recv v r'
      | (_, r') \<Rightarrow> Some (prev, r'))"

definition wg_poll ::
    "('r, u8) try_recv \<Rightarrow> ('c, 'r, 'w) wago \<Rightarrow> (inputs \<times> ('c, 'r, 'w) wago) option" where
  "wg_poll recv b =
     (if wg_connector b = None then
        Some (\<lparr>in_bale_full = False, in_knife_in = False, in_bale_open = False, in_healthy = False\<rparr>, b)
      else
        map_option (\<lambda>(byte, r).
            let b' = b\<lparr>wg_last_input := byte, wg_reader := r\<rparr> in
            (\<lparr>in_bale_full = bit_of byte BIT_BALE_FULL, in_knife_in = bit_of byte BIT_KNIFE_IN,
              in_bale_open = bit_of byte BIT_BALE_OPEN, in_healthy = wg_is_healthy b'\<rparr>, b'))
          (poll_loop recv (wg_last_input b) (wg_reader b)))"

definition out_byte :: "outputs \<Rightarrow> u8" where
  "out_byte out =
     (let byte = set_bit_to 0 BIT_WRAP (out_wrap out);
          byte = set_bit_to byte BIT_KNIVES_IN (out_knives_in out)
      in set_bit_to byte BIT_KNIVES_OUT (out_knives_out out))"

definition wg_write ::
    "('w, u8) send \<Rightarrow> outputs \<Rightarrow> ('c, 'r, 'w) wago \<Rightarrow> ('c, 'r, 'w) wago" where
  "wg_write send out b =
     (if wg_connector b = None then b
      else
        let byte = out_byte out in
        if wg_last_output b \<noteq> Some byte then
          (case send byte (wg_writer b) of
             (Inr _, w) \<Rightarrow> b\<lparr>wg_writer := w, wg_last_output := Some byte\<rparr>
           | (Inl _, w) \<Rightarrow> b\<lparr>wg_writer := w\<rparr>)
        else b)"

definition wg_take_restart_request :: "('c, 'r, 'w) wago \<Rightarrow> bool \<times> ('c, 'r, 'w) wago" where
  "wg_take_restart_request b = (wg_restart_requested b, b\<lparr>wg_restart_requested := False\<rparr>)"

definition wg_suspend :: "('c, 'r, 'w) wago \<Rightarrow> ('c, 'r, 'w) wago" where
  "wg_suspend b = b\<lparr>wg_connector := None\<rparr>"

definition wg_restart :: "('c, 'r, 'w) wago \<Rightarrow> ('c, 'r, 'w) wago" where
  "wg_restart b = b\<lparr>wg_restart_requested := True\<rparr>"

definition wago_port :: "('c, 'r, 'w) wago bus_port" where
  "wago_port = \<lparr>bp_suspend = wg_suspend, bp_restart = wg_restart\<rparr>"

subsection \<open>Polling and writing\<close>

lemma out_byte_bits:
  "bit_of (out_byte out) j =
    (j = BIT_WRAP \<and> out_wrap out \<or> j = BIT_KNIVES_IN \<and> out_knives_in out
     \<or> j = BIT_KNIVES_OUT \<and> out_knives_out out)"
proof -
  have z: "\<not> bit_of 0 j" by (simp add: bit_of_bit)
  show ?thesis using z by (auto simp: out_byte_def Let_def bit_of_set bit_consts)
qed

lemma out_byte_inj: "out_byte a = out_byte b \<longleftrightarrow> a = b"
proof
  assume "out_byte a = out_byte b"
  then have "bit_of (out_byte a) j = bit_of (out_byte b) j" for j by simp
  from this [of 0] this [of 1] this [of 2] show "a = b"
    by (intro outputs.equality) (simp_all add: out_byte_bits bit_consts)
qed simp

lemma poll_loop_backlog:
  "backlog recv n r = Some (vs, s) \<Longrightarrow> poll_loop recv l r = Some (last (l # vs), s)"
proof (induction n arbitrary: r l vs)
  case 0
  then show ?case by simp
next
  case (Suc n)
  then show ?case
    by (subst poll_loop.simps) (fastforce split: prod.splits sum.splits option.splits)
qed

text \<open>A poll returns, and shows the newest byte of the process image: the last of those
  pending, or the one of the poll before when nothing arrived (a stale image), with the three
  inputs at bits 0 to 2 and the bus healthy exactly when the last health reported is \<open>Up\<close>.\<close>

theorem poll_shows_newest:
  assumes "wg_connector b = Some c" "backlog recv n (wg_reader b) = Some (bytes, r)"
  shows "let byte = last (wg_last_input b # bytes) in
    wg_poll recv b = Some (\<lparr>in_bale_full = bit byte 0, in_knife_in = bit byte 1,
        in_bale_open = bit byte 2, in_healthy = (wg_health b = kind_to_u8 Up)\<rparr>,
      b\<lparr>wg_last_input := byte, wg_reader := r\<rparr>)"
  using assms
  by (simp add: wg_poll_def poll_loop_backlog [OF assms(2)] wg_is_healthy_def bit_of_bit bit_consts
      Let_def)

theorem poll_shows_newest_witness:
  "\<exists>b. wg_poll queue_recv (wago_new () [0, 5 :: u8] () Connecting) =
     Some (\<lparr>in_bale_full = True, in_knife_in = False, in_bale_open = True, in_healthy = False\<rparr>, b)"
proof -
  have c: "wg_connector (wago_new () [0, 5 :: u8] () Connecting) = Some ()"
    and q: "backlog queue_recv (Suc 2) (wg_reader (wago_new () [0, 5 :: u8] () Connecting)) = Some ([0, 5], [])"
    using queue_backlog [of "[0, 5 :: u8]"] by (simp_all add: wago_new_def numeral_2_eq_2)
  have bits: "bit (5 :: u8) 0" "\<not> bit (5 :: u8) 1" "bit (5 :: u8) 2"
    by code_simp+
  from poll_shows_newest [OF c q] show ?thesis
    using bits by (auto simp: wago_new_def Let_def kind_to_u8_def)
qed

text \<open>The byte the bus accepted last, in the writer's own state: a successful send puts it there,
  a failed one leaves it.\<close>

definition send_documented :: "('w, u8) send \<Rightarrow> ('w \<Rightarrow> u8 option) \<Rightarrow> bool" where
  "send_documented send wire \<longleftrightarrow>
     (\<forall>b w. wire (snd (send b w)) = (if fst (send b w) = Inr () then Some b else wire w))"

definition wire_ok :: "('w \<Rightarrow> u8 option) \<Rightarrow> ('c, 'r, 'w) wago \<Rightarrow> bool" where
  "wire_ok wire b \<longleftrightarrow> wg_last_output b = wire (wg_writer b)"

text \<open>What one write does to the writer and to the record of the last byte.\<close>

definition sends :: "('w, u8) send \<Rightarrow> outputs \<Rightarrow> ('c, 'r, 'w) wago \<Rightarrow> bool" where
  "sends send out b \<longleftrightarrow> wg_connector b \<noteq> None \<and> wg_last_output b \<noteq> Some (out_byte out)"

lemma wg_write_last:
  "wg_last_output (wg_write send out b) =
    (if sends send out b \<and> fst (send (out_byte out) (wg_writer b)) = Inr () then Some (out_byte out)
     else wg_last_output b)"
  by (cases "send (out_byte out) (wg_writer b)"; cases "fst (send (out_byte out) (wg_writer b))")
    (auto simp: wg_write_def sends_def Let_def)

lemma wg_write_writer:
  "wg_writer (wg_write send out b) =
    (if sends send out b then snd (send (out_byte out) (wg_writer b)) else wg_writer b)"
  by (cases "send (out_byte out) (wg_writer b)"; cases "fst (send (out_byte out) (wg_writer b))")
    (auto simp: wg_write_def sends_def Let_def)

lemma wg_write_frame [simp]:
  "wg_connector (wg_write send out b) = wg_connector b"
  "wg_reader (wg_write send out b) = wg_reader b"
  "wg_health (wg_write send out b) = wg_health b"
  "wg_last_input (wg_write send out b) = wg_last_input b"
  "wg_restart_requested (wg_write send out b) = wg_restart_requested b"
  by (auto simp: wg_write_def Let_def split: prod.splits sum.splits)

lemma wire_after:
  assumes "send_documented send wire"
  shows "wire (wg_writer (wg_write send out b)) =
    (if sends send out b \<and> fst (send (out_byte out) (wg_writer b)) = Inr () then Some (out_byte out)
     else wire (wg_writer b))"
  using assms by (simp add: wg_write_writer send_documented_def)

lemma wire_ok_write:
  "send_documented send wire \<Longrightarrow> wire_ok wire b \<Longrightarrow> wire_ok wire (wg_write send out b)"
  by (simp add: wire_ok_def wg_write_last wire_after)

text \<open>Over any sequence of writes on a live bus the handle's record of the last byte is what
  the bus accepted last, so an unchanged output is not sent again, and a write that failed is
  tried again by the next: once a write is accepted, or already was, the bus carries exactly the
  outputs last written.\<close>

theorem write_reaches_bus:
  fixes send :: "('w, u8) send" and b :: "('c, 'r, 'w) wago"
  assumes "send_documented send wire" "wg_connector b = Some c" "wg_last_output b = wire (wg_writer b)"
    and "b' = fold (wg_write send) outs b"
  shows "wg_last_output b' = wire (wg_writer b')
    \<and> (wire (wg_writer (wg_write send out b')) = Some (out_byte out)
       \<longleftrightarrow> wire (wg_writer b') = Some (out_byte out)
         \<or> fst (send (out_byte out) (wg_writer b')) = Inr ())"
proof -
  have c: "wg_connector (fold (wg_write send) outs b) = wg_connector b" for b :: "('c, 'r, 'w) wago"
    by (induction outs arbitrary: b) simp_all
  have "wire_ok wire (fold (wg_write send) outs b)"
    by (rule fold_invariant_set [where P = "wire_ok wire"])
      (use assms(1,3) wire_ok_write in \<open>simp_all add: wire_ok_def\<close>)
  then have w: "wire_ok wire b'" by (simp add: assms(4))
  have live: "wg_connector b' \<noteq> None" by (simp add: assms(2,4) c)
  show ?thesis using w live by (auto simp: wire_after [OF assms(1)] sends_def wire_ok_def)
qed

text \<open>A writer that fails as often as its counter says.\<close>

definition flaky_send :: "(nat \<times> u8 option, u8) send" where
  "flaky_send b w = (case w of (0, _) \<Rightarrow> (Inr (), 0, Some b) | (Suc n, v) \<Rightarrow> (Inl (StackError []), n, v))"

theorem write_reaches_bus_witness:
  "snd (wg_writer (wg_write flaky_send \<lparr>out_wrap = True, out_knives_in = False, out_knives_out = True\<rparr>
      (wg_write flaky_send \<lparr>out_wrap = True, out_knives_in = False, out_knives_out = True\<rparr>
        (wago_new () () (1, None) Up)))) = Some 5"
proof -
  let ?o = "\<lparr>out_wrap = True, out_knives_in = False, out_knives_out = True\<rparr>"
  let ?b = "wago_new () () (1 :: nat, None :: u8 option) Up"
  have doc: "send_documented flaky_send snd"
    by (auto simp: send_documented_def flaky_send_def split: nat.splits prod.splits)
  have b: "out_byte ?o = 5" by code_simp
  have w: "wg_writer (wg_write flaky_send ?o ?b) = (0, None)"
    by (simp add: wg_write_def wago_new_def flaky_send_def)
  have l: "wg_connector ?b = Some ()" "wg_last_output ?b = snd (wg_writer ?b)"
    by (simp_all add: wago_new_def)
  have "fst (flaky_send (out_byte ?o) (wg_writer (wg_write flaky_send ?o ?b))) = Inr ()"
    unfolding w by (simp add: flaky_send_def)
  then show ?thesis
    using write_reaches_bus [OF doc l, of "wg_write flaky_send ?o ?b" "[?o]" ?o] unfolding b by simp
qed

end
