(* ===== verification/WatchdogDev.thy ===== *)
theory WatchdogDev
  imports Ports RustFs
begin

text \<open>
  The hardware watchdog (\<open>baler-daemon/src/watchdog.rs\<close>): opening and arming the device, the
  keepalive, the magic close. The device is a file of the kernel; \<open>open\<close>, the timeout request,
  the write and the close are the kernel's answers, on a device state \<open>'d\<close>.
\<close>

subsection \<open>The code\<close>

record 'd wd_kernel =
  wk_open :: "str \<Rightarrow> 'd \<Rightarrow> (io_error + unit) \<times> 'd"
  wk_settimeout :: "32 word \<Rightarrow> 'd \<Rightarrow> (io_error + unit) \<times> 'd"
  wk_write_all :: "u8 list \<Rightarrow> 'd \<Rightarrow> (io_error + unit) \<times> 'd"
  wk_close :: "'d \<Rightarrow> 'd"

record petter =
  pt_magic_close :: bool

text \<open>A failed timeout request drops the file again, which closes it. The cast to \<open>c_int\<close> keeps the
  32 bits.\<close>

definition wd_open ::
  "'d wd_kernel \<Rightarrow> str \<Rightarrow> u32 option \<Rightarrow> bool \<Rightarrow> 'd \<Rightarrow> (io_error + petter) \<times> 'd" where
  "wd_open k path timeout_secs magic_close d =
     (case wk_open k path d of
        (Inl e, d1) \<Rightarrow> (Inl e, d1)
      | (Inr _, d1) \<Rightarrow>
          (case timeout_secs of
             None \<Rightarrow> (Inr \<lparr>pt_magic_close = magic_close\<rparr>, d1)
           | Some secs \<Rightarrow>
               (case wk_settimeout k secs d1 of
                  (Inl e, d2) \<Rightarrow> (Inl e, wk_close k d2)
                | (Inr _, d2) \<Rightarrow> (Inr \<lparr>pt_magic_close = magic_close\<rparr>, d2))))"

definition wd_pet :: "'d wd_kernel \<Rightarrow> 'd \<Rightarrow> 'd" where
  "wd_pet k d = snd (wk_write_all k [0] d)"

text \<open>\<open>Drop\<close>, and then that of the \<open>File\<close>, which closes the descriptor.\<close>

definition wd_drop :: "'d wd_kernel \<Rightarrow> petter \<Rightarrow> 'd \<Rightarrow> 'd" where
  "wd_drop k p d = wk_close k (if pt_magic_close p then snd (wk_write_all k [86] d) else d)"

text \<open>The watchdog port of the device build.\<close>

definition petter_port :: "'d wd_kernel \<Rightarrow> 'd watchdog_port" where
  "petter_port k = \<lparr>wp_pet = wd_pet k\<rparr>"

subsection \<open>The device stays armed\<close>

text \<open>
  The rules of the kernel's watchdog interface, on a device state seen as armed or not, and as
  holding a magic character that waits for the close or not. Opening arms the device; a write
  without the byte V keeps it as it is and leaves no magic character behind where there was none;
  the timeout has no effect on either. What a close does depends on the driver: a basic one disarms
  the device, one with the magic close (or built so that it cannot be stopped) keeps it armed
  unless the magic character came just before. \<open>sticky\<close> says which.
\<close>

definition wd_documented :: "'d wd_kernel \<Rightarrow> ('d \<Rightarrow> bool) \<Rightarrow> ('d \<Rightarrow> bool) \<Rightarrow> bool \<Rightarrow> bool" where
  "wd_documented k armed magic sticky \<longleftrightarrow>
     (\<forall>p d. fst (wk_open k p d) = Inr () \<longrightarrow> armed (snd (wk_open k p d)) \<and> \<not> magic (snd (wk_open k p d)))
     \<and> (\<forall>s d. armed (snd (wk_settimeout k s d)) = armed d \<and> magic (snd (wk_settimeout k s d)) = magic d)
     \<and> (\<forall>bs d. 86 \<notin> set bs \<longrightarrow> armed (snd (wk_write_all k bs d)) = armed d
          \<and> (magic (snd (wk_write_all k bs d)) \<longrightarrow> magic d))
     \<and> (\<forall>d. \<not> magic d \<longrightarrow> armed (wk_close k d) = (sticky \<and> armed d))"

definition wd_live :: "('d \<Rightarrow> bool) \<Rightarrow> ('d \<Rightarrow> bool) \<Rightarrow> 'd \<Rightarrow> bool" where
  "wd_live armed magic d \<longleftrightarrow> armed d \<and> \<not> magic d"

lemma wd_pet_live:
  "wd_documented k armed magic sticky \<Longrightarrow> wd_live armed magic d \<Longrightarrow> wd_live armed magic (wd_pet k d)"
proof -
  assume k: "wd_documented k armed magic sticky" and d: "wd_live armed magic d"
  have "86 \<notin> set [0 :: u8]" by simp
  then have "armed (snd (wk_write_all k [0] d)) = armed d" "magic (snd (wk_write_all k [0] d)) \<Longrightarrow> magic d"
    using k unfolding wd_documented_def by blast+
  then show ?thesis using d by (auto simp: wd_pet_def wd_live_def)
qed

lemma wd_drop_live:
  "wd_documented k armed magic sticky \<Longrightarrow> wd_live armed magic d \<Longrightarrow> \<not> pt_magic_close p \<Longrightarrow>
    armed (wd_drop k p d) = sticky"
  by (simp add: wd_documented_def wd_drop_def wd_live_def)

lemma wd_open_live:
  assumes "wd_documented k armed magic sticky" "fst (wk_open k path d) = Inr ()"
  shows "case wd_open k path timeout close_magic d of
      (Inl e, d') \<Rightarrow> armed d' = sticky
    | (Inr p, d') \<Rightarrow> wd_live armed magic d' \<and> pt_magic_close p = close_magic"
proof -
  obtain d1 where o: "wk_open k path d = (Inr (), d1)" using assms(2) by (cases "wk_open k path d") simp
  then have d1: "armed d1 \<and> \<not> magic d1" using assms(1) unfolding wd_documented_def by (metis fst_conv snd_conv)
  show ?thesis
  proof (cases timeout)
    case None
    then show ?thesis using o d1 by (simp add: wd_open_def wd_live_def)
  next
    case (Some secs)
    obtain r d2 where t: "wk_settimeout k secs d1 = (r, d2)" by fastforce
    then have "armed d2 \<and> \<not> magic d2" using assms(1) d1 unfolding wd_documented_def by (metis snd_conv)
    then show ?thesis
      using assms(1) o t Some by (cases r) (simp_all add: wd_open_def wd_live_def wd_documented_def)
  qed
qed

definition demo_kernel :: "bool \<Rightarrow> (bool \<times> bool) wd_kernel" where
  "demo_kernel sticky = \<lparr>wk_open = (\<lambda>_ _. (Inr (), True, False)), wk_settimeout = (\<lambda>_ d. (Inr (), d)),
     wk_write_all = (\<lambda>bs d. (Inr (), fst d, 86 \<in> set bs)),
     wk_close = (\<lambda>d. (fst d \<and> sticky \<and> \<not> snd d, False))\<rparr>"

lemma demo_kernel_documented: "wd_documented (demo_kernel sticky) fst snd sticky"
  by (auto simp: wd_documented_def demo_kernel_def)

end
