(* ===== verification/ControlCount.thy ===== *)
theory ControlCount
  imports ControlPulse
begin

text \<open>
  The bale counters under the control cycle: the total counts exactly the rising edges of the
  debounced gate input seen on a healthy bus.
\<close>

subsection \<open>Counting\<close>

definition bale_edges :: "debouncer \<Rightarrow> inputs list \<Rightarrow> nat" where
  "bale_edges d is =
     length (filter (\<lambda>(i, e). in_healthy i \<and> e = Rising)
       (zip is (run_outs db_update d (map in_bale_open is))))"

lemma bale_edges_Nil [simp]: "bale_edges d [] = 0"
  by (simp add: bale_edges_def)

lemma bale_edges_Cons [simp]:
  "bale_edges d (i # is) =
    (if in_healthy i \<and> fst (db_update d (in_bale_open i)) = Rising then 1 else 0)
      + bale_edges (snd (db_update d (in_bale_open i))) is"
  by (simp add: bale_edges_def)

abbreviation total_of :: "control \<Rightarrow> u64" where
  "total_of c \<equiv> cn_total (cs_counters (ct_counters c))"

lemma rising_iff:
  assumes "db_wf d"
  shows "fst (db_update d raw) = Rising \<longleftrightarrow> db_level (snd (db_update d raw)) \<and> \<not> db_level d"
  using db_edge_iff [OF assms, of raw] by (auto simp: db_update_eq [OF assms] split: if_splits)

lemma ctl_pre_total:
  assumes "ct_last_open_level (fst cw) = db_level (ct_open_db (fst cw))" "db_wf (ct_open_db (fst cw))"
  shows "unat (total_of (fst (ctl_pre i cw))) =
    min (unat (total_of (fst cw)) + bale_edges (ct_open_db (fst cw)) [i]) (2 ^ 64 - 1)"
proof -
  have b: "unat (total_of (fst cw)) < 2 ^ 64" using unat_bound [of "total_of (fst cw)"] by simp
  have i: "ct_counters (ctl_inputs i c) = ct_counters c"
    and l: "ct_last_open_level (ctl_inputs i c) = ct_last_open_level c"
    and d: "ct_open_db (ctl_inputs i c) = snd (db_update (ct_open_db c) (in_bale_open i))" for c
    by (simp_all add: ctl_inputs_def Let_def)
  show ?thesis
    using b rising_iff [OF assms(2), of "in_bale_open i"]
    by (auto simp: ctl_pre_def ctl_latch_def ctl_count_def Let_def split_beta i l d assms(1)
        increment_bale_def cs_update_store unat_sat_add)
qed

lemma ctl_commands_total:
  assumes "ResetTotal \<notin> set cmds"
  shows "total_of (fst (snd (ctl_commands net bus cmds cw))) = total_of (fst cw)"
proof -
  have "total_of (fst (snd (ctl_command net bus cmd (g, c, w)))) = total_of c"
    if "cmd \<in> set cmds" for cmd g c w
  proof (rule ctl_command_cases [of cmd net bus g c w])
    fix r st
    assume h: "bs_handle cmd (ctl_any_active c) (ct_state c) = (r, st)"
      and e: "ctl_command net bus cmd (g, c, w) =
        (g, ctl_action net bus (ctl_knife_active c) r (c\<lparr>ct_state := st\<rparr>, w))"
    have "r \<noteq> Inr ActResetTotal"
      using bs_handle_accepts(5) [of cmd "ctl_any_active c" "ct_state c"] that assms h by auto
    then show ?thesis by (simp add: e ctl_action_total)
  qed simp_all
  then show ?thesis
    using ctl_commands_keep [where Q = "\<lambda>_. True" and cmds = cmds and net = net and bus = bus
        and cw = cw and f = "\<lambda>c w. total_of c"]
    by simp
qed

lemma ctl_run_total:
  assumes "ct_last_open_level (fst cw) = db_level (ct_open_db (fst cw))" "db_wf (ct_open_db (fst cw))"
    and "\<forall>ic\<in>set xs. ResetTotal \<notin> set (snd ic)"
  shows "unat (total_of (fst (run_end (ctl_step net bus) cw xs))) =
    min (unat (total_of (fst cw)) + bale_edges (ct_open_db (fst cw)) (map fst xs)) (2 ^ 64 - 1)"
  using assms
proof (induction xs arbitrary: cw)
  case Nil
  have "unat (total_of (fst cw)) < 2 ^ 64" using unat_bound [of "total_of (fst cw)"] by simp
  then show ?case by simp
next
  case (Cons ic xs)
  let ?s = "snd (ctl_step net bus cw ic)"
  have t: "total_of (fst ?s) = total_of (fst (ctl_pre (fst ic) cw))"
    using Cons.prems(3) by (simp add: ctl_step_fields ctl_body_def ctl_commands_total)
  have "unat (total_of (fst (run_end (ctl_step net bus) ?s xs))) =
      min (unat (total_of (fst ?s)) + bale_edges (ct_open_db (fst ?s)) (map fst xs)) (2 ^ 64 - 1)"
    by (rule Cons.IH) (use Cons.prems in \<open>simp_all add: ctl_step_fields db_wf_update\<close>)
  then show ?case
    using ctl_pre_total [OF Cons.prems(1,2), of "fst ic"] by (simp add: t ctl_step_fields(5))
qed

text \<open>C11. The total shown after any run from power-up is the total loaded plus one for every
  rising edge of the debounced gate input on a healthy cycle, up to the largest \<open>u64\<close> where it
  stays: no other command, output or fault counts a bale (a reset of the total excepted).\<close>

theorem total_counts_gate_openings:
  assumes "\<forall>ic\<in>set xs. ResetTotal \<notin> set (snd ic)"
    and "(c', w') = run_end (ctl_step net bus) (ctl_init counters, w) xs"
  shows "unat (ss_total (ctl_snapshot c')) =
    min (unat (cn_total (cs_counters counters)) + bale_edges (db_new DEBOUNCE False) (map fst xs))
      (2 ^ 64 - 1)"
proof -
  have d: "ct_open_db (ctl_init counters) = db_new DEBOUNCE False"
      "ct_last_open_level (ctl_init counters) = db_level (db_new DEBOUNCE False)"
      "ct_counters (ctl_init counters) = counters"
    by (simp_all add: ctl_init_def) (simp add: db_new_def)
  show ?thesis
    using ctl_run_total [of "(ctl_init counters, w)" xs net bus] assms(1)
    unfolding assms(2) [symmetric] fst_conv d
    by (simp add: db_wf_new ctl_snapshot_def Let_def cs_snapshot_def)
qed

text \<open>A gate held open for five cycles counts once, the bus being healthy.\<close>

theorem total_counts_gate_openings_witness:
  "\<exists>c' w'. unat (ss_total (ctl_snapshot c')) = 1 \<and>
    (c', w') = run_end (ctl_step sim_network noop_bus) (ctl_init demo_store, demo_world)
      (replicate 5 (demo_inputs\<lparr>in_bale_open := True\<rparr>, [Wrap, ResetSession]))"
proof -
  obtain c' w' where e: "(c', w') = run_end (ctl_step sim_network noop_bus)
      (ctl_init demo_store, demo_world)
      (replicate 5 (demo_inputs\<lparr>in_bale_open := True\<rparr>, [Wrap, ResetSession]))"
    by (metis surj_pair)
  have "bale_edges (db_new DEBOUNCE False)
      (map fst (replicate 5 (demo_inputs\<lparr>in_bale_open := True\<rparr>, [Wrap, ResetSession]))) = 1"
    by code_simp
  then show ?thesis
    using total_counts_gate_openings [OF _ e] e
    by (auto simp: demo_store_def counters_default_def)
qed

end
