(* ===== verification/DaemonMain.thy ===== *)
theory DaemonMain
  imports NetworkMode Transport WagoBus WatchdogDev ControlCount
begin

text \<open>
  The daemon's two run paths (\<open>baler-daemon/src/main.rs\<close>): one iteration of the simulated scan
  loop, the EtherCAT control item with its bring-up deadline, maintenance flag and restart exit,
  the cycles of the executor around it, and the wait for the link before the bus is opened. Time
  is an argument (the elapsed time the clock shows), logging is left out.
\<close>

subsection \<open>The simulated loop\<close>

record ('n, 'd, 'rx, 'tx) sim_state =
  sm_control :: control
  sm_world :: "('n, unit) world"
  sm_wd :: 'd
  sm_rx :: 'rx
  sm_tx :: 'tx

text \<open>One iteration of \<open>run\<close>; the result is absent when the drain does not return.\<close>

definition sim_iter ::
  "'n net_port \<Rightarrow> 'd watchdog_port \<Rightarrow> ('rx, command) try_recv \<Rightarrow> ('tx, state_snapshot) send
   \<Rightarrow> u64 \<Rightarrow> ('n, 'd, 'rx, 'tx) sim_state \<Rightarrow> ('n, 'd, 'rx, 'tx) sim_state option" where
  "sim_iter net wd recv send elapsed_secs s =
     (let inputs = sim_poll elapsed_secs in
      case link_drain recv (sm_rx s) of
        None \<Rightarrow> None
      | Some (commands, rx) \<Rightarrow>
          let ((outs, snapshot), c, w) =
                ctl_step net noop_bus (sm_control s, sm_world s) (inputs, commands);
              _ = sim_write outs
          in Some \<lparr>sm_control = c, sm_world = w, sm_wd = wp_pet wd (sm_wd s), sm_rx = rx,
                   sm_tx = link_publish send snapshot (sm_tx s)\<rparr>)"

subsection \<open>The EtherCAT control item\<close>

definition BRINGUP_DEADLINE :: duration where
  "BRINGUP_DEADLINE = from_secs 12"

record ('n, 'r, 'w, 'd, 'rx, 'tx) ecat_env =
  ee_net :: "'n net_port"
  ee_bus_recv :: "('r, u8) try_recv"
  ee_bus_send :: "('w, u8) send"
  ee_wd :: "'d watchdog_port"
  ee_cmd_recv :: "('rx, command) try_recv"
  ee_state_send :: "('tx, state_snapshot) send"

text \<open>The captures of the closure, the exit flag and whether the executor was stopped.\<close>

record ('n, 'c, 'r, 'w, 'd, 'rx, 'tx) ecat_state =
  ec_control :: control
  ec_world :: "('n, ('c, 'r, 'w) wago) world"
  ec_wd :: 'd
  ec_rx :: 'rx
  ec_tx :: 'tx
  ec_ever_up :: bool
  ec_maintenance :: bool
  ec_restart_exit :: bool
  ec_stopped :: bool

definition ecat_start ::
  "control \<Rightarrow> ('n, ('c, 'r, 'w) wago) world \<Rightarrow> 'd \<Rightarrow> 'rx \<Rightarrow> 'tx
   \<Rightarrow> ('n, 'c, 'r, 'w, 'd, 'rx, 'tx) ecat_state" where
  "ecat_start c w d rx tx =
     \<lparr>ec_control = c, ec_world = w, ec_wd = d, ec_rx = rx, ec_tx = tx, ec_ever_up = False,
      ec_maintenance = False, ec_restart_exit = False, ec_stopped = False\<rparr>"

definition ecat_item ::
  "('n, 'r, 'w, 'd, 'rx, 'tx) ecat_env \<Rightarrow> duration \<Rightarrow> ('n, 'c, 'r, 'w, 'd, 'rx, 'tx) ecat_state
   \<Rightarrow> ('n, 'c, 'r, 'w, 'd, 'rx, 'tx) ecat_state option" where
  "ecat_item env elapsed s =
     (case wg_poll (ee_bus_recv env) (w_bus (ec_world s)) of
        None \<Rightarrow> None
      | Some (inputs, bus) \<Rightarrow>
          let s1 = s\<lparr>ec_world := (ec_world s)\<lparr>w_bus := bus\<rparr>\<rparr> in
          if \<not> in_healthy inputs \<and> \<not> ec_ever_up s \<and> \<not> ec_maintenance s \<and> BRINGUP_DEADLINE \<le> elapsed
          then Some (s1\<lparr>ec_restart_exit := True, ec_stopped := True\<rparr>)
          else
            let s2 = (if in_healthy inputs then s1\<lparr>ec_ever_up := True\<rparr> else s1) in
            case link_drain (ee_cmd_recv env) (ec_rx s2) of
              None \<Rightarrow> None
            | Some (commands, rx) \<Rightarrow>
                let ((outs, snapshot), c, w) =
                      ctl_step (ee_net env) wago_port (ec_control s2, ec_world s2) (inputs, commands);
                    maintenance = (if ss_mode snapshot = Ethernet then True else ec_maintenance s2);
                    (req, bus2) = wg_take_restart_request (w_bus w);
                    s3 = s2\<lparr>ec_control := c, ec_world := w\<lparr>w_bus := bus2\<rparr>, ec_rx := rx,
                            ec_maintenance := maintenance\<rparr>
                in if req then Some (s3\<lparr>ec_restart_exit := True, ec_stopped := True\<rparr>)
                   else Some (s3\<lparr>ec_world := w\<lparr>w_bus := wg_write (ee_bus_send env) outs bus2\<rparr>,
                                 ec_wd := wp_pet (ee_wd env) (ec_wd s3),
                                 ec_tx := link_publish (ee_state_send env) snapshot (ec_tx s3)\<rparr>))"

text \<open>The executor: the health pump and the control item, until the item stops it. Each cycle
  comes with the health events that arrived and the time elapsed.\<close>

fun ecat_run ::
  "('n, 'r, 'w, 'd, 'rx, 'tx) ecat_env \<Rightarrow> (health_kind list \<times> duration) list
   \<Rightarrow> ('n, 'c, 'r, 'w, 'd, 'rx, 'tx) ecat_state \<Rightarrow> ('n, 'c, 'r, 'w, 'd, 'rx, 'tx) ecat_state option" where
  "ecat_run env [] s = Some s"
| "ecat_run env ((events, elapsed) # cycles) s =
     (if ec_stopped s then Some s
      else
        let w = ec_world s in
        case ecat_item env elapsed (s\<lparr>ec_world := w\<lparr>w_bus := health_pump events (w_bus w)\<rparr>\<rparr>) of
          None \<Rightarrow> None
        | Some s' \<Rightarrow> ecat_run env cycles s')"

subsection \<open>Waiting for the link\<close>

definition says :: "str \<Rightarrow> io_error + str \<Rightarrow> bool" where
  "says word r = (case r of Inl _ \<Rightarrow> False | Inr s \<Rightarrow> trim s = word)"

text \<open>\<open>wait_for_carrier\<close> after its best-effort \<open>ip link set up\<close>: reading the two files of the
  interface, petting, publishing and sleeping act on a world \<open>'v\<close>.\<close>

partial_function (option) carrier_loop ::
  "(str \<Rightarrow> 'v \<Rightarrow> (io_error + str) \<times> 'v) \<Rightarrow> ('v \<Rightarrow> 'v) \<Rightarrow> ('v \<Rightarrow> 'v) \<Rightarrow> (duration \<Rightarrow> 'v \<Rightarrow> 'v)
   \<Rightarrow> str \<Rightarrow> str \<Rightarrow> 'v \<Rightarrow> 'v option" where
  "carrier_loop read pet on_wait sleep operstate carrier v =
     (let (r1, v1) = read operstate v;
          (r2, v2) = read carrier v1
      in if says (lit ''up'') r1 \<or> says (lit ''1'') r2 then Some v2
         else carrier_loop read pet on_wait sleep operstate carrier
                (sleep (from_millis 200) (on_wait (pet v2))))"

definition wait_for_carrier ::
  "(str \<Rightarrow> 'v \<Rightarrow> (io_error + str) \<times> 'v) \<Rightarrow> ('v \<Rightarrow> 'v) \<Rightarrow> ('v \<Rightarrow> 'v) \<Rightarrow> (duration \<Rightarrow> 'v \<Rightarrow> 'v)
   \<Rightarrow> (str list \<Rightarrow> 'v \<Rightarrow> 'v) \<Rightarrow> str \<Rightarrow> 'v \<Rightarrow> 'v option" where
  "wait_for_carrier read pet on_wait sleep run_ip_status nic v =
     carrier_loop read pet on_wait sleep
       (lit ''/sys/class/net/'' @ nic @ lit ''/operstate'') (lit ''/sys/class/net/'' @ nic @ lit ''/carrier'')
       (run_ip_status [lit ''link'', lit ''set'', nic, lit ''up''] v)"

end
