(* ===== verification/Carrier.thy ===== *)
theory Carrier
  imports DaemonMain
begin

text \<open>
  The wait for the link before the EtherCAT bus is opened (\<open>wait_for_carrier\<close> of
  \<open>baler-daemon/src/main.rs\<close>): it ends at the first poll that finds the link, having petted the
  watchdog and published the fault snapshot once per poll before, and it never ends without one.
\<close>

subsection \<open>Polls\<close>

text \<open>One poll: is the link there, and the world after the two reads.\<close>

definition link_poll ::
  "(str \<Rightarrow> 'v \<Rightarrow> (io_error + str) \<times> 'v) \<Rightarrow> str \<Rightarrow> str \<Rightarrow> 'v \<Rightarrow> bool \<times> 'v" where
  "link_poll read operstate carrier v =
     (let (r1, v1) = read operstate v; (r2, v2) = read carrier v1
      in (says (lit ''up'') r1 \<or> says (lit ''1'') r2, v2))"

definition wait_once :: "('v \<Rightarrow> 'v) \<Rightarrow> ('v \<Rightarrow> 'v) \<Rightarrow> (duration \<Rightarrow> 'v \<Rightarrow> 'v) \<Rightarrow> 'v \<Rightarrow> 'v" where
  "wait_once pet on_wait sleep v = sleep (from_millis 200) (on_wait (pet v))"

text \<open>The world before poll number \<open>n\<close>.\<close>

primrec poll_world ::
  "(str \<Rightarrow> 'v \<Rightarrow> (io_error + str) \<times> 'v) \<Rightarrow> ('v \<Rightarrow> 'v) \<Rightarrow> ('v \<Rightarrow> 'v) \<Rightarrow> (duration \<Rightarrow> 'v \<Rightarrow> 'v)
   \<Rightarrow> str \<Rightarrow> str \<Rightarrow> 'v \<Rightarrow> nat \<Rightarrow> 'v" where
  "poll_world read pet on_wait sleep op ca v 0 = v"
| "poll_world read pet on_wait sleep op ca v (Suc n) =
     poll_world read pet on_wait sleep op ca (wait_once pet on_wait sleep (snd (link_poll read op ca v))) n"

lemma carrier_loop_poll:
  "carrier_loop read pet on_wait sleep op ca v =
    (if fst (link_poll read op ca v) then Some (snd (link_poll read op ca v))
     else carrier_loop read pet on_wait sleep op ca
       (wait_once pet on_wait sleep (snd (link_poll read op ca v))))"
  by (subst carrier_loop.simps) (simp add: link_poll_def wait_once_def Let_def split_beta)

lemma carrier_loop_returns:
  assumes "fst (link_poll read op ca (poll_world read pet on_wait sleep op ca v n))"
    and "\<forall>k<n. \<not> fst (link_poll read op ca (poll_world read pet on_wait sleep op ca v k))"
  shows "carrier_loop read pet on_wait sleep op ca v =
    Some (snd (link_poll read op ca (poll_world read pet on_wait sleep op ca v n)))"
  using assms
proof (induction n arbitrary: v)
  case 0
  then show ?case by (subst carrier_loop_poll) simp
next
  case (Suc n)
  have "\<not> fst (link_poll read op ca v)" using Suc.prems(2) by (metis poll_world.simps(1) zero_less_Suc)
  moreover have "carrier_loop read pet on_wait sleep op ca
      (wait_once pet on_wait sleep (snd (link_poll read op ca v))) =
    Some (snd (link_poll read op ca (poll_world read pet on_wait sleep op ca v (Suc n))))"
    using Suc.IH [of "wait_once pet on_wait sleep (snd (link_poll read op ca v))"] Suc.prems
    by (metis Suc_less_eq poll_world.simps(2))
  ultimately show ?case by (subst carrier_loop_poll) simp
qed

lemma carrier_loop_found:
  assumes "carrier_loop read pet on_wait sleep op ca v = Some r"
  shows "\<exists>n. fst (link_poll read op ca (poll_world read pet on_wait sleep op ca v n))"
proof (rule carrier_loop.raw_induct [where P = "\<lambda>read pet on_wait sleep op ca v r.
      \<exists>n. fst (link_poll read op ca (poll_world read pet on_wait sleep op ca v n))", OF _ assms])
  fix loop :: "(str \<Rightarrow> 'a \<Rightarrow> (io_error + str) \<times> 'a) \<Rightarrow> ('a \<Rightarrow> 'a) \<Rightarrow> ('a \<Rightarrow> 'a) \<Rightarrow> (duration \<Rightarrow> 'a \<Rightarrow> 'a)
      \<Rightarrow> str \<Rightarrow> str \<Rightarrow> 'a \<Rightarrow> 'a option"
    and read pet on_wait sleep op ca v r
  assume IH: "\<And>read pet on_wait sleep op ca v r. loop read pet on_wait sleep op ca v = Some r \<Longrightarrow>
      \<exists>n. fst (link_poll read op ca (poll_world read pet on_wait sleep op ca v n))"
    and step: "(let (r1, v1) = read op v; (r2, v2) = read ca v1
      in if says (lit ''up'') r1 \<or> says (lit ''1'') r2 then Some v2
         else loop read pet on_wait sleep op ca (sleep (from_millis 200) (on_wait (pet v2)))) = Some r"
  show "\<exists>n. fst (link_poll read op ca (poll_world read pet on_wait sleep op ca v n))"
  proof (cases "fst (link_poll read op ca v)")
    case True
    then show ?thesis by (metis poll_world.simps(1))
  next
    case False
    then have "loop read pet on_wait sleep op ca (wait_once pet on_wait sleep (snd (link_poll read op ca v))) = Some r"
      using step by (simp add: link_poll_def wait_once_def Let_def split_beta)
    from IH [OF this] show ?thesis by (metis poll_world.simps(2))
  qed
qed

lemma carrier_loop_some:
  assumes "carrier_loop read pet on_wait sleep op ca v = Some r"
  shows "\<exists>n. r = snd (link_poll read op ca (poll_world read pet on_wait sleep op ca v n))"
proof -
  let ?up = "\<lambda>n. fst (link_poll read op ca (poll_world read pet on_wait sleep op ca v n))"
  have ex: "\<exists>n. ?up n" by (rule carrier_loop_found [OF assms])
  have "carrier_loop read pet on_wait sleep op ca v =
      Some (snd (link_poll read op ca (poll_world read pet on_wait sleep op ca v (LEAST n. ?up n))))"
    by (rule carrier_loop_returns) (use LeastI_ex [OF ex] not_less_Least in auto)
  then show ?thesis using assms by auto
qed

text \<open>What every call of the wait keeps holds when it returns.\<close>

lemma wait_for_carrier_keeps:
  assumes "wait_for_carrier read pet on_wait sleep run_ip_status nic v = Some r"
    and "I (run_ip_status [lit ''link'', lit ''set'', nic, lit ''up''] v)"
    and "\<And>p v. I v \<Longrightarrow> I (snd (read p v))" "\<And>v. I v \<Longrightarrow> I (pet v)" "\<And>v. I v \<Longrightarrow> I (on_wait v)"
    and "\<And>t v. I v \<Longrightarrow> I (sleep t v)"
  shows "I r"
proof -
  have poll: "I v \<Longrightarrow> I (snd (link_poll read op ca v))" for op ca v
    using assms(3) by (simp add: link_poll_def Let_def split_beta)
  have "I v \<Longrightarrow> I (poll_world read pet on_wait sleep op ca v n)" for op ca v n
    by (induction n arbitrary: v) (simp_all add: wait_once_def poll assms(4-6))
  then show ?thesis
    using carrier_loop_some [OF assms(1) [unfolded wait_for_carrier_def]] assms(2) poll by blast
qed

text \<open>C32. The wait for the link returns exactly when some poll finds the link, and then it has
  polled until the first such poll, petting the watchdog and publishing the fault snapshot once
  before every further poll; if the cable never appears it waits for ever rather than give up.
  (\<open>poll_world n\<close> is the world after \<open>n\<close> polls, each followed by a pet, a publication and a
  sleep of 200 ms.)\<close>

theorem wait_for_carrier_exact:
  fixes run_ip_status nic v read pet on_wait sleep
  defines "op \<equiv> lit ''/sys/class/net/'' @ nic @ lit ''/operstate''"
    and "ca \<equiv> lit ''/sys/class/net/'' @ nic @ lit ''/carrier''"
    and "start \<equiv> run_ip_status [lit ''link'', lit ''set'', nic, lit ''up''] v"
  shows "wait_for_carrier read pet on_wait sleep run_ip_status nic v =
    (if \<exists>n. fst (link_poll read op ca (poll_world read pet on_wait sleep op ca start n))
     then Some (snd (link_poll read op ca (poll_world read pet on_wait sleep op ca start
       (LEAST n. fst (link_poll read op ca (poll_world read pet on_wait sleep op ca start n))))))
     else None)"
proof -
  let ?up = "\<lambda>n. fst (link_poll read op ca (poll_world read pet on_wait sleep op ca start n))"
  have "carrier_loop read pet on_wait sleep op ca start =
      Some (snd (link_poll read op ca (poll_world read pet on_wait sleep op ca start (LEAST n. ?up n))))"
    if "\<exists>n. ?up n"
    by (rule carrier_loop_returns) (use LeastI_ex [OF that] not_less_Least in auto)
  moreover have "carrier_loop read pet on_wait sleep op ca start = None" if "\<nexists>n. ?up n"
    using that carrier_loop_found by fastforce
  ultimately show ?thesis
    by (simp add: wait_for_carrier_def op_def ca_def start_def)
qed

text \<open>A cable plugged in during the second wait.\<close>

definition demo_link :: "str \<Rightarrow> nat \<Rightarrow> (io_error + str) \<times> nat" where
  "demo_link p v = (Inr (if 2 \<le> v then lit ''up'' else lit ''down''), v)"

lemma demo_link_polls:
  "poll_world demo_link id id (\<lambda>_. Suc) op ca v n = v + n"
  by (induction n arbitrary: v) (simp_all add: wait_once_def link_poll_def demo_link_def)

theorem wait_for_carrier_exact_witness:
  "wait_for_carrier demo_link id id (\<lambda>_. Suc) (\<lambda>_. id) (lit ''eth0'') 0 = Some 2"
proof -
  have up: "fst (link_poll demo_link op ca v) \<longleftrightarrow> 2 \<le> v" "snd (link_poll demo_link op ca v) = v" for op ca v
    by (simp_all add: link_poll_def demo_link_def says_def trim_def is_ws_def)
  have "(LEAST n. 2 \<le> n) = (2 :: nat)" by (rule Least_equality) simp_all
  moreover have "\<exists>n. 2 \<le> (n :: nat)" by blast
  ultimately show ?thesis
    unfolding wait_for_carrier_exact by (simp only: demo_link_polls up id_apply add_0 if_True)
qed

end
