(* ===== verification/DaemonProps.thy ===== *)
theory DaemonProps
  imports DaemonMain
begin

text \<open>
  What the EtherCAT path of the daemon guarantees end to end: what ever reaches the wire, silence
  of the wire in maintenance mode, when the process exits for a fresh bus scan, that every other
  cycle feeds the watchdog and the panel, and how long the wait for the link lasts.
\<close>

subsection \<open>The control cycle on the WAGO bus\<close>

lemma wago_port_simps [simp]:
  "bp_suspend wago_port = wg_suspend"
  "bp_restart wago_port = wg_restart"
  by (simp_all add: wago_port_def)

text \<open>Between a cycle's poll and its write: the mode and the connector agree, unless a return was
  asked for, which is remembered until the item reads it.\<close>

definition bus_follows :: "control \<Rightarrow> ('n, ('c, 'r, 'w) wago) world \<Rightarrow> bool" where
  "bus_follows c w \<longleftrightarrow> wg_restart_requested (w_bus w)
     \<or> (bs_mode (ct_state c) = Ethernet \<longleftrightarrow> wg_connector (w_bus w) = None)"

lemma wg_ports_frame [simp]:
  "wg_writer (wg_suspend b) = wg_writer b"
  "wg_writer (wg_restart b) = wg_writer b"
  "wg_last_output (wg_suspend b) = wg_last_output b"
  "wg_last_output (wg_restart b) = wg_last_output b"
  "wg_connector (wg_suspend b) = None"
  "wg_connector (wg_restart b) = wg_connector b"
  "wg_restart_requested (wg_suspend b) = wg_restart_requested b"
  "wg_restart_requested (wg_restart b)"
  by (simp_all add: wg_suspend_def wg_restart_def)

text \<open>What a handled command says about maintenance mode.\<close>

lemma handle_switches:
  assumes "bs_handle cmd busy st0 = (q, st)"
  shows "q = Inr SwitchToEthernet \<Longrightarrow> bs_mode st = Ethernet"
    and "q \<noteq> Inr SwitchToEthernet \<Longrightarrow> q \<noteq> Inr SwitchToEthercat \<Longrightarrow>
      bs_mode st = Ethernet \<longleftrightarrow> bs_mode st0 = Ethernet"
  using bs_handle_mode [of cmd busy st0] bs_handle_accepts(3,4) [of cmd busy st0] assms
  by (auto split: if_splits)

lemma wago_command:
  fixes net :: "'n net_port" and w :: "('n, ('c, 'r, 'w) wago) world" and cmd :: command and g :: bool
  assumes "bus_follows c w"
  defines "t \<equiv> snd (ctl_command net wago_port cmd (g, c, w))"
  shows "bus_follows (fst t) (snd t) \<and> wg_writer (w_bus (snd t)) = wg_writer (w_bus w)
    \<and> wg_last_output (w_bus (snd t)) = wg_last_output (w_bus w)"
  unfolding t_def
proof (rule ctl_command_cases [of cmd net wago_port g c w])
  fix q st
  assume h: "bs_handle cmd (ctl_any_active c) (ct_state c) = (q, st)"
    and e: "ctl_command net wago_port cmd (g, c, w) =
      (g, ctl_action net wago_port (ctl_knife_active c) q (c\<lparr>ct_state := st\<rparr>, w))"
  let ?t = "snd (ctl_command net wago_port cmd (g, c, w))"
  show "bus_follows (fst ?t) (snd ?t) \<and> wg_writer (w_bus (snd ?t)) = wg_writer (w_bus w)
    \<and> wg_last_output (w_bus (snd ?t)) = wg_last_output (w_bus w)"
  proof (cases "q = Inr SwitchToEthernet \<or> q = Inr SwitchToEthercat")
    case True
    then show ?thesis using handle_switches(1) [OF h] by (auto simp: e bus_follows_def ctl_action_switch)
  next
    case False
    then have other: "q \<noteq> Inr SwitchToEthernet" "q \<noteq> Inr SwitchToEthercat" by simp_all
    show ?thesis
      using assms(1) handle_switches(2) [OF h other]
        ctl_action_ports [OF other, of net wago_port "ctl_knife_active c" "c\<lparr>ct_state := st\<rparr>" w]
      by (simp add: e bus_follows_def)
  qed
qed (use assms(1) in \<open>simp_all add: bus_follows_def\<close>)

lemma wago_step:
  fixes net :: "'n net_port" and cw :: "control \<times> ('n, ('c, 'r, 'w) wago) world"
    and ic :: "inputs \<times> command list"
  assumes "bus_follows (fst cw) (snd cw)"
  defines "t \<equiv> snd (ctl_step net wago_port cw ic)"
  shows "bus_follows (fst t) (snd t)"
    and "wg_writer (w_bus (snd t)) = wg_writer (w_bus (snd cw))"
    and "wg_last_output (w_bus (snd t)) = wg_last_output (w_bus (snd cw))"
proof -
  let ?P = "\<lambda>c w. bus_follows c w \<and> wg_writer (w_bus w) = wg_writer (w_bus (snd cw))
    \<and> wg_last_output (w_bus w) = wg_last_output (w_bus (snd cw))"
  have "?P (fst (ctl_body net wago_port cw ic)) (snd (ctl_body net wago_port cw ic))"
  proof (rule ctl_body_invariant [where P = ?P])
    show "?P (fst (ctl_pre (fst ic) cw)) (snd (ctl_pre (fst ic) cw))"
      using assms(1) by (auto simp: bus_follows_def on_bus_health_mode)
    show "?P (fst (snd (ctl_command net wago_port cmd (g, c, w))))
        (snd (snd (ctl_command net wago_port cmd (g, c, w))))"
      if "cmd \<in> set (snd ic)" "?P c w" for cmd g c w
      using wago_command [of c w net cmd g] that(2) by simp
  qed
  then show "bus_follows (fst t) (snd t)"
    and "wg_writer (w_bus (snd t)) = wg_writer (w_bus (snd cw))"
    and "wg_last_output (w_bus (snd t)) = wg_last_output (w_bus (snd cw))"
    by (simp_all add: t_def bus_follows_def ctl_step_fields)
qed

subsection \<open>The ways one run of the item can end\<close>

text \<open>The state the control cycle starts from, and its result.\<close>

definition item_cycle ::
  "('n, 'r, 'w, 'd, 'rx, 'tx) ecat_env \<Rightarrow> ('n, 'c, 'r, 'w, 'd, 'rx, 'tx) ecat_state
   \<Rightarrow> inputs \<Rightarrow> ('c, 'r, 'w) wago \<Rightarrow> command list
   \<Rightarrow> (outputs \<times> state_snapshot) \<times> control \<times> ('n, ('c, 'r, 'w) wago) world" where
  "item_cycle env s i bus cmds =
     ctl_step (ee_net env) wago_port (ec_control s, (ec_world s)\<lparr>w_bus := bus\<rparr>) (i, cmds)"

lemma ecat_item_cases:
  assumes "ecat_item env elapsed s = Some s'"
  obtains (deadline) i bus where
      "wg_poll (ee_bus_recv env) (w_bus (ec_world s)) = Some (i, bus)"
      "\<not> in_healthy i" "\<not> ec_ever_up s" "\<not> ec_maintenance s" "BRINGUP_DEADLINE \<le> elapsed"
      "s' = s\<lparr>ec_world := (ec_world s)\<lparr>w_bus := bus\<rparr>, ec_restart_exit := True, ec_stopped := True\<rparr>"
  | (return) i bus cmds rx outs snap c w where
      "wg_poll (ee_bus_recv env) (w_bus (ec_world s)) = Some (i, bus)"
      "link_drain (ee_cmd_recv env) (ec_rx s) = Some (cmds, rx)"
      "item_cycle env s i bus cmds = ((outs, snap), c, w)"
      "wg_restart_requested (w_bus w)" "ec_stopped s'" "ec_restart_exit s'"
      "ec_wd s' = ec_wd s" "ec_tx s' = ec_tx s"
      "wg_writer (w_bus (ec_world s')) = wg_writer (w_bus w)"
  | (cycle) i bus cmds rx outs snap c w where
      "wg_poll (ee_bus_recv env) (w_bus (ec_world s)) = Some (i, bus)"
      "link_drain (ee_cmd_recv env) (ec_rx s) = Some (cmds, rx)"
      "item_cycle env s i bus cmds = ((outs, snap), c, w)"
      "\<not> wg_restart_requested (w_bus w)"
      "s' = s\<lparr>ec_control := c,
        ec_world := w\<lparr>w_bus := wg_write (ee_bus_send env) outs ((w_bus w)\<lparr>wg_restart_requested := False\<rparr>)\<rparr>,
        ec_wd := wp_pet (ee_wd env) (ec_wd s), ec_rx := rx,
        ec_tx := link_publish (ee_state_send env) snap (ec_tx s),
        ec_ever_up := ec_ever_up s \<or> in_healthy i,
        ec_maintenance := ec_maintenance s \<or> ss_mode snap = Ethernet\<rparr>"
proof -
  obtain i bus where p: "wg_poll (ee_bus_recv env) (w_bus (ec_world s)) = Some (i, bus)"
    using assms by (auto simp: ecat_item_def split: option.splits)
  show thesis
  proof (cases "\<not> in_healthy i \<and> \<not> ec_ever_up s \<and> \<not> ec_maintenance s \<and> BRINGUP_DEADLINE \<le> elapsed")
    case True
    then show thesis using deadline [OF p] assms by (simp add: ecat_item_def p)
  next
    case False
    obtain cmds rx where d: "link_drain (ee_cmd_recv env) (ec_rx s) = Some (cmds, rx)"
      using assms False
      by (cases "link_drain (ee_cmd_recv env) (ec_rx s)")
        (auto simp: ecat_item_def p Let_def split: if_splits)
    obtain outs snap c w where c: "item_cycle env s i bus cmds = ((outs, snap), c, w)"
      by (metis prod.collapse)
    show thesis
    proof (cases "wg_restart_requested (w_bus w)")
      case True
      show thesis
        by (rule return [OF p d c True])
          (use assms False True c in \<open>auto simp: ecat_item_def p d item_cycle_def Let_def
            wg_take_restart_request_def split: if_splits\<close>)
    next
      case nr: False
      show thesis
        by (rule cycle [OF p d c nr])
          (use assms False nr c in \<open>auto simp: ecat_item_def p d item_cycle_def Let_def
            wg_take_restart_request_def split: if_splits\<close>)
    qed
  qed
qed

subsection \<open>The invariant of the item\<close>

definition pumped ::
  "health_kind list \<Rightarrow> ('n, 'c, 'r, 'w, 'd, 'rx, 'tx) ecat_state \<Rightarrow> ('n, 'c, 'r, 'w, 'd, 'rx, 'tx) ecat_state" where
  "pumped events s = s\<lparr>ec_world := (ec_world s)\<lparr>w_bus := health_pump events (w_bus (ec_world s))\<rparr>\<rparr>"

lemma health_pump_frame [simp]:
  "wg_connector (health_pump events b) = wg_connector b"
  "wg_reader (health_pump events b) = wg_reader b"
  "wg_writer (health_pump events b) = wg_writer b"
  "wg_last_output (health_pump events b) = wg_last_output b"
  "wg_restart_requested (health_pump events b) = wg_restart_requested b"
  unfolding health_pump_def by (induction events arbitrary: b) simp_all

lemma pumped_simps [simp]:
  "ec_control (pumped events s) = ec_control s"
  "ec_stopped (pumped events s) = ec_stopped s"
  "ec_ever_up (pumped events s) = ec_ever_up s"
  "ec_maintenance (pumped events s) = ec_maintenance s"
  "ec_wd (pumped events s) = ec_wd s"
  "ec_rx (pumped events s) = ec_rx s"
  "ec_tx (pumped events s) = ec_tx s"
  "w_bus (ec_world (pumped events s)) = health_pump events (w_bus (ec_world s))"
  by (simp_all add: pumped_def)

lemma ecat_run_Cons:
  "ecat_run env ((events, elapsed) # cycles) s =
    (if ec_stopped s then Some s
     else case ecat_item env elapsed (pumped events s) of None \<Rightarrow> None | Some s' \<Rightarrow> ecat_run env cycles s')"
  by (simp add: pumped_def Let_def)

lemma ecat_run_invariant:
  assumes "\<And>events elapsed s s'. I s \<Longrightarrow> \<not> ec_stopped s \<Longrightarrow>
      ecat_item env elapsed (pumped events s) = Some s' \<Longrightarrow> I s'"
  shows "ecat_run env cycles s = Some s' \<Longrightarrow> I s \<Longrightarrow> I s'"
proof (induction cycles arbitrary: s)
  case Nil
  then show ?case by simp
next
  case (Cons c cycles)
  obtain events elapsed where c: "c = (events, elapsed)" by fastforce
  show ?case
    using Cons.prems Cons.IH assms unfolding c ecat_run_Cons
    by (auto split: if_splits option.splits)
qed

lemma wg_poll_frame:
  assumes "wg_poll recv b = Some (i, b')"
  shows "wg_connector b' = wg_connector b" "wg_writer b' = wg_writer b"
    "wg_last_output b' = wg_last_output b" "wg_restart_requested b' = wg_restart_requested b"
    "wg_connector b = None \<Longrightarrow> \<not> in_healthy i"
  using assms by (auto simp: wg_poll_def Let_def split: if_splits)

text \<open>The byte on the wire never has both knife bits.\<close>

definition one_knife :: "u8 option \<Rightarrow> bool" where
  "one_knife v \<longleftrightarrow> (\<forall>b. v = Some b \<longrightarrow> \<not> (bit b 1 \<and> bit b 2))"

definition ecat_inv :: "('w \<Rightarrow> u8 option) \<Rightarrow> ('n, 'c, 'r, 'w, 'd, 'rx, 'tx) ecat_state \<Rightarrow> bool" where
  "ecat_inv wire s \<longleftrightarrow>
     one_knife (wire (wg_writer (w_bus (ec_world s))))
     \<and> (\<not> ec_stopped s \<longrightarrow> ctl_inv (ec_control s) \<and> \<not> wg_restart_requested (w_bus (ec_world s))
        \<and> (bs_mode (ct_state (ec_control s)) = Ethernet \<longleftrightarrow> wg_connector (w_bus (ec_world s)) = None))"

lemma one_knife_out_byte: "\<not> (out_knives_in out \<and> out_knives_out out) \<Longrightarrow> one_knife (Some (out_byte out))"
  using out_byte_bits [of out 1] out_byte_bits [of out 2]
  by (auto simp: one_knife_def bit_of_bit bit_consts)

text \<open>What the control cycle inside the item does to the bus.\<close>

lemma item_cycle_bus:
  assumes "item_cycle env s i bus cmds = ((outs, snap), c, w)"
    and "ctl_inv (ec_control s)" "\<not> wg_restart_requested bus"
    and "bs_mode (ct_state (ec_control s)) = Ethernet \<longleftrightarrow> wg_connector bus = None"
  shows "ctl_inv c" "safe_outputs (i, cmds) (outs, snap)" "bus_follows c w"
    "wg_writer (w_bus w) = wg_writer bus" "wg_last_output (w_bus w) = wg_last_output bus"
    "snap = ctl_snapshot c"
proof -
  let ?cw = "(ec_control s, (ec_world s)\<lparr>w_bus := bus\<rparr>)"
  have f: "bus_follows (fst ?cw) (snd ?cw)" using assms(3,4) by (simp add: bus_follows_def)
  note r = assms(1) [unfolded item_cycle_def]
  show "ctl_inv c" using ctl_inv_step [of ?cw "ee_net env" wago_port "(i, cmds)"] assms(2) r by simp
  show "safe_outputs (i, cmds) (outs, snap)"
    using ctl_step_safe [of ?cw "(i, cmds)" "ee_net env" wago_port] assms(2) r by simp
  show "bus_follows c w" "wg_writer (w_bus w) = wg_writer bus"
    "wg_last_output (w_bus w) = wg_last_output bus"
    using wago_step [OF f, of "ee_net env" "(i, cmds)"] r by simp_all
  show "snap = ctl_snapshot c"
    using ctl_snapshot_after [of "ee_net env" wago_port ?cw "(i, cmds)"] r by simp
qed

lemma ecat_inv_item:
  assumes send: "send_documented (ee_bus_send env) wire"
    and inv: "ecat_inv wire s" and go: "\<not> ec_stopped s"
    and item: "ecat_item env elapsed (pumped events s) = Some s'"
  shows "ecat_inv wire s'"
proof (rule ecat_item_cases [OF item])
  fix i bus
  assume "wg_poll (ee_bus_recv env) (w_bus (ec_world (pumped events s))) = Some (i, bus)"
    and "s' = (pumped events s)\<lparr>ec_world := (ec_world (pumped events s))\<lparr>w_bus := bus\<rparr>,
      ec_restart_exit := True, ec_stopped := True\<rparr>"
  then show ?thesis using inv wg_poll_frame(2) by (fastforce simp: ecat_inv_def)
next
  fix i bus cmds rx outs snap c w
  assume p: "wg_poll (ee_bus_recv env) (w_bus (ec_world (pumped events s))) = Some (i, bus)"
    and c: "item_cycle env (pumped events s) i bus cmds = ((outs, snap), c, w)"
    and e: "ec_stopped s'" "wg_writer (w_bus (ec_world s')) = wg_writer (w_bus w)"
  have "wg_writer (w_bus w) = wg_writer bus"
    by (rule item_cycle_bus(4) [OF c]) (use inv go wg_poll_frame [OF p] in \<open>simp_all add: ecat_inv_def\<close>)
  then show ?thesis using inv e wg_poll_frame(2) [OF p] by (simp add: ecat_inv_def)
next
  fix i bus cmds rx outs snap c w
  assume p: "wg_poll (ee_bus_recv env) (w_bus (ec_world (pumped events s))) = Some (i, bus)"
    and c: "item_cycle env (pumped events s) i bus cmds = ((outs, snap), c, w)"
    and nr: "\<not> wg_restart_requested (w_bus w)"
    and e: "s' = (pumped events s)\<lparr>ec_control := c,
        ec_world := w\<lparr>w_bus := wg_write (ee_bus_send env) outs ((w_bus w)\<lparr>wg_restart_requested := False\<rparr>)\<rparr>,
        ec_wd := wp_pet (ee_wd env) (ec_wd (pumped events s)), ec_rx := rx,
        ec_tx := link_publish (ee_state_send env) snap (ec_tx (pumped events s)),
        ec_ever_up := ec_ever_up (pumped events s) \<or> in_healthy i,
        ec_maintenance := ec_maintenance (pumped events s) \<or> ss_mode snap = Ethernet\<rparr>"
  have pre: "ctl_inv (ec_control (pumped events s))" "\<not> wg_restart_requested bus"
      "bs_mode (ct_state (ec_control (pumped events s))) = Ethernet \<longleftrightarrow> wg_connector bus = None"
    using inv go wg_poll_frame [OF p] by (simp_all add: ecat_inv_def)
  note k = item_cycle_bus [OF c pre]
  have "\<not> (out_knives_in outs \<and> out_knives_out outs)" using k(2) by (simp add: safe_outputs_def)
  then have "one_knife (wire (wg_writer (wg_write (ee_bus_send env) outs
      ((w_bus w)\<lparr>wg_restart_requested := False\<rparr>))))"
    using inv k(4) wg_poll_frame(2) [OF p] one_knife_out_byte
    by (simp add: wire_after [OF send] ecat_inv_def)
  then show ?thesis using k(1,3) nr by (simp add: ecat_inv_def e bus_follows_def)
qed

lemma ecat_inv_start:
  "wire (wg_writer (w_bus w)) = None \<Longrightarrow> wg_connector (w_bus w) \<noteq> None \<Longrightarrow>
   \<not> wg_restart_requested (w_bus w) \<Longrightarrow> ecat_inv wire (ecat_start (ctl_init counters) w d rx tx)"
  by (simp add: ecat_inv_def ecat_start_def one_knife_def ctl_inv_init ctl_init_def [THEN arg_cong, of ct_state]
      bs_new_def)

subsection \<open>A daemon to instantiate the parameters with\<close>

definition demo_env :: "(unit, u8 list, nat \<times> u8 option, nat, command list, state_snapshot list) ecat_env" where
  "demo_env = \<lparr>ee_net = sim_network, ee_bus_recv = queue_recv, ee_bus_send = flaky_send,
     ee_wd = \<lparr>wp_pet = Suc\<rparr>, ee_cmd_recv = queue_recv, ee_state_send = (\<lambda>s l. (Inr (), l @ [s]))\<rparr>"

definition demo_start ::
  "command list \<Rightarrow> (unit, unit, u8 list, nat \<times> u8 option, nat, command list, state_snapshot list) ecat_state" where
  "demo_start cmds = ecat_start (ctl_init demo_store)
     \<lparr>w_fs = empty_fs, w_net = (), w_bus = wago_new () [2] (0, None) Up\<rparr> 0 cmds []"

lemma flaky_documented: "send_documented flaky_send snd"
  by (auto simp: send_documented_def flaky_send_def split: nat.splits prod.splits)

lemma demo_poll:
  "wg_poll queue_recv (wago_new () [2 :: u8] (0 :: nat, None :: u8 option) Up) =
    Some (\<lparr>in_bale_full = False, in_knife_in = True, in_bale_open = False, in_healthy = True\<rparr>,
      (wago_new () [] (0, None) Up)\<lparr>wg_last_input := 2\<rparr>)"
proof -
  have q: "backlog queue_recv (Suc 1) [2 :: u8] = Some ([2], [])" using queue_backlog [of "[2 :: u8]"] by simp
  have "bit_of 2 0 = False" "bit_of 2 1 = True" "bit_of 2 2 = False" by code_simp+
  then show ?thesis
    using poll_loop_backlog [OF q, of 0]
    by (simp add: wg_poll_def wago_new_def wg_is_healthy_def Let_def bit_consts)
qed

lemma demo_drain: "link_drain queue_recv cmds = Some (cmds, [])"
  using drain_loop_backlog [OF queue_backlog, of "[]" cmds] by (simp add: link_drain_def)

text \<open>The item, once the poll and the drain have returned.\<close>

lemma ecat_item_eq:
  assumes "wg_poll (ee_bus_recv env) (w_bus (ec_world s)) = Some (i, bus)"
    and "in_healthy i \<or> ec_ever_up s \<or> ec_maintenance s \<or> \<not> BRINGUP_DEADLINE \<le> elapsed"
    and "link_drain (ee_cmd_recv env) (ec_rx s) = Some (cmds, rx)"
    and "item_cycle env s i bus cmds = ((outs, snap), c, w)"
  shows "\<exists>s'. ecat_item env elapsed s = Some s' \<and> ec_control s' = c
    \<and> (ec_stopped s' \<longleftrightarrow> ec_stopped s \<or> wg_restart_requested (w_bus w))
    \<and> (\<not> wg_restart_requested (w_bus w) \<longrightarrow>
        wg_writer (w_bus (ec_world s')) = wg_writer (wg_write (ee_bus_send env) outs (w_bus w)))"
  using assms
  by (auto simp: ecat_item_def item_cycle_def Let_def wg_take_restart_request_def wg_write_writer sends_def)

definition demo_inputs2 :: inputs where
  "demo_inputs2 = \<lparr>in_bale_full = False, in_knife_in = True, in_bale_open = False, in_healthy = True\<rparr>"

lemma demo_item:
  "\<exists>s. ecat_item demo_env DUR_ZERO (pumped [] (demo_start cmds)) = Some s
    \<and> (let ((outs, _), c, w) = item_cycle demo_env (pumped [] (demo_start cmds)) demo_inputs2
          ((wago_new () [] (0, None) Up)\<lparr>wg_last_input := 2\<rparr>) cmds
       in ec_control s = c \<and> (ec_stopped s \<longleftrightarrow> wg_restart_requested (w_bus w))
         \<and> (\<not> wg_restart_requested (w_bus w) \<longrightarrow>
             wg_writer (w_bus (ec_world s)) = wg_writer (wg_write flaky_send outs (w_bus w))))"
proof -
  let ?s = "pumped [] (demo_start cmds)"
  let ?b = "(wago_new () [] (0, None) Up)\<lparr>wg_last_input := 2\<rparr>"
  have p: "wg_poll (ee_bus_recv demo_env) (w_bus (ec_world ?s)) = Some (demo_inputs2, ?b)"
    using demo_poll by (simp add: demo_env_def demo_start_def ecat_start_def health_pump_def demo_inputs2_def)
  have d: "link_drain (ee_cmd_recv demo_env) (ec_rx ?s) = Some (cmds, [])"
    using demo_drain by (simp add: demo_env_def demo_start_def ecat_start_def)
  have h: "in_healthy demo_inputs2 \<or> ec_ever_up ?s \<or> ec_maintenance ?s \<or> \<not> BRINGUP_DEADLINE \<le> DUR_ZERO"
    by (simp add: demo_inputs2_def)
  obtain outs snap c w where c: "item_cycle demo_env ?s demo_inputs2 ?b cmds = ((outs, snap), c, w)"
    by (metis prod.collapse)
  have "\<not> ec_stopped ?s" by (simp add: demo_start_def ecat_start_def)
  then show ?thesis using ecat_item_eq [OF p h d c] c by (auto simp: demo_env_def)
qed

subsection \<open>Properties\<close>

text \<open>C2. The wire is interlocked end to end: from power-up, through any cycles of the EtherCAT
  run, with any health events, input bytes, commands, clock and network, the byte last accepted
  by the bus never has both knife outputs set.\<close>

theorem wire_never_both_knives:
  assumes "send_documented (ee_bus_send env) wire"
    and "wire writer = None"
    and "ecat_run env cycles (ecat_start (ctl_init counters)
        \<lparr>w_fs = f, w_net = n, w_bus = wago_new connector reader writer kind\<rparr> d rx tx) = Some s"
    and "wire (wg_writer (w_bus (ec_world s))) = Some b"
  shows "\<not> (bit b BIT_KNIVES_IN \<and> bit b BIT_KNIVES_OUT)"
proof -
  have "ecat_inv wire s"
    by (rule ecat_run_invariant [OF ecat_inv_item [OF assms(1)] assms(3)])
      (simp_all add: ecat_inv_start wago_new_def assms(2))
  then show ?thesis using assms(4) by (simp add: ecat_inv_def one_knife_def bit_consts)
qed

theorem wire_never_both_knives_witness:
  "\<exists>s b. ecat_run demo_env [([], DUR_ZERO)] (demo_start [ManualIo False True True]) = Some s
     \<and> snd (wg_writer (w_bus (ec_world s))) = Some b \<and> \<not> (bit b BIT_KNIVES_IN \<and> bit b BIT_KNIVES_OUT)"
proof -
  let ?b = "(wago_new () [] (0, None) Up)\<lparr>wg_last_input := 2\<rparr>"
  let ?r = "item_cycle demo_env (pumped [] (demo_start [ManualIo False True True])) demo_inputs2 ?b [ManualIo False True True]"
  obtain s where i: "ecat_item demo_env DUR_ZERO (pumped [] (demo_start [ManualIo False True True])) = Some s"
      and w: "\<not> wg_restart_requested (w_bus (snd (snd ?r))) \<longrightarrow>
        wg_writer (w_bus (ec_world s)) = wg_writer (wg_write flaky_send (fst (fst ?r)) (w_bus (snd (snd ?r))))"
    using demo_item [of "[ManualIo False True True]"] by (auto simp: Let_def split_beta)
  have "\<not> wg_restart_requested (w_bus (snd (snd ?r)))
      \<and> wg_writer (wg_write flaky_send (fst (fst ?r)) (w_bus (snd (snd ?r)))) = (0, Some 2)" by code_simp
  with w have two: "snd (wg_writer (w_bus (ec_world s))) = Some 2" by simp
  have run: "ecat_run demo_env [([], DUR_ZERO)] (demo_start [ManualIo False True True]) = Some s"
    unfolding ecat_run_Cons by (simp add: i) (simp add: demo_start_def ecat_start_def)
  have doc: "send_documented (ee_bus_send demo_env) snd" by (simp add: demo_env_def flaky_documented)
  show ?thesis
    using wire_never_both_knives [OF doc _ run [unfolded demo_start_def] two] run two by auto
qed

text \<open>C16. Maintenance mode is silent on the wire: in a run from power-up, a cycle that ends with
  the daemon in Ethernet mode sent nothing to the bus, not even in the cycle that entered the
  mode and not in manual-IO, and the connector is gone.\<close>

theorem maintenance_wire_silent:
  assumes "send_documented (ee_bus_send env) wire" "wire writer = None"
    and "ecat_run env cycles (ecat_start (ctl_init counters)
        \<lparr>w_fs = f, w_net = n, w_bus = wago_new connector reader writer kind\<rparr> d rx tx) = Some s"
    and "\<not> ec_stopped s" "ecat_item env elapsed (pumped events s) = Some s'" "\<not> ec_stopped s'"
    and "bs_mode (ct_state (ec_control s')) = Ethernet"
  shows "wg_writer (w_bus (ec_world s')) = wg_writer (w_bus (ec_world s))
    \<and> wg_connector (w_bus (ec_world s')) = None"
proof -
  have inv: "ecat_inv wire s"
    by (rule ecat_run_invariant [OF ecat_inv_item [OF assms(1)] assms(3)])
      (simp_all add: ecat_inv_start wago_new_def assms(2))
  have gone: "wg_connector (w_bus (ec_world s')) = None"
    using ecat_inv_item [OF assms(1) inv assms(4,5)] assms(6,7) by (simp add: ecat_inv_def)
  show ?thesis
  proof (rule ecat_item_cases [OF assms(5)])
    fix i bus cmds rx outs snap c w
    assume p: "wg_poll (ee_bus_recv env) (w_bus (ec_world (pumped events s))) = Some (i, bus)"
      and c: "item_cycle env (pumped events s) i bus cmds = ((outs, snap), c, w)"
      and e: "s' = (pumped events s)\<lparr>ec_control := c,
          ec_world := w\<lparr>w_bus := wg_write (ee_bus_send env) outs ((w_bus w)\<lparr>wg_restart_requested := False\<rparr>)\<rparr>,
          ec_wd := wp_pet (ee_wd env) (ec_wd (pumped events s)), ec_rx := rx,
          ec_tx := link_publish (ee_state_send env) snap (ec_tx (pumped events s)),
          ec_ever_up := ec_ever_up (pumped events s) \<or> in_healthy i,
          ec_maintenance := ec_maintenance (pumped events s) \<or> ss_mode snap = Ethernet\<rparr>"
    have "wg_writer (w_bus w) = wg_writer bus"
      by (rule item_cycle_bus(4) [OF c]) (use inv assms(4) wg_poll_frame [OF p] in \<open>simp_all add: ecat_inv_def\<close>)
    then show ?thesis
      using gone wg_poll_frame(2) [OF p] by (simp add: e wg_write_writer sends_def)
  qed (use assms(6) in simp_all)
qed

theorem maintenance_wire_silent_witness:
  "\<exists>s'. ecat_item demo_env DUR_ZERO (pumped [] (demo_start [EnterEthernet])) = Some s'
    \<and> wg_writer (w_bus (ec_world s')) = (0, None)"
proof -
  let ?b = "(wago_new () [] (0, None) Up)\<lparr>wg_last_input := 2\<rparr>"
  let ?r = "item_cycle demo_env (pumped [] (demo_start [EnterEthernet])) demo_inputs2 ?b [EnterEthernet]"
  obtain s' where i: "ecat_item demo_env DUR_ZERO (pumped [] (demo_start [EnterEthernet])) = Some s'"
      and c: "ec_control s' = fst (snd ?r)" "ec_stopped s' \<longleftrightarrow> wg_restart_requested (w_bus (snd (snd ?r)))"
    using demo_item [of "[EnterEthernet]"] by (auto simp: Let_def split_beta)
  have m: "bs_mode (ct_state (fst (snd ?r))) = Ethernet" by code_simp
  have r: "\<not> wg_restart_requested (w_bus (snd (snd ?r)))" by code_simp
  have st: "\<not> ec_stopped (demo_start [EnterEthernet])" by (simp add: demo_start_def ecat_start_def)
  have "wg_writer (w_bus (ec_world s')) = wg_writer (w_bus (ec_world (demo_start [EnterEthernet])))"
    using maintenance_wire_silent [of demo_env snd "(0, None)" "[]" demo_store empty_fs "()" "()" "[2]" Up 0
        "[EnterEthernet]" "[]" "demo_start [EnterEthernet]" DUR_ZERO "[]" s'] flaky_documented i c m r st
    by (simp add: demo_start_def demo_env_def)
  then show ?thesis using i by (simp add: demo_start_def ecat_start_def wago_new_def)
qed

text \<open>Only an accepted return to EtherCAT asks for a restart: one that finds the machine in
  maintenance.\<close>

lemma restart_command:
  fixes net :: "'n net_port" and w :: "('n, ('c, 'r, 'w) wago) world"
  assumes "\<not> wg_restart_requested (w_bus w)"
    and "wg_restart_requested (w_bus (snd (snd (ctl_command net wago_port cmd (g, c, w)))))"
  shows "cmd = ReturnToEthercat \<and> bs_mode (ct_state c) = Ethernet"
proof (rule ctl_command_cases [of cmd net wago_port g c w])
  fix q st
  assume h: "bs_handle cmd (ctl_any_active c) (ct_state c) = (q, st)"
    and e: "ctl_command net wago_port cmd (g, c, w) =
      (g, ctl_action net wago_port (ctl_knife_active c) q (c\<lparr>ct_state := st\<rparr>, w))"
  have "q = Inr SwitchToEthercat"
  proof (rule ccontr)
    assume ne: "q \<noteq> Inr SwitchToEthercat"
    then show False
      using assms ctl_action_ports [OF _ ne, of net wago_port "ctl_knife_active c" "c\<lparr>ct_state := st\<rparr>" w]
      by (cases "q = Inr SwitchToEthernet") (simp_all add: e ctl_action_switch)
  qed
  then show ?thesis using bs_handle_accepts(4) [of cmd "ctl_any_active c" "ct_state c"] h by simp
qed (use assms in simp_all)

lemma restart_split:
  fixes net :: "'n net_port" and cw :: "control \<times> ('n, ('c, 'r, 'w) wago) world"
  assumes "\<not> wg_restart_requested (w_bus (snd cw))"
    and "wg_restart_requested (w_bus (snd (ctl_body net wago_port cw (i, cmds))))"
  shows "\<exists>before after. cmds = before @ ReturnToEthercat # after
    \<and> bs_mode (ct_state (fst (ctl_body net wago_port cw (i, before)))) = Ethernet"
  using assms(2)
proof (induction cmds rule: rev_induct)
  case Nil
  then show ?case using assms(1) by (simp add: ctl_body_def ctl_commands_def ctl_pre_def Let_def split_beta)
next
  case (snoc cmd cmds)
  show ?case
  proof (cases "wg_restart_requested (w_bus (snd (ctl_body net wago_port cw (i, cmds))))")
    case True
    then obtain before after where "cmds = before @ ReturnToEthercat # after"
        "bs_mode (ct_state (fst (ctl_body net wago_port cw (i, before)))) = Ethernet"
      using snoc.IH by blast
    then show ?thesis by (intro exI [of _ before] exI [of _ "after @ [cmd]"]) simp
  next
    case False
    obtain g c w where t: "ctl_commands net wago_port cmds (ctl_pre i cw) = (g, c, w)" by (metis prod.collapse)
    then have c: "ctl_body net wago_port cw (i, cmds) = (c, w)" by (simp add: ctl_body_def)
    have "ctl_body net wago_port cw (i, cmds @ [cmd]) = snd (ctl_command net wago_port cmd (g, c, w))"
      using t by (simp add: ctl_body_def ctl_commands_def)
    then have "cmd = ReturnToEthercat \<and> bs_mode (ct_state c) = Ethernet"
      using restart_command [of w net cmd g c] False snoc.prems c by simp
    then show ?thesis using c by (intro exI [of _ cmds] exI [of _ "[]"]) simp
  qed
qed

lemma restart_needs_return:
  fixes net :: "'n net_port" and cw :: "control \<times> ('n, ('c, 'r, 'w) wago) world"
  assumes "\<not> wg_restart_requested (w_bus (snd cw))" "ReturnToEthercat \<notin> set cmds"
  shows "\<not> wg_restart_requested (w_bus (snd (snd (ctl_step net wago_port cw (i, cmds)))))"
  using restart_split [OF assms(1), of net i cmds] assms(2) by (auto simp: ctl_step_fields)

text \<open>C18. The daemon exits for a fresh bus scan only for one of its two reasons: the bring-up
  deadline of 12 s has passed on a bus that was never up, outside maintenance; or among the
  commands of this cycle is a return to EtherCAT that found the machine in maintenance, after the
  commands before it. In particular a bus that was up once and is lost never makes it exit, and
  neither does a return asked for in any other mode.\<close>

theorem exit_reasons:
  assumes "send_documented (ee_bus_send env) wire" "wire writer = None"
    and "ecat_run env cycles (ecat_start (ctl_init counters)
        \<lparr>w_fs = f, w_net = n, w_bus = wago_new connector reader writer kind\<rparr> d rx tx) = Some s"
    and "\<not> ec_stopped s" "ecat_item env elapsed (pumped events s) = Some s'" "ec_stopped s'"
  shows "ec_restart_exit s' \<and>
    (\<not> ec_ever_up s \<and> \<not> ec_maintenance s \<and> BRINGUP_DEADLINE \<le> elapsed
     \<or> (\<exists>i bus before after rx'. wg_poll (ee_bus_recv env) (w_bus (ec_world (pumped events s))) = Some (i, bus)
          \<and> link_drain (ee_cmd_recv env) (ec_rx s) = Some (before @ ReturnToEthercat # after, rx')
          \<and> bs_mode (ct_state (fst (snd (item_cycle env (pumped events s) i bus before)))) = Ethernet))"
proof (rule ecat_item_cases [OF assms(5)])
  fix i bus cmds rx' outs snap c w
  assume p: "wg_poll (ee_bus_recv env) (w_bus (ec_world (pumped events s))) = Some (i, bus)"
    and d: "link_drain (ee_cmd_recv env) (ec_rx (pumped events s)) = Some (cmds, rx')"
    and c: "item_cycle env (pumped events s) i bus cmds = ((outs, snap), c, w)"
    and r: "wg_restart_requested (w_bus w)" "ec_restart_exit s'"
  let ?cw = "(ec_control s, (ec_world (pumped events s))\<lparr>w_bus := bus\<rparr>)"
  have "ecat_inv wire s"
    by (rule ecat_run_invariant [OF ecat_inv_item [OF assms(1)] assms(3)])
      (simp_all add: ecat_inv_start wago_new_def assms(2))
  then have "\<not> wg_restart_requested (w_bus (snd ?cw))"
    using assms(4) wg_poll_frame(4) [OF p] by (simp add: ecat_inv_def)
  moreover have "wg_restart_requested (w_bus (snd (ctl_body (ee_net env) wago_port ?cw (i, cmds))))"
    using r(1) c ctl_step_fields(9) [of "ee_net env" wago_port ?cw "(i, cmds)"] by (simp add: item_cycle_def)
  ultimately obtain before after where "cmds = before @ ReturnToEthercat # after"
      "bs_mode (ct_state (fst (ctl_body (ee_net env) wago_port ?cw (i, before)))) = Ethernet"
    using restart_split by blast
  then show ?thesis using d r(2) p by (auto simp: item_cycle_def ctl_step_fields(8))
qed (use assms(4,6) in simp_all)

text \<open>A bus that is not up 12 s after the start.\<close>

theorem exit_reasons_witness:
  "\<exists>s'. ecat_item demo_env (from_secs 12) (pumped [Down] (demo_start [])) = Some s' \<and> ec_restart_exit s'"
proof -
  let ?s = "pumped [Down] (demo_start [])"
  let ?b = "wago_new () [2 :: u8] (0 :: nat, None :: u8 option) Up\<lparr>wg_health := kind_to_u8 Down\<rparr>"
  have q: "backlog queue_recv (Suc 1) [2 :: u8] = Some ([2], [])" using queue_backlog [of "[2 :: u8]"] by simp
  have b: "w_bus (ec_world ?s) = ?b"
    by (simp add: demo_start_def ecat_start_def health_pump_def)
  obtain i bus where p: "wg_poll (ee_bus_recv demo_env) (w_bus (ec_world ?s)) = Some (i, bus)" and h: "\<not> in_healthy i"
    using poll_loop_backlog [OF q, of 0] unfolding b
    by (simp add: wg_poll_def wago_new_def wg_is_healthy_def Let_def demo_env_def kind_to_u8_def)
  have st: "\<not> ec_stopped (demo_start [])" "\<not> ec_ever_up ?s" "\<not> ec_maintenance ?s"
    by (simp_all add: demo_start_def ecat_start_def)
  obtain s' where s': "ecat_item demo_env (from_secs 12) ?s = Some s'" "ec_stopped s'"
    using p h st(2,3) by (simp add: ecat_item_def BRINGUP_DEADLINE_def)
  have doc: "send_documented (ee_bus_send demo_env) snd" by (simp add: demo_env_def flaky_documented)
  have run: "ecat_run demo_env [] (demo_start []) = Some (demo_start [])" by simp
  show ?thesis
    using exit_reasons [OF doc _ run [unfolded demo_start_def] _ s'(1) [unfolded demo_start_def] s'(2)] s'(1) st(1)
    by (auto simp: demo_start_def)
qed

text \<open>C17. No cycle starves the watchdog or the panel: when the backlog of both channels is finite
  the item returns, and unless it stops the executor it has petted the watchdog exactly once and
  published exactly the snapshot of the state it leaves.\<close>

theorem every_cycle_feeds_watchdog:
  assumes "wg_connector (w_bus (ec_world s)) \<noteq> None \<Longrightarrow>
      backlog (ee_bus_recv env) m (wg_reader (w_bus (ec_world s))) \<noteq> None"
    and "backlog (ee_cmd_recv env) k (ec_rx s) \<noteq> None" "\<not> ec_stopped s"
  shows "\<exists>s'. ecat_item env elapsed s = Some s' \<and> (ec_stopped s' \<or>
    ec_wd s' = wp_pet (ee_wd env) (ec_wd s)
    \<and> ec_tx s' = link_publish (ee_state_send env) (ctl_snapshot (ec_control s')) (ec_tx s))"
proof -
  obtain cmds rx where "backlog (ee_cmd_recv env) k (ec_rx s) = Some (cmds, rx)" using assms(2) by auto
  then have d: "link_drain (ee_cmd_recv env) (ec_rx s) = Some (cmds, rx)"
    using drain_loop_backlog [of _ k _ cmds rx "[]"] by (simp add: link_drain_def)
  have "wg_poll (ee_bus_recv env) (w_bus (ec_world s)) \<noteq> None"
  proof (cases "wg_connector (w_bus (ec_world s)) = None")
    case False
    then obtain bs r where "backlog (ee_bus_recv env) m (wg_reader (w_bus (ec_world s))) = Some (bs, r)"
      using assms(1) by fastforce
    then show ?thesis by (simp add: wg_poll_def poll_loop_backlog)
  qed (simp add: wg_poll_def)
  then obtain i bus where p: "wg_poll (ee_bus_recv env) (w_bus (ec_world s)) = Some (i, bus)" by auto
  have "\<exists>s'. ecat_item env elapsed s = Some s'"
    using p d by (auto simp: ecat_item_def Let_def split_beta)
  then obtain s' where s': "ecat_item env elapsed s = Some s'" by blast
  show ?thesis
  proof (rule ecat_item_cases [OF s'])
    fix i bus cmds rx outs snap c w
    assume c: "item_cycle env s i bus cmds = ((outs, snap), c, w)"
      and e: "s' = s\<lparr>ec_control := c,
          ec_world := w\<lparr>w_bus := wg_write (ee_bus_send env) outs ((w_bus w)\<lparr>wg_restart_requested := False\<rparr>)\<rparr>,
          ec_wd := wp_pet (ee_wd env) (ec_wd s), ec_rx := rx,
          ec_tx := link_publish (ee_state_send env) snap (ec_tx s),
          ec_ever_up := ec_ever_up s \<or> in_healthy i,
          ec_maintenance := ec_maintenance s \<or> ss_mode snap = Ethernet\<rparr>"
    have "snap = ctl_snapshot c"
      using ctl_snapshot_after [of "ee_net env" wago_port "(ec_control s, (ec_world s)\<lparr>w_bus := bus\<rparr>)" "(i, cmds)"]
        c by (simp add: item_cycle_def)
    then show ?thesis using s' by (auto simp: e)
  qed (use s' in auto)
qed

theorem every_cycle_feeds_watchdog_witness:
  "\<exists>s'. ecat_item demo_env DUR_ZERO (demo_start [Wrap]) = Some s' \<and> (ec_stopped s' \<or> ec_wd s' = 1)"
proof -
  have q: "backlog queue_recv (Suc 1) [2 :: u8] \<noteq> None" "backlog queue_recv (Suc 1) [Wrap] \<noteq> None"
    using queue_backlog [of "[2 :: u8]"] queue_backlog [of "[Wrap]"] by simp_all
  have "backlog (ee_bus_recv demo_env) (Suc 1) (wg_reader (w_bus (ec_world (demo_start [Wrap])))) \<noteq> None"
      "backlog (ee_cmd_recv demo_env) (Suc 1) (ec_rx (demo_start [Wrap])) \<noteq> None"
      "\<not> ec_stopped (demo_start [Wrap])"
    using q unfolding demo_env_def demo_start_def ecat_start_def wago_new_def by simp_all
  from every_cycle_feeds_watchdog [OF this, of DUR_ZERO] show ?thesis
    by (auto simp: demo_start_def ecat_start_def demo_env_def)
qed

end
