(* ===== verification/I18n.thy ===== *)
theory I18n
  imports RustText
begin

text \<open>
  The string tables of the panel (\<open>baler-ui/src/i18n.rs\<close>): the two languages, their codes, the
  table of all labels per language. A label is the list of its code points, so the signs outside
  ASCII are written as numbers.
\<close>

subsection \<open>Languages\<close>

datatype lang = En | De

definition lang_default :: lang where
  "lang_default = De"

definition as_code :: "lang \<Rightarrow> str" where
  "as_code l = (case l of En \<Rightarrow> lit ''en'' | De \<Rightarrow> lit ''de'')"

definition from_code :: "str \<Rightarrow> lang" where
  "from_code code = (if code = lit ''en'' then En else if code = lit ''de'' then De else lang_default)"

definition lang_other :: "lang \<Rightarrow> lang" where
  "lang_other l = (case l of En \<Rightarrow> De | De \<Rightarrow> En)"

lemma from_as_code [simp]: "from_code (as_code l) = l"
  by (cases l) (simp_all add: from_code_def as_code_def)

lemma lang_other_other [simp]: "lang_other (lang_other l) = l"
  by (cases l) (simp_all add: lang_other_def)

lemma from_code_unknown: "code \<noteq> lit ''en'' \<Longrightarrow> from_code code = De"
  by (simp add: from_code_def lang_default_def)

subsection \<open>The tables\<close>

record strings =
  title :: str
  language_name :: str
  bale_full_banner :: str
  session_caption :: str
  total_caption :: str
  knife_caption :: str
  sk_wrap :: str
  sk_wrapping :: str
  sk_knife_toggle :: str
  sk_knife_active :: str
  sk_reset_session :: str
  sk_session_plus :: str
  sk_session_minus :: str
  sk_service :: str
  service_title :: str
  enter_pin :: str
  pin_hint :: str
  network_caption :: str
  sk_reset_total :: str
  sk_use_ethernet :: str
  sk_use_ethercat :: str
  sk_io_test :: str
  sk_back :: str
  eth_title :: str
  eth_offline :: str
  static_ip_caption :: str
  sk_return_ethercat :: str
  fault_title :: str
  fault_detail :: str
  fault_hint :: str
  mode_initialising :: str
  mode_operational :: str
  mode_fault :: str
  mode_ethernet :: str
  knife_unknown :: str
  knife_in :: str
  knife_out :: str
  fault_link_lost :: str

definition EN :: strings where
  "EN =
     \<lparr>title = lit ''BALER'',
      language_name = lit ''ENGLISH'',
      bale_full_banner = [0x25CF] @ lit '' BALE FULL '' @ [0x2014] @ lit '' READY TO WRAP'',
      session_caption = lit ''SESSION'',
      total_caption = lit ''TOTAL'',
      knife_caption = lit ''KNIFE'',
      sk_wrap = lit ''WRAP'',
      sk_wrapping = lit ''WRAPPING'' @ [0x2026],
      sk_knife_toggle = lit ''TOGGLE KNIVES'',
      sk_knife_active = lit ''KNIVES'' @ [0x2026],
      sk_reset_session = lit ''RESET SESSION'',
      sk_session_plus = lit ''COUNT +1'',
      sk_session_minus = lit ''COUNT -1'',
      sk_service = lit ''SERVICE'',
      service_title = lit ''SERVICE'',
      enter_pin = lit ''ENTER PIN'',
      pin_hint = [0x25B2, 0x25BC] @ lit '' digit   '' @ [0x25C0, 0x25B6] @ lit '' position   Enter confirm'',
      network_caption = lit ''NETWORK'',
      sk_reset_total = lit ''RESET TOTAL'',
      sk_use_ethernet = lit ''USE ETHERNET'',
      sk_use_ethercat = lit ''USE ETHERCAT'',
      sk_io_test = lit ''IO TEST'',
      sk_back = lit ''BACK'',
      eth_title = lit ''ETHERNET MODE'',
      eth_offline = lit ''CONTROL OFFLINE '' @ [0x2014] @ lit '' ETHERCAT STOPPED'',
      static_ip_caption = lit ''STATIC IP'',
      sk_return_ethercat = lit ''RETURN TO ETHERCAT'',
      fault_title = [0x26A0] @ lit '' FAULT'',
      fault_detail = lit ''No EtherCAT link '' @ [0x2014] @ lit '' check the cable/coupler.'' @ [10] @ lit ''Outputs are off; clears automatically when the bus recovers.'',
      fault_hint = lit ''F6 '' @ [0x2192] @ lit '' SERVICE  '' @ [0xB7] @ lit ''  Ethernet maintenance mode'',
      mode_initialising = lit ''INITIALISING'',
      mode_operational = lit ''OPERATIONAL'',
      mode_fault = lit ''FAULT'',
      mode_ethernet = lit ''ETHERNET'',
      knife_unknown = lit ''UNKNOWN'',
      knife_in = lit ''IN'',
      knife_out = lit ''OUT'',
      fault_link_lost = lit ''ETHERCAT LINK LOST''\<rparr>"

definition DE :: strings where
  "DE =
     \<lparr>title = lit ''BALER'',
      language_name = lit ''DEUTSCH'',
      bale_full_banner = [0x25CF] @ lit '' BALLEN VOLL '' @ [0x2014] @ lit '' BEREIT ZUM WICKELN'',
      session_caption = lit ''SCHICHT'',
      total_caption = lit ''GESAMT'',
      knife_caption = lit ''MESSER'',
      sk_wrap = lit ''WICKELN'',
      sk_wrapping = lit ''WICKELT'' @ [0x2026],
      sk_knife_toggle = lit ''MESSER SCHALTEN'',
      sk_knife_active = lit ''MESSER'' @ [0x2026],
      sk_reset_session = lit ''SCHICHT NULLEN'',
      sk_session_plus = lit ''Z'' @ [0xC4] @ lit ''HLER +1'',
      sk_session_minus = lit ''Z'' @ [0xC4] @ lit ''HLER -1'',
      sk_service = lit ''WARTUNG'',
      service_title = lit ''WARTUNG'',
      enter_pin = lit ''PIN EINGEBEN'',
      pin_hint = [0x25B2, 0x25BC] @ lit '' Ziffer   '' @ [0x25C0, 0x25B6] @ lit '' Position   Enter Best'' @ [0xE4] @ lit ''tigen'',
      network_caption = lit ''NETZWERK'',
      sk_reset_total = lit ''GESAMT NULLEN'',
      sk_use_ethernet = lit ''ETHERNET NUTZEN'',
      sk_use_ethercat = lit ''ETHERCAT NUTZEN'',
      sk_io_test = lit ''EA-TEST'',
      sk_back = lit ''ZUR'' @ [0xDC] @ lit ''CK'',
      eth_title = lit ''ETHERNET-MODUS'',
      eth_offline = lit ''STEUERUNG OFFLINE '' @ [0x2014] @ lit '' ETHERCAT GESTOPPT'',
      static_ip_caption = lit ''STATISCHE IP'',
      sk_return_ethercat = lit ''ZUR'' @ [0xDC] @ lit ''CK ZU ETHERCAT'',
      fault_title = [0x26A0] @ lit '' ST'' @ [0xD6] @ lit ''RUNG'',
      fault_detail = lit ''Keine EtherCAT-Verbindung '' @ [0x2014] @ lit '' Kabel/Koppler pr'' @ [0xFC] @ lit ''fen.'' @ [10] @ lit ''Ausg'' @ [0xE4] @ lit ''nge sind aus; wird automatisch zur'' @ [0xFC] @ lit ''ckgesetzt, sobald der Bus verf'' @ [0xFC] @ lit ''gbar ist.'',
      fault_hint = lit ''F6 '' @ [0x2192] @ lit '' WARTUNG  '' @ [0xB7] @ lit ''  Ethernet-Wartungsmodus'',
      mode_initialising = lit ''INITIALISIERUNG'',
      mode_operational = lit ''BETRIEB'',
      mode_fault = lit ''ST'' @ [0xD6] @ lit ''RUNG'',
      mode_ethernet = lit ''ETHERNET'',
      knife_unknown = lit ''UNBEKANNT'',
      knife_in = lit ''INNEN'',
      knife_out = lit ''AUSSEN'',
      fault_link_lost = lit ''ETHERCAT-VERBINDUNG VERLOREN''\<rparr>"

definition table :: "lang \<Rightarrow> strings" where
  "table l = (case l of En \<Rightarrow> EN | De \<Rightarrow> DE)"

text \<open>The fields in their order, as a list.\<close>

definition fields :: "strings \<Rightarrow> str list" where
  "fields s =
     [title s,
      language_name s,
      bale_full_banner s,
      session_caption s,
      total_caption s,
      knife_caption s,
      sk_wrap s,
      sk_wrapping s,
      sk_knife_toggle s,
      sk_knife_active s,
      sk_reset_session s,
      sk_session_plus s,
      sk_session_minus s,
      sk_service s,
      service_title s,
      enter_pin s,
      pin_hint s,
      network_caption s,
      sk_reset_total s,
      sk_use_ethernet s,
      sk_use_ethercat s,
      sk_io_test s,
      sk_back s,
      eth_title s,
      eth_offline s,
      static_ip_caption s,
      sk_return_ethercat s,
      fault_title s,
      fault_detail s,
      fault_hint s,
      mode_initialising s,
      mode_operational s,
      mode_fault s,
      mode_ethernet s,
      knife_unknown s,
      knife_in s,
      knife_out s,
      fault_link_lost s]"

lemma length_fields: "length (fields s) = 38"
  by (simp add: fields_def)

text \<open>The only labels the two languages share are the title and the name of Ethernet mode, and
  no label is empty.\<close>

lemma tables_complete: "[] \<notin> set (fields EN)" "[] \<notin> set (fields DE)"
  by (simp_all add: fields_def EN_def DE_def)

lemma tables_differ:
  "filter (\<lambda>(a, b). a = b) (zip (fields EN) (fields DE)) = [(title EN, title DE), (mode_ethernet EN, mode_ethernet DE)]"
  by (simp add: fields_def EN_def DE_def)

end
