(* ===== verification/Panel.thy ===== *)
theory Panel
  imports I18n RustFs Channel
begin

text \<open>
  The operator panel (\<open>baler-ui/src/main.rs\<close>): the key map, the screens and the screen the mode
  forces, the service screen with its PIN, the persisted language, the handling of one button
  event, and one frame of the main loop. The toolkit, the frame buffer and the LEDs are drawn
  from the view, which is the record of everything the frame shows. A back end is its two
  methods on a state of its own.
\<close>

subsection \<open>Keys and screens\<close>

datatype button = F1 | F2 | F3 | F4 | F5 | F6 | KeyUp | KeyDown | KeyLeft | KeyRight | KeyOther nat

datatype button_event = Pressed button | Released button

definition remap_fkey :: "button \<Rightarrow> button" where
  "remap_fkey b =
     (case b of F1 \<Rightarrow> F4 | F2 \<Rightarrow> F3 | F3 \<Rightarrow> F5 | F4 \<Rightarrow> F2 | F5 \<Rightarrow> F6 | F6 \<Rightarrow> F1 | other \<Rightarrow> other)"

datatype nav = NavMain | NavService | NavEthernet | NavFault | NavIoTest

definition next_nav :: "nav \<Rightarrow> mode \<Rightarrow> nav" where
  "next_nav current m =
     (case m of
        Fault \<Rightarrow> if current = NavService then NavService else NavFault
      | Ethernet \<Rightarrow> NavEthernet
      | _ \<Rightarrow> if current = NavFault \<or> current = NavEthernet then NavMain else current)"

subsection \<open>The service screen\<close>

definition SERVICE_PIN :: "u8 list" where
  "SERVICE_PIN = [1, 2, 3, 4]"

record service_state =
  sv_pin :: "u8 list"
  sv_cursor :: nat
  sv_ethernet_selected :: bool

definition sv_new :: service_state where
  "sv_new = \<lparr>sv_pin = [0, 0, 0, 0], sv_cursor = 0, sv_ethernet_selected = False\<rparr>"

definition sv_reset :: "service_state \<Rightarrow> service_state" where
  "sv_reset s = s\<lparr>sv_pin := [0, 0, 0, 0], sv_cursor := 0\<rparr>"

definition sv_unlocked :: "service_state \<Rightarrow> bool" where
  "sv_unlocked s \<longleftrightarrow> sv_pin s = SERVICE_PIN"

definition sv_display :: "service_state \<Rightarrow> str" where
  "sv_display s =
     map (\<lambda>i. if i = sv_cursor s then 48 + unat (sv_pin s ! i) else if i < sv_cursor s then 42 else 95)
       [0..<4]"

definition sv_spin :: "u8 \<Rightarrow> service_state \<Rightarrow> service_state" where
  "sv_spin step s =
     s\<lparr>sv_pin := (sv_pin s)[sv_cursor s := (sv_pin s ! sv_cursor s + step) mod 10]\<rparr>"

subsection \<open>The language file\<close>

definition LANG_PATH :: path where
  "LANG_PATH = \<lparr>is_abs = True, comps = [lit ''var'', lit ''lib'', lit ''baler'', lit ''language'']\<rparr>"

definition LANG_PATH_FALLBACK :: path where
  "LANG_PATH_FALLBACK = \<lparr>is_abs = True, comps = [lit ''tmp'', lit ''baler-language'']\<rparr>"

definition lang_read :: "path \<Rightarrow> fs \<Rightarrow> lang option \<times> fs" where
  "lang_read p f =
     (case read_to_string p f of
        (Inl _, f') \<Rightarrow> (None, f')
      | (Inr s, f') \<Rightarrow> (Some (from_code (trim s)), f'))"

definition load_lang :: "fs \<Rightarrow> lang \<times> fs" where
  "load_lang f =
     (case lang_read LANG_PATH f of
        (Some l, f1) \<Rightarrow> (l, f1)
      | (None, f1) \<Rightarrow>
          (case lang_read LANG_PATH_FALLBACK f1 of
             (Some l, f2) \<Rightarrow> (l, f2)
           | (None, f2) \<Rightarrow> (lang_default, f2)))"

text \<open>\<open>std::fs::write\<close> creates or truncates the file and writes; nothing is flushed to the disk.\<close>

definition lang_write_ops :: "path \<Rightarrow> lang \<Rightarrow> fs_op list" where
  "lang_write_ops p l =
     (case path_parent p of None \<Rightarrow> [] | Some d \<Rightarrow> if path_is_empty d then [] else [CreateDirAll d])
     @ [Create p, WriteAll p (utf8_encode (as_code l))]"

definition lang_write :: "path \<Rightarrow> lang \<Rightarrow> fs \<Rightarrow> (io_error + unit) \<times> fs" where
  "lang_write p l f = fs_run (lang_write_ops p l) f"

definition save_lang :: "lang \<Rightarrow> fs \<Rightarrow> fs" where
  "save_lang l f =
     (case lang_write LANG_PATH l f of
        (Inr _, f1) \<Rightarrow> f1
      | (Inl _, f1) \<Rightarrow> snd (lang_write LANG_PATH_FALLBACK l f1))"

subsection \<open>One event, one frame\<close>

record 'b backend =
  be_step :: "'b \<Rightarrow> state_snapshot \<times> 'b"
  be_command :: "command \<Rightarrow> 'b \<Rightarrow> 'b"

record 'b panel =
  pn_nav :: nav
  pn_service :: service_state
  pn_lang :: lang
  pn_wrap_held :: bool
  pn_knives_in_held :: bool
  pn_knives_out_held :: bool
  pn_backend :: 'b
  pn_fs :: fs

definition pn_release :: "'b panel \<Rightarrow> 'b panel" where
  "pn_release p = p\<lparr>pn_wrap_held := False, pn_knives_in_held := False, pn_knives_out_held := False\<rparr>"

definition pn_send :: "'b backend \<Rightarrow> command \<Rightarrow> 'b panel \<Rightarrow> 'b panel" where
  "pn_send be c p = p\<lparr>pn_backend := be_command be c (pn_backend p)\<rparr>"


definition pn_iotest_event :: "button_event \<Rightarrow> 'b panel \<Rightarrow> 'b panel" where
  "pn_iotest_event ev p =
     (case ev of
        Pressed b \<Rightarrow>
          (case remap_fkey b of
             F1 \<Rightarrow> p\<lparr>pn_wrap_held := True\<rparr>
           | F2 \<Rightarrow> p\<lparr>pn_knives_in_held := True\<rparr>
           | F3 \<Rightarrow> p\<lparr>pn_knives_out_held := True\<rparr>
           | F6 \<Rightarrow> (pn_release p)\<lparr>pn_nav := NavMain\<rparr>
           | _ \<Rightarrow> p)
      | Released b \<Rightarrow>
          (case remap_fkey b of
             F1 \<Rightarrow> p\<lparr>pn_wrap_held := False\<rparr>
           | F2 \<Rightarrow> p\<lparr>pn_knives_in_held := False\<rparr>
           | F3 \<Rightarrow> p\<lparr>pn_knives_out_held := False\<rparr>
           | _ \<Rightarrow> p))"

definition pn_main_press :: "'b backend \<Rightarrow> button \<Rightarrow> 'b panel \<Rightarrow> 'b panel" where
  "pn_main_press be b p =
     (case b of
        F1 \<Rightarrow> pn_send be Wrap p
      | F2 \<Rightarrow> pn_send be ToggleKnife p
      | F3 \<Rightarrow> pn_send be ResetSession p
      | F4 \<Rightarrow> pn_send be (AdjustSession 1) p
      | F5 \<Rightarrow> pn_send be (AdjustSession (- 1)) p
      | F6 \<Rightarrow> p\<lparr>pn_service := sv_reset (pn_service p), pn_nav := NavService\<rparr>
      | _ \<Rightarrow> p)"

definition pn_service_press :: "'b backend \<Rightarrow> button \<Rightarrow> 'b panel \<Rightarrow> 'b panel" where
  "pn_service_press be b p =
     (let s = pn_service p in
      case b of
        KeyUp \<Rightarrow> p\<lparr>pn_service := sv_spin 1 s\<rparr>
      | KeyDown \<Rightarrow> p\<lparr>pn_service := sv_spin 9 s\<rparr>
      | KeyLeft \<Rightarrow> p\<lparr>pn_service := s\<lparr>sv_cursor := sv_cursor s - 1\<rparr>\<rparr>
      | KeyRight \<Rightarrow> if sv_cursor s < 3 then p\<lparr>pn_service := s\<lparr>sv_cursor := sv_cursor s + 1\<rparr>\<rparr> else p
      | F1 \<Rightarrow> if sv_unlocked s then pn_send be ResetTotal p else p
      | F2 \<Rightarrow>
          if sv_unlocked s then
            let s' = s\<lparr>sv_ethernet_selected := \<not> sv_ethernet_selected s\<rparr>
            in pn_send be (if sv_ethernet_selected s' then EnterEthernet else ReturnToEthercat)
                 (p\<lparr>pn_service := s'\<rparr>)
          else p
      | F3 \<Rightarrow> if sv_unlocked s then (pn_release p)\<lparr>pn_nav := NavIoTest\<rparr> else p
      | F4 \<Rightarrow> let l = lang_other (pn_lang p) in p\<lparr>pn_lang := l, pn_fs := save_lang l (pn_fs p)\<rparr>
      | F6 \<Rightarrow> p\<lparr>pn_service := sv_reset s, pn_nav := NavMain\<rparr>
      | _ \<Rightarrow> p)"

definition pn_event :: "'b backend \<Rightarrow> button_event \<Rightarrow> 'b panel \<Rightarrow> 'b panel" where
  "pn_event be ev p =
     (if pn_nav p = NavIoTest then pn_iotest_event ev p
      else case ev of
        Released _ \<Rightarrow> p
      | Pressed raw \<Rightarrow>
          let b = remap_fkey raw in
          (case pn_nav p of
             NavMain \<Rightarrow> pn_main_press be b p
           | NavService \<Rightarrow> pn_service_press be b p
           | NavEthernet \<Rightarrow>
               if b = F1 then
                 (pn_send be ReturnToEthercat p)\<lparr>pn_service := (pn_service p)\<lparr>sv_ethernet_selected := False\<rparr>\<rparr>
               else p
           | NavFault \<Rightarrow>
               if b = F6 then p\<lparr>pn_service := sv_reset (pn_service p), pn_nav := NavService\<rparr> else p
           | NavIoTest \<Rightarrow> p))"

text \<open>A frame: the snapshot, the screen it forces, the pending events, the manual-IO stream. The
  result is what the view and the LEDs are computed from.\<close>

definition pn_frame :: "'b backend \<Rightarrow> button_event list \<Rightarrow> 'b panel \<Rightarrow> state_snapshot \<times> 'b panel" where
  "pn_frame be evs p0 =
     (let (snap, b) = be_step be (pn_backend p0);
          p1 = p0\<lparr>pn_backend := b, pn_nav := next_nav (pn_nav p0) (ss_mode snap)\<rparr>;
          p2 = fold (pn_event be) evs p1;
          p3 = (if pn_nav p2 = NavIoTest
                then pn_send be (ManualIo (pn_wrap_held p2) (pn_knives_in_held p2) (pn_knives_out_held p2)) p2
                else p2)
      in (snap, p3))"

definition pn_start :: "'b backend \<Rightarrow> 'b \<Rightarrow> fs \<Rightarrow> 'b panel" where
  "pn_start be b f =
     (let (snap, b') = be_step be b; (l, f') = load_lang f in
      \<lparr>pn_nav = NavMain, pn_service = sv_new, pn_lang = l, pn_wrap_held = False,
       pn_knives_in_held = False, pn_knives_out_held = False, pn_backend = b', pn_fs = f'\<rparr>)"

end
