(* ===== verification/PanelProps.thy ===== *)
theory PanelProps
  imports Panel
begin

text \<open>
  What the panel guarantees: the key map is the physical layout, the service functions cannot be
  reached without spinning the PIN in, and how the stored language behaves across restarts. The
  view of a frame is here too, with the texts of the active language.
\<close>

subsection \<open>The view\<close>

record view =
  vw_screen :: nav
  vw_tr :: "str list"
  vw_language_label :: str
  vw_mode_text :: str
  vw_bale_full :: bool
  vw_knife_text :: str
  vw_wrap_armed :: bool
  vw_wrap_active :: bool
  vw_knife_active :: bool
  vw_session_text :: str
  vw_total_text :: str
  vw_ethercat_healthy :: bool
  vw_ip_text :: str
  vw_pin_display :: str
  vw_ethernet_selected :: bool
  vw_fault_text :: str
  vw_di :: "bool \<times> bool \<times> bool"
  vw_out :: "bool \<times> bool \<times> bool"

definition mode_text :: "strings \<Rightarrow> mode \<Rightarrow> str" where
  "mode_text s m =
     (case m of Initializing \<Rightarrow> mode_initialising s | Operational \<Rightarrow> mode_operational s
      | Fault \<Rightarrow> mode_fault s | Ethernet \<Rightarrow> mode_ethernet s)"

definition knife_text :: "strings \<Rightarrow> knife_pos \<Rightarrow> str" where
  "knife_text s k = (case k of KUnknown \<Rightarrow> knife_unknown s | KIn \<Rightarrow> knife_in s | KOut \<Rightarrow> knife_out s)"

definition ip_text :: "state_snapshot \<Rightarrow> str" where
  "ip_text s =
     (if ss_ip_valid s then
        (case ss_ip s of (a, b, c, d) \<Rightarrow>
          show_nat (unat a) @ [46] @ show_nat (unat b) @ [46] @ show_nat (unat c) @ [46] @ show_nat (unat d))
      else [0x2014])"

text \<open>The labels of the record \<open>I18n\<close> handed to the toolkit: all but the state texts and the
  name of the language, for which the other language's is shown.\<close>

definition tr_labels :: "strings \<Rightarrow> str list" where
  "tr_labels s =
     [title s, bale_full_banner s, session_caption s, total_caption s, knife_caption s, sk_wrap s,
      sk_wrapping s, sk_knife_toggle s, sk_knife_active s, sk_reset_session s, sk_session_plus s,
      sk_session_minus s, sk_service s, service_title s, enter_pin s, pin_hint s, network_caption s,
      sk_reset_total s, sk_use_ethernet s, sk_use_ethercat s, sk_io_test s, sk_back s, eth_title s,
      eth_offline s, static_ip_caption s, sk_return_ethercat s, fault_title s, fault_detail s,
      fault_hint s]"

definition push_view :: "state_snapshot \<Rightarrow> 'b panel \<Rightarrow> view" where
  "push_view snap p =
     (let s = table (pn_lang p); other = table (lang_other (pn_lang p)) in
      \<lparr>vw_screen = pn_nav p, vw_tr = tr_labels s, vw_language_label = language_name other,
       vw_mode_text = mode_text s (ss_mode snap),
       vw_bale_full = (ss_bale_full snap \<or> ss_full_latched snap),
       vw_knife_text = knife_text s (ss_knife snap),
       vw_wrap_armed = ss_wrap_armed snap, vw_wrap_active = ss_wrap_active snap,
       vw_knife_active = ss_knife_active snap,
       vw_session_text = show_nat (unat (ss_session snap)),
       vw_total_text = show_nat (unat (ss_total snap)),
       vw_ethercat_healthy = (ss_mode snap = Operational),
       vw_ip_text = ip_text snap,
       vw_pin_display = sv_display (pn_service p),
       vw_ethernet_selected = sv_ethernet_selected (pn_service p),
       vw_fault_text = fault_link_lost s,
       vw_di = (ss_di1 snap, ss_di2 snap, ss_di3 snap),
       vw_out = (pn_wrap_held p, pn_knives_in_held p, pn_knives_out_held p)\<rparr>)"

subsection \<open>The service state\<close>

definition sv_wf :: "service_state \<Rightarrow> bool" where
  "sv_wf s \<longleftrightarrow> length (sv_pin s) = 4 \<and> sv_cursor s < 4 \<and> (\<forall>d\<in>set (sv_pin s). d < 10)"

lemma sv_wf_reset [simp]: "sv_wf (sv_reset s)"
  by (simp add: sv_wf_def sv_reset_def)

lemma sv_wf_new [simp]: "sv_wf sv_new"
  by (simp add: sv_wf_def sv_new_def)

lemma sv_wf_cursor:
  "sv_wf s \<Longrightarrow> sv_wf (s\<lparr>sv_cursor := sv_cursor s - 1\<rparr>)"
  "sv_wf s \<Longrightarrow> sv_wf (s\<lparr>sv_cursor := sv_cursor s - Suc 0\<rparr>)"
  "sv_wf s \<Longrightarrow> sv_cursor s < 3 \<Longrightarrow> sv_wf (s\<lparr>sv_cursor := Suc (sv_cursor s)\<rparr>)"
  by (auto simp: sv_wf_def)

lemma mod_ten: "(x :: u8) mod 10 < 10"
proof -
  have "unat (x mod 10) = unat x mod 10" by (simp add: unat_mod_distrib)
  then show ?thesis by (simp add: word_less_nat_alt)
qed

lemma sv_wf_spin: "sv_wf s \<Longrightarrow> sv_wf (sv_spin k s)"
  using mod_ten by (auto simp: sv_wf_def sv_spin_def dest!: set_update_subset_insert [THEN subsetD])

text \<open>How many presses of the digit keys the entered digits are away from the PIN, at least.\<close>

definition digit_dist :: "nat \<Rightarrow> nat \<Rightarrow> nat" where
  "digit_dist p t = min ((t + 10 - p) mod 10) ((p + 10 - t) mod 10)"

definition pin_dist :: "u8 list \<Rightarrow> nat" where
  "pin_dist pin = sum_list (map2 (\<lambda>p t. digit_dist (unat p) (unat t)) pin SERVICE_PIN)"

lemma digit_dist_table:
  "\<forall>p\<in>set [0..<10]. \<forall>t\<in>set [0..<10]. \<forall>k\<in>set [1, 9].
     digit_dist p t \<le> Suc (digit_dist ((p + k) mod 10) t)"
  by code_simp

lemma digit_dist_step:
  assumes "p < 10" "t < 10" "k = 1 \<or> k = 9"
  shows "digit_dist p t \<le> Suc (digit_dist ((p + k) mod 10) t)"
  using digit_dist_table assms by auto

lemma unat_spin:
  assumes "(x :: u8) < 10" "k = 1 \<or> k = 9"
  shows "unat ((x + k) mod 10) = (unat x + unat k) mod 10"
proof -
  have "unat x < 10" using assms(1) by (simp add: word_less_nat_alt)
  then have "unat (x + k) = unat x + unat k" using assms(2) by (auto simp: unat_word_ariths)
  then show ?thesis by (simp add: unat_mod_distrib)
qed

lemma pin_dist4:
  "pin_dist [a, b, c, d] =
    digit_dist (unat a) 1 + digit_dist (unat b) 2 + digit_dist (unat c) 3 + digit_dist (unat d) 4"
  by (simp add: pin_dist_def SERVICE_PIN_def)

lemma four_cells:
  "[a, b, c, d] ! 0 = a" "[a, b, c, d] ! 1 = b" "[a, b, c, d] ! 2 = c" "[a, b, c, d] ! 3 = d"
  "[a, b, c, d][0 := x] = [x, b, c, d]" "[a, b, c, d][1 := x] = [a, x, c, d]"
  "[a, b, c, d][2 := x] = [a, b, x, d]" "[a, b, c, d][3 := x] = [a, b, c, x]"
  by (simp_all add: numeral_2_eq_2 numeral_3_eq_3)

lemma pin_dist_spin:
  assumes "sv_wf s" "k = 1 \<or> k = 9"
  shows "pin_dist (sv_pin s) \<le> Suc (pin_dist (sv_pin (sv_spin k s)))"
proof -
  obtain a b c d where pin: "sv_pin s = [a, b, c, d]"
    using assms(1) by (auto simp: sv_wf_def numeral_eq_Suc length_Suc_conv)
  have dig: "a < 10" "b < 10" "c < 10" "d < 10" using assms(1) by (simp_all add: sv_wf_def pin)
  have st: "digit_dist (unat x) t \<le> Suc (digit_dist (unat ((x + k) mod 10)) t)"
    if "x < 10" "t < 10" for x :: u8 and t
    using digit_dist_step [of "unat x" t "unat k"] that assms(2)
    by (auto simp: unat_spin [OF that(1) assms(2)] word_less_nat_alt)
  have spin: "sv_pin (sv_spin k s) = (sv_pin s)[sv_cursor s := (sv_pin s ! sv_cursor s + k) mod 10]"
    by (simp add: sv_spin_def)
  have lt: "(1 :: nat) < 10" "(2 :: nat) < 10" "(3 :: nat) < 10" "(4 :: nat) < 10" by simp_all
  have "sv_cursor s = 0 \<or> sv_cursor s = 1 \<or> sv_cursor s = 2 \<or> sv_cursor s = 3"
    using assms(1) by (auto simp: sv_wf_def)
  then show ?thesis
    using st [OF dig(1) lt(1)] st [OF dig(2) lt(2)] st [OF dig(3) lt(3)] st [OF dig(4) lt(4)]
    unfolding spin pin
    by (elim disjE) (simp_all only: four_cells pin_dist4)
qed

lemma pin_dist_zero: "pin_dist [0, 0, 0, 0] = 10"
  by (simp add: pin_dist_def SERVICE_PIN_def digit_dist_def)

lemma pin_dist_locked: "0 < pin_dist (sv_pin s) \<Longrightarrow> \<not> sv_unlocked s"
  by (auto simp: sv_unlocked_def pin_dist_def SERVICE_PIN_def digit_dist_def)

subsection \<open>Reaching the service functions\<close>

text \<open>A back end that shows the snapshots of a stream and logs the commands.\<close>

definition log_backend :: "(nat \<Rightarrow> state_snapshot) \<Rightarrow> (nat \<times> command list) backend" where
  "log_backend shown =
     \<lparr>be_step = (\<lambda>(n, log). (shown n, Suc n, log)), be_command = (\<lambda>c (n, log). (n, log @ [c]))\<rparr>"

lemma log_backend_command [simp]: "be_command (log_backend shown) c b = (fst b, snd b @ [c])"
  by (simp add: log_backend_def split_beta)

text \<open>The commands behind the PIN.\<close>

definition gated :: "command \<Rightarrow> bool" where
  "gated c \<longleftrightarrow> c = ResetTotal \<or> c = EnterEthernet \<or> is_manual_io c"

definition is_spin :: "button_event \<Rightarrow> bool" where
  "is_spin ev \<longleftrightarrow> ev = Pressed KeyUp \<or> ev = Pressed KeyDown"

lemma sv_reset_dist [simp]: "pin_dist (sv_pin (sv_reset s)) = 10"
  by (simp add: sv_reset_def pin_dist_zero)

lemma gated_simps [simp]:
  "\<not> gated Wrap" "\<not> gated ToggleKnife" "\<not> gated ResetSession" "\<not> gated ReturnToEthercat"
  "\<not> gated (AdjustSession d)"
  by (simp_all add: gated_def)

lemma remap_keys: "remap_fkey raw = KeyUp \<longleftrightarrow> raw = KeyUp" "remap_fkey raw = KeyDown \<longleftrightarrow> raw = KeyDown"
  by (cases raw; simp add: remap_fkey_def)+

text \<open>
  A back end watched for unwanted commands: it stays clean over its own steps and over every
  command that is not bad. Bad are commands behind the PIN, and a wrap or a knife command when
  the softkey that sends it is not allowed.
\<close>

locale watched_backend =
  fixes be :: "'b backend"
    and clean :: "'b \<Rightarrow> bool"
    and bad :: "command \<Rightarrow> bool"
    and allowed :: "button \<Rightarrow> bool"
  assumes step_clean: "clean b \<Longrightarrow> clean (snd (be_step be b))"
    and command_clean: "clean b \<Longrightarrow> \<not> bad c \<Longrightarrow> clean (be_command be c b)"
    and bad_gated: "bad c \<Longrightarrow> gated c \<or> c = Wrap \<and> \<not> allowed F1 \<or> c = ToggleKnife \<and> \<not> allowed F2"
begin

text \<open>After \<open>n\<close> presses of the digit keys: on the service screen the entry is at least \<open>10 - n\<close>
  presses away (elsewhere what was entered does not matter, since every way into the screen
  clears it), the IO page is not open, nothing bad was sent.\<close>

definition locked :: "nat \<Rightarrow> 'b panel \<Rightarrow> bool" where
  "locked n p \<longleftrightarrow> sv_wf (pn_service p)
     \<and> (pn_nav p = NavService \<longrightarrow> 10 \<le> pin_dist (sv_pin (pn_service p)) + n)
     \<and> pn_nav p \<noteq> NavIoTest \<and> clean (pn_backend p)"

definition permitted :: "button_event \<Rightarrow> bool" where
  "permitted ev \<longleftrightarrow> (case ev of Pressed raw \<Rightarrow> allowed (remap_fkey raw) | Released _ \<Rightarrow> True)"

lemma locked_mono: "locked n p \<Longrightarrow> n \<le> m \<Longrightarrow> locked m p"
  by (auto simp: locked_def)

lemma send_clean:
  assumes "clean b"
  shows "clean (be_command be ResetSession b)" "clean (be_command be (AdjustSession d) b)"
    "clean (be_command be ReturnToEthercat b)" "allowed F1 \<Longrightarrow> clean (be_command be Wrap b)"
    "allowed F2 \<Longrightarrow> clean (be_command be ToggleKnife b)"
  using command_clean [OF assms] bad_gated by fastforce+

lemma locked_service_press:
  assumes "locked n p" "n < 10" "pn_nav p = NavService"
  shows "locked (n + (if b = KeyUp \<or> b = KeyDown then 1 else 0)) (pn_service_press be b p)"
proof -
  have wf: "sv_wf (pn_service p)" and d: "10 \<le> pin_dist (sv_pin (pn_service p)) + n"
    using assms(1,3) by (simp_all add: locked_def)
  have l: "\<not> sv_unlocked (pn_service p)" by (rule pin_dist_locked) (use d assms(2) in simp)
  have spin: "sv_wf (sv_spin k (pn_service p))
      \<and> 10 \<le> Suc (pin_dist (sv_pin (sv_spin k (pn_service p))) + n)" if "k = 1 \<or> k = 9" for k
    using sv_wf_spin [OF wf] pin_dist_spin [OF wf that] d by simp
  show ?thesis
    using assms(1,3) l spin [of 1] spin [of 9]
    by (cases b) (auto simp: pn_service_press_def Let_def locked_def sv_wf_cursor)
qed

lemma locked_event:
  assumes "locked n p" "n < 10" "permitted ev"
  shows "locked (n + (if is_spin ev then 1 else 0)) (pn_event be ev p)"
proof (cases ev)
  case (Released b)
  then show ?thesis using assms(1) by (simp add: pn_event_def is_spin_def locked_def)
next
  case (Pressed raw)
  have up: "is_spin ev \<longleftrightarrow> remap_fkey raw = KeyUp \<or> remap_fkey raw = KeyDown"
    by (simp add: is_spin_def Pressed remap_keys)
  have mono: "locked n q \<Longrightarrow> locked (n + (if is_spin ev then 1 else 0)) q" for q
    using locked_mono [of n q "Suc n" for q] by simp
  have clean: "clean (pn_backend p)" and ok: "allowed (remap_fkey raw)"
    using assms(1,3) by (simp_all add: locked_def permitted_def Pressed)
  show ?thesis
  proof (cases "pn_nav p")
    case NavService
    then show ?thesis
      using locked_service_press [OF assms(1,2) NavService, of "remap_fkey raw"] up
      by (simp add: pn_event_def Pressed)
  next
    case NavMain
    have "locked n (pn_main_press be (remap_fkey raw) p)"
      using assms(1) NavMain ok send_clean [OF clean]
      by (cases "remap_fkey raw") (auto simp: pn_main_press_def locked_def pn_send_def)
    then show ?thesis using NavMain mono by (simp add: pn_event_def Pressed)
  next
    case NavIoTest
    then show ?thesis using assms(1) by (simp add: locked_def)
  next
    case NavEthernet
    have "locked n (pn_event be ev p)"
      using assms(1) NavEthernet send_clean(3) [OF clean]
      by (auto simp: pn_event_def Pressed locked_def pn_send_def sv_wf_def Let_def)
    then show ?thesis by (rule mono)
  next
    case NavFault
    have "locked n (pn_event be ev p)"
      using assms(1) NavFault by (auto simp: pn_event_def Pressed locked_def Let_def)
    then show ?thesis by (rule mono)
  qed
qed

lemma locked_events:
  "locked n p \<Longrightarrow> n + length (filter is_spin evs) < 10 \<Longrightarrow> list_all permitted evs \<Longrightarrow>
    locked (n + length (filter is_spin evs)) (fold (pn_event be) evs p)"
proof (induction evs arbitrary: n p)
  case Nil
  then show ?case by simp
next
  case (Cons ev evs)
  have "locked (n + (if is_spin ev then 1 else 0)) (pn_event be ev p)"
    by (rule locked_event) (use Cons.prems in \<open>auto split: if_splits\<close>)
  from Cons.IH [OF this] Cons.prems(2,3) show ?case by (auto split: if_splits)
qed

lemma locked_frame:
  assumes "locked n p" "n + length (filter is_spin evs) < 10" "list_all permitted evs"
  shows "locked (n + length (filter is_spin evs)) (snd (pn_frame be evs p))"
proof -
  let ?p1 = "p\<lparr>pn_backend := snd (be_step be (pn_backend p)),
      pn_nav := next_nav (pn_nav p) (ss_mode (fst (be_step be (pn_backend p))))\<rparr>"
  have "locked n ?p1"
    using assms(1) step_clean by (auto simp: locked_def next_nav_def split: mode.splits)
  from locked_events [OF this assms(2,3)]
  have "locked (n + length (filter is_spin evs)) (fold (pn_event be) evs ?p1)" .
  then show ?thesis by (auto simp: pn_frame_def Let_def split_beta locked_def)
qed

lemma locked_frames:
  "locked n p \<Longrightarrow> n + length (filter is_spin (concat frames)) < 10 \<Longrightarrow> list_all permitted (concat frames) \<Longrightarrow>
    locked (n + length (filter is_spin (concat frames))) (run_end (\<lambda>p evs. pn_frame be evs p) p frames)"
proof (induction frames arbitrary: n p)
  case Nil
  then show ?case by simp
next
  case (Cons evs frames)
  then show ?case
    using locked_frame [OF Cons.prems(1), of evs]
      Cons.IH [of "n + length (filter is_spin evs)" "snd (pn_frame be evs p)"]
    by (simp add: add.assoc)
qed

lemma locked_start: "clean b \<Longrightarrow> locked 0 (pn_start be b f)"
  using step_clean [of b]
  by (simp add: pn_start_def locked_def split_beta sv_new_def [THEN arg_cong, of sv_pin] pin_dist_zero)

end

interpretation pin_log: watched_backend "log_backend shown" "\<lambda>b. filter gated (snd b) = []" gated "\<lambda>_. True"
  by unfold_locales (simp_all add: log_backend_def split_beta)

lemma all_permitted: "list_all (pin_log.permitted) evs"
  by (simp add: pin_log.permitted_def list_all_iff split: button_event.split)

text \<open>The service functions cannot be reached by accident: from the start of the panel,
  whatever the daemon shows and whatever keys are pressed in whatever order over any number of
  frames, no reset of the total, no switch to Ethernet and no manual-IO command is sent before
  the digit keys have been pressed at least ten times.\<close>

theorem service_needs_ten_digit_presses:
  assumes "length (filter is_spin (concat frames)) < 10"
    and "p = run_end (\<lambda>p evs. pn_frame (log_backend shown) evs p) (pn_start (log_backend shown) (0, []) f) frames"
  shows "filter gated (snd (pn_backend p)) = []"
proof -
  have "pin_log.locked (0 + length (filter is_spin (concat frames))) p"
    unfolding assms(2)
    by (rule pin_log.locked_frames [OF pin_log.locked_start]) (use assms(1) all_permitted in simp_all)
  then show ?thesis by (simp add: pin_log.locked_def)
qed

definition demo_snapshot :: state_snapshot where
  "demo_snapshot = \<lparr>ss_mode = Operational, ss_bale_full = False, ss_knife = KOut, ss_wrap_armed = False,
     ss_full_latched = False, ss_wrap_active = False, ss_knife_active = False, ss_session = 0,
     ss_total = 0, ss_di1 = False, ss_di2 = False, ss_di3 = False, ss_ip = (0, 0, 0, 0), ss_ip_valid = False\<rparr>"

theorem service_needs_ten_digit_presses_witness:
  "filter gated (snd (pn_backend (run_end (\<lambda>p evs. pn_frame (log_backend (\<lambda>_. demo_snapshot)) evs p)
      (pn_start (log_backend (\<lambda>_. demo_snapshot)) (0, []) \<lparr>files = Map.empty, verdicts = [], older = \<lambda>_. []\<rparr>)
      [[Pressed F5], [Pressed KeyUp, Pressed F6, Pressed F4]]))) = []"
  by (rule service_needs_ten_digit_presses [OF _ refl, of "[[Pressed F5], [Pressed KeyUp, Pressed F6, Pressed F4]]"])
    (simp add: is_spin_def)

subsection \<open>The key map and the screens\<close>

text \<open>The keys sit F6, F4, F2, F1, F3, F5 from left to right; the labels read F1 to F6.\<close>

lemma remap_is_layout: "map remap_fkey [F6, F4, F2, F1, F3, F5] = [F1, F2, F3, F4, F5, F6]"
  by (simp add: remap_fkey_def)

lemma remap_inj: "remap_fkey a = remap_fkey b \<longleftrightarrow> a = b"
  by (cases a; cases b) (simp_all add: remap_fkey_def)

lemma next_nav_stable: "next_nav (next_nav n m) m = next_nav n m"
  by (cases n; cases m) (simp_all add: next_nav_def)

lemma next_nav_service: "m \<noteq> Ethernet \<Longrightarrow> next_nav NavService m = NavService"
  by (cases m) (simp_all add: next_nav_def)

subsection \<open>The stored language\<close>

lemma as_code_plain: "trim (as_code l) = as_code l" "\<forall>c\<in>set (as_code l). is_scalar c"
  by (cases l; simp add: as_code_def trim_def is_ws_def is_scalar_def)+

lemma lang_written:
  assumes "lang_write p l f = (Inr (), f')"
  shows "files f' p = Some \<lparr>fbytes = utf8_encode (as_code l), synced = False\<rparr>"
proof -
  define dirs where "dirs = (case path_parent p of None \<Rightarrow> []
      | Some d \<Rightarrow> if path_is_empty d then [] else [CreateDirAll d])"
  have d: "fold op_effect dirs m = m" for m
    by (auto simp: dirs_def op_effect_def split: option.splits)
  have "files f' = fold op_effect (dirs @ [Create p, WriteAll p (utf8_encode (as_code l))]) (files f)"
    using fs_run_ok [of "lang_write_ops p l" f "()" f'] assms
    by (simp add: lang_write_def lang_write_ops_def dirs_def)
  then show ?thesis by (simp add: d) (simp add: op_effect_def)
qed

lemma lang_read_written:
  assumes "files f p = Some \<lparr>fbytes = utf8_encode (as_code l), synced = b\<rparr>" "verdicts f = []"
  shows "lang_read p f = (Some l, f)"
  using read_to_string_files [OF assms(2,1)] utf8_roundtrip [OF as_code_plain(2)]
  by (simp add: lang_read_def as_code_plain(1))

text \<open>A language file with its path as a store: what was written is read back, as long as the
  power stays on.\<close>

definition lang_save :: "path \<times> lang \<Rightarrow> fs \<Rightarrow> (io_error + unit) \<times> fs" where
  "lang_save s f = lang_write (fst s) (snd s) f"

definition lang_open :: "path \<Rightarrow> fs \<Rightarrow> (io_error + path \<times> lang) \<times> fs" where
  "lang_open p f =
     (case lang_read p f of (Some l, f') \<Rightarrow> (Inr (p, l), f') | (None, f') \<Rightarrow> (Inl NotFound, f'))"

interpretation lang_file: store lang_save lang_open fst "\<lambda>_. True"
proof unfold_locales
  fix s :: "path \<times> lang" and f f'
  assume "lang_save s f = (Inr (), f')" "verdicts f' = []"
  then show "fst (lang_open (fst s) f') = Inr s"
    using lang_read_written [OF lang_written] by (simp add: lang_save_def lang_open_def)
next
  fix f g :: fs and p
  assume "verdicts f = []" "verdicts g = []" "files f p = files g p"
  then have "fst (read_to_string p f) = fst (read_to_string p g)" by (rule read_to_string_cong)
  then have "fst (lang_read p f) = fst (lang_read p g)"
    by (auto simp: lang_read_def split: prod.splits sum.splits)
  then show "fst (lang_open p f) = fst (lang_open p g)"
    by (auto simp: lang_open_def split: prod.splits option.splits)
qed

lemma lang_write_granted:
  assumes "verdicts f = []"
  shows "fst (lang_write p l f) = Inr ()" and "verdicts (snd (lang_write p l f)) = []"
proof -
  have "\<forall>op\<in>set (lang_write_ops p l). \<forall>a b. op \<noteq> Rename a b"
    by (auto simp: lang_write_ops_def split: option.splits)
  then show "fst (lang_write p l f) = Inr ()" using fs_run_granted [OF assms] by (simp add: lang_write_def)
  show "verdicts (snd (lang_write p l f)) = []"
    using fs_run_granted_verdicts [OF assms] by (simp add: lang_write_def)
qed

lemma load_lang_primary:
  assumes "files f LANG_PATH = Some \<lparr>fbytes = utf8_encode (as_code l), synced = b\<rparr>" "verdicts f = []"
  shows "fst (load_lang f) = l"
  by (simp add: load_lang_def lang_read_written [OF assms])

lemma lang_write_frame:
  "q \<noteq> p \<Longrightarrow> files (snd (lang_write p l f)) q = files f q"
  unfolding lang_write_def by (rule fs_run_frame) (auto simp: lang_write_ops_def split: option.splits)

lemma lang_paths: "LANG_PATH \<noteq> LANG_PATH_FALLBACK"
  by (simp add: LANG_PATH_def LANG_PATH_FALLBACK_def)

lemma lang_ops_primary:
  "lang_write_ops LANG_PATH l =
    [CreateDirAll (LANG_PATH\<lparr>comps := butlast (comps LANG_PATH)\<rparr>), Create LANG_PATH,
     WriteAll LANG_PATH (utf8_encode (as_code l))]"
  by (simp add: lang_write_ops_def path_parent_def path_is_empty_def LANG_PATH_def)

text \<open>C36. The language choice comes back at the next start when its primary file could be
  written. When the primary file can still be read but not opened for writing (a file system
  remounted read-only), the choice goes to the fallback file, which the next start does not look
  at, and the old language returns.\<close>

theorem language_after_restart:
  assumes "files f LANG_PATH = Some \<lparr>fbytes = utf8_encode (as_code old), synced = True\<rparr>"
  shows "fst (load_lang (save_lang new (f\<lparr>verdicts := []\<rparr>))) = new
    \<and> fst (load_lang (save_lang new (f\<lparr>verdicts := [Grant, Refuse e k]\<rparr>))) = old"
proof
  let ?f = "f\<lparr>verdicts := []\<rparr>"
  obtain f1 where w: "lang_write LANG_PATH new ?f = (Inr (), f1)" "verdicts f1 = []"
    using lang_write_granted [of ?f LANG_PATH new] by (metis fs.select_convs(2) fs.surjective fs.update_convs(2) prod.collapse snd_conv)
  show "fst (load_lang (save_lang new ?f)) = new"
    using load_lang_primary [OF lang_written [OF w(1)] w(2)] by (simp add: save_lang_def w(1))
next
  let ?f = "f\<lparr>verdicts := [Grant, Refuse e k]\<rparr>"
  have w: "lang_write LANG_PATH new ?f = (Inl e, f\<lparr>verdicts := []\<rparr>)"
    by (simp add: lang_write_def lang_ops_primary fs_exec_def next_verdict_def)
  let ?g = "snd (lang_write LANG_PATH_FALLBACK new (f\<lparr>verdicts := []\<rparr>))"
  have "files ?g LANG_PATH = files f LANG_PATH"
    using lang_write_frame [OF lang_paths, of new "f\<lparr>verdicts := []\<rparr>"] by simp
  then have "fst (load_lang ?g) = old"
    using load_lang_primary [of ?g old True] lang_write_granted(2) [of "f\<lparr>verdicts := []\<rparr>"] assms by simp
  then show "fst (load_lang (save_lang new ?f)) = old" by (simp add: save_lang_def w)
qed

theorem language_after_restart_witness:
  "let f = \<lparr>files = [LANG_PATH \<mapsto> \<lparr>fbytes = utf8_encode (as_code De), synced = True\<rparr>], verdicts = [], older = \<lambda>_. []\<rparr>
   in fst (load_lang (save_lang En (f\<lparr>verdicts := [Grant, Refuse OtherIo 0]\<rparr>))) = De"
  using language_after_restart [of "\<lparr>files = [LANG_PATH \<mapsto> \<lparr>fbytes = utf8_encode (as_code De), synced = True\<rparr>], verdicts = [], older = \<lambda>_. []\<rparr>" De]
  by (simp add: Let_def)

end
