(* ===== verification/PanelLight.thy ===== *)
theory PanelLight
  imports Ipc
begin

unbundle bit_operations_syntax

text \<open>
  The two outputs of the panel with arithmetic of their own: the LED beacon
  (\<open>LedBeacon\<close> of \<open>baler-ui/src/main.rs\<close>) and the pixel of the frame buffer
  (\<open>baler-ui/src/platform.rs\<close>).
\<close>

subsection \<open>The LED beacon\<close>

type_synonym u128 = "128 word"

text \<open>Status red, green, blue and keypad red, green, blue.\<close>

type_synonym leds = "u32 \<times> u32 \<times> u32 \<times> u8 \<times> u8 \<times> u8"

record led_beacon =
  lb_last :: "leds option"

definition lb_new :: led_beacon where
  "lb_new = \<lparr>lb_last = None\<rparr>"

text \<open>The triangle wave of the amber pulse over 1200 ms, as in the code in \<open>i64\<close> (the values are
  small and not negative, so the division is that of the naturals) and narrowed to a byte.\<close>

definition ramp_of :: "u64 \<Rightarrow> nat" where
  "ramp_of t = (let phase = unat t mod 1200 in if phase < 600 then phase else 1200 - phase)"

definition amber_pwm :: "u64 \<Rightarrow> u8" where
  "amber_pwm t = of_nat (ramp_of t * 255 div 600)"

definition flash_on :: "u64 \<Rightarrow> bool" where
  "flash_on t \<longleftrightarrow> (t div 125) mod 2 = 0"

definition led_colors :: "u64 \<Rightarrow> state_snapshot \<Rightarrow> leds" where
  "led_colors t s =
     (if ss_wrap_active s \<or> ss_knife_active s then
        (if flash_on t then (1, 1, 1, 255, 255, 255) else (0, 0, 0, 0, 0, 0))
      else if ss_mode s = Fault then (1, 0, 0, 255, 0, 0)
      else if ss_mode s = Ethernet then (0, 0, 1, 0, 0, 255)
      else if ss_bale_full s then
        (1, 1, 0, amber_pwm t, ucast ((ucast (amber_pwm t) :: u32) * 90 div 255), 0)
      else if ss_mode s = Operational then (0, 1, 0, 0, 200, 0)
      else (0, 0, 1, 0, 0, 120))"

text \<open>The LEDs are driven only when the colours change.\<close>

definition lb_tick :: "u64 \<Rightarrow> state_snapshot \<Rightarrow> led_beacon \<Rightarrow> leds option \<times> led_beacon" where
  "lb_tick t s b =
     (let next_leds = led_colors t s in
      if lb_last b = Some next_leds then (None, b) else (Some next_leds, b\<lparr>lb_last := Some next_leds\<rparr>))"

text \<open>The narrowing casts lose nothing.\<close>

lemma ramp_le: "ramp_of t \<le> 600"
  unfolding ramp_of_def Let_def by (cases "unat t mod 1200 < 600") auto

lemma unat_amber: "unat (amber_pwm t) = ramp_of t * 255 div 600"
proof -
  have "ramp_of t * 255 div 600 < 256" using ramp_le [of t] by (simp add: div_less_iff_less_mult)
  then show ?thesis unfolding amber_pwm_def by (simp add: unsigned_of_nat take_bit_nat_eq_self)
qed

lemma amber_green:
  "unat (ucast ((ucast (amber_pwm t) :: u32) * 90 div 255) :: u8) = unat (amber_pwm t) * 90 div 255"
proof -
  have a: "unat (amber_pwm t) < 256" using unat_bound [of "amber_pwm t"] by simp
  have u: "unat (ucast (amber_pwm t) :: u32) = unat (amber_pwm t)"
    using a by (simp add: unsigned_ucast_eq take_bit_nat_eq_self)
  have "unat ((ucast (amber_pwm t) :: u32) * 90) = unat (amber_pwm t) * 90"
    using a by (simp add: unat_word_ariths u)
  then have q: "unat ((ucast (amber_pwm t) :: u32) * 90 div 255) = unat (amber_pwm t) * 90 div 255"
    by (simp add: unat_div_distrib)
  have "unat (amber_pwm t) * 90 div 255 < 256" using a by (simp add: div_less_iff_less_mult)
  then show ?thesis by (simp add: unsigned_ucast_eq take_bit_nat_eq_self q)
qed

lemma led_only_on_change: "fst (lb_tick t s (snd (lb_tick t s b))) = None"
  by (simp add: lb_tick_def Let_def)

subsection \<open>The pixel\<close>

record premultiplied =
  pm_red :: u8
  pm_green :: u8
  pm_blue :: u8
  pm_alpha :: u8

definition channels :: "u32 \<Rightarrow> u32 \<times> u32 \<times> u32" where
  "channels p = (drop_bit 16 p AND 0xFF, drop_bit 8 p AND 0xFF, p AND 0xFF)"

definition px_blend :: "premultiplied \<Rightarrow> u32 \<Rightarrow> u32" where
  "px_blend color p =
     (let inv = 255 - (ucast (pm_alpha color) :: u32);
          (dr, dg, db) = channels p;
          r = ucast (pm_red color) + dr * inv div 255;
          g = ucast (pm_green color) + dg * inv div 255;
          b = ucast (pm_blue color) + db * inv div 255
      in push_bit 16 (min r 255) OR push_bit 8 (min g 255) OR min b 255)"

definition from_rgb :: "u8 \<Rightarrow> u8 \<Rightarrow> u8 \<Rightarrow> u32" where
  "from_rgb red green blue = push_bit 16 (ucast red) OR push_bit 8 (ucast green) OR ucast blue"

text \<open>Three bytes put into their places are read back.\<close>

lemma channels_pack:
  fixes r g b :: u32
  assumes "r \<le> 255" "g \<le> 255" "b \<le> 255"
  shows "channels (push_bit 16 r OR push_bit 8 g OR b) = (r, g, b)"
proof -
  have low: "x AND 0xFF = x \<and> (\<forall>n\<ge>8. \<not> bit x n)" if "x \<le> 255" for x :: u32
  proof -
    have m: "unat x < 2 ^ 8" using that by (simp add: word_le_nat_alt)
    have "take_bit 8 x = x"
      by (rule word_unat_eq_iff [THEN iffD2]) (simp add: unsigned_take_bit_eq take_bit_nat_eq_self [OF m])
    then have t: "x AND mask 8 = x" by (simp add: take_bit_eq_mask)
    have "\<not> bit x n" if "8 \<le> n" for n
      using \<open>take_bit 8 x = x\<close> that by (metis bit_take_bit_iff not_le)
    with t show ?thesis by (simp add: mask_eq_exp_minus_1)
  qed
  have r16: "n < 16" if "bit r n" for n
  proof (rule ccontr)
    assume "\<not> n < 16"
    then have "8 \<le> n" by simp
    then show False using low [OF assms(1)] that by blast
  qed
  have m: "(0xFF :: u32) = mask 8" by (simp add: mask_eq_exp_minus_1)
  have "drop_bit 16 (push_bit 16 r OR push_bit 8 g OR b) AND 0xFF = r"
    using low [OF assms(1)] low [OF assms(2)] low [OF assms(3)] unfolding m
    by (intro bit_eqI) (auto simp: bit_and_iff bit_or_iff bit_drop_bit_eq bit_push_bit_iff bit_mask_iff not_le
        intro: r16)
  moreover have "drop_bit 8 (push_bit 16 r OR push_bit 8 g OR b) AND 0xFF = g"
    using low [OF assms(1)] low [OF assms(2)] low [OF assms(3)] unfolding m
    by (intro bit_eqI) (auto simp: bit_and_iff bit_or_iff bit_drop_bit_eq bit_push_bit_iff bit_mask_iff not_le)
  moreover have "(push_bit 16 r OR push_bit 8 g OR b) AND 0xFF = b"
    using low [OF assms(1)] low [OF assms(2)] low [OF assms(3)] unfolding m
    by (intro bit_eqI) (auto simp: bit_and_iff bit_or_iff bit_drop_bit_eq bit_push_bit_iff bit_mask_iff not_le)
  ultimately show ?thesis by (simp add: channels_def)
qed

text \<open>One channel of the blend, on numbers.\<close>

definition blend_channel :: "u8 \<Rightarrow> u8 \<Rightarrow> nat \<Rightarrow> nat" where
  "blend_channel c alpha d = min 255 (unat c + d * (255 - unat alpha) div 255)"

lemma unat_u8_u32: "unat (ucast c :: u32) = unat c" for c :: u8
proof -
  have "unat c < 256" using unat_bound [of c] by simp
  then show ?thesis by (simp add: unsigned_ucast_eq take_bit_nat_eq_self)
qed

lemma unat_u8_le: "unat (c :: u8) \<le> 255"
  using unat_bound [of c] by simp

lemma blend_no_overflow:
  assumes "d \<le> (255 :: u32)"
  shows "unat (min (ucast c + d * (255 - ucast (alpha :: u8)) div 255) 255 :: u32) =
    blend_channel c alpha (unat d)"
proof -
  have d: "unat d \<le> 255" using assms by (simp add: word_le_nat_alt)
  have "(ucast alpha :: u32) \<le> 255" using unat_u8_le [of alpha] by (simp add: word_le_nat_alt unat_u8_u32)
  then have inv: "unat (255 - (ucast alpha :: u32)) = 255 - unat alpha"
    by (simp add: unat_sub unat_u8_u32)
  have p: "unat d * (255 - unat alpha) \<le> 255 * 255" by (rule mult_le_mono [OF d diff_le_self])
  then have e: "unat (d * (255 - ucast alpha)) = unat d * (255 - unat alpha)"
    by (simp add: unat_word_ariths inv)
  define t where "t = d * (255 - (ucast alpha :: u32)) div 255"
  have q: "unat t = unat d * (255 - unat alpha) div 255"
    unfolding t_def by (simp only: unat_div_distrib e) simp
  have "unat t \<le> 255" unfolding q using div_le_mono [OF p, of 255] by simp
  then have "unat (ucast c + t :: u32) = unat c + unat t"
    using unat_u8_le [of c] by (simp add: unat_word_ariths unat_u8_u32)
  then show ?thesis
    unfolding blend_channel_def q [symmetric] t_def [symmetric] by (simp add: min_def word_le_nat_alt)
qed

lemma channels_le: "fst (channels p) \<le> 255" "fst (snd (channels p)) \<le> 255" "snd (snd (channels p)) \<le> 255"
  by (simp_all add: channels_def word_and_le1)

lemma min_255: "min x 255 \<le> (255 :: u32)"
  by simp

lemma packed_top_clear:
  fixes r g b :: u32
  assumes "r \<le> 255" "g \<le> 255" "b \<le> 255"
  shows "drop_bit 24 (push_bit 16 r OR push_bit 8 g OR b) = 0"
proof -
  have low: "\<not> bit x n" if "x \<le> 255" "8 \<le> n" for x :: u32 and n
  proof -
    have "unat x < 2 ^ 8" using that by (simp add: word_le_nat_alt)
    then have "take_bit 8 x = x"
      by (intro word_unat_eq_iff [THEN iffD2]) (simp add: unsigned_take_bit_eq take_bit_nat_eq_self)
    then show ?thesis using that(2) by (metis bit_take_bit_iff not_le)
  qed
  have "\<not> bit (drop_bit 24 (push_bit 16 r OR push_bit 8 g OR b)) n" for n
    using low [OF assms(1), of "n + 24 - 16"] low [OF assms(2), of "n + 24 - 8"]
      low [OF assms(3), of "n + 24"]
    by (auto simp: bit_or_iff bit_drop_bit_eq bit_push_bit_iff add.commute)
  then show ?thesis by (intro bit_eqI) simp
qed

text \<open>Blending a pixel computes each channel on its own as the exact saturated sum
  \<open>min 255 (c + d * (255 - alpha) / 255)\<close>: no intermediate value overflows its 32 bits, no channel
  spills into its neighbour and the unused top byte stays zero.\<close>

theorem blend_exact:
  "map unat [fst (channels (px_blend color p)), fst (snd (channels (px_blend color p))),
      snd (snd (channels (px_blend color p)))] =
    [blend_channel (pm_red color) (pm_alpha color) (unat (fst (channels p))),
     blend_channel (pm_green color) (pm_alpha color) (unat (fst (snd (channels p)))),
     blend_channel (pm_blue color) (pm_alpha color) (unat (snd (snd (channels p))))]
    \<and> drop_bit 24 (px_blend color p) = 0"
proof -
  obtain dr dg db where c: "channels p = (dr, dg, db)" by (metis prod.exhaust)
  note le = channels_le [of p, unfolded c fst_conv snd_conv]
  note m = min_255 min_255 min_255
  show ?thesis
    by (simp only: px_blend_def c prod.case Let_def channels_pack [OF m] packed_top_clear [OF m]
        blend_no_overflow [OF le(1)] blend_no_overflow [OF le(2)] blend_no_overflow [OF le(3)]
        fst_conv snd_conv list.map)
qed

end
