(* ===== verification/PanelBackend.thy ===== *)
theory PanelBackend
  imports Panel Transport Control
begin

text \<open>
  The two back ends of the panel (\<open>baler-ui/src/main.rs\<close>). \<open>LocalBackend\<close> runs the baler's
  state machine, pulses and counters in the panel itself over simulated inputs (the demo build);
  \<open>IpcBackend\<close> reads the daemon's snapshots and writes commands over the two channels, whose
  library is a parameter as in \<open>Transport\<close>. The clock is an input: a step is given the time
  since the previous step and the whole seconds since the start.
\<close>

subsection \<open>The demo back end\<close>

record local_backend =
  lo_state :: baler_state
  lo_wrap :: pulse_engine
  lo_knives_in :: pulse_engine
  lo_knives_out :: pulse_engine
  lo_counters :: counter_store
  lo_sim_knife_in :: bool
  lo_sim_bale_open :: bool
  lo_last_ip :: "ipv4 option"
  lo_fs :: fs

definition COUNTERS_PATH :: path where
  "COUNTERS_PATH = \<lparr>is_abs = True, comps = [lit ''var'', lit ''lib'', lit ''baler'', lit ''counters'']\<rparr>"

definition COUNTERS_TMP :: path where
  "COUNTERS_TMP = \<lparr>is_abs = True, comps = [lit ''tmp'', lit ''baler-counters'']\<rparr>"

text \<open>The panic of \<open>unwrap\<close> on the second path is \<open>None\<close>.\<close>

definition lo_load :: "fs \<Rightarrow> counter_store option \<times> fs" where
  "lo_load f =
     (case cs_load COUNTERS_PATH f of
        (Inr s, f1) \<Rightarrow> (Some s, f1)
      | (Inl _, f1) \<Rightarrow>
          (case cs_load COUNTERS_TMP f1 of
             (Inr s, f2) \<Rightarrow> (Some s, f2)
           | (Inl _, f2) \<Rightarrow> (None, f2)))"

definition lo_new :: "fs \<Rightarrow> local_backend option" where
  "lo_new f =
     (case lo_load f of
        (None, _) \<Rightarrow> None
      | (Some s, f') \<Rightarrow> Some
          \<lparr>lo_state = on_bus_health True bs_new, lo_wrap = pe_new (from_secs 5),
           lo_knives_in = pe_new (from_secs 5), lo_knives_out = pe_new (from_secs 5),
           lo_counters = s, lo_sim_knife_in = False, lo_sim_bale_open = False, lo_last_ip = None,
           lo_fs = f'\<rparr>)"

definition lo_knife_active :: "local_backend \<Rightarrow> bool" where
  "lo_knife_active b \<longleftrightarrow> pe_is_active (lo_knives_in b) \<or> pe_is_active (lo_knives_out b)"

definition lo_snapshot :: "local_backend \<Rightarrow> state_snapshot" where
  "lo_snapshot b =
     (let counts = cs_snapshot (lo_counters b) in
      \<lparr>ss_mode = bs_mode (lo_state b),
       ss_bale_full = bs_bale_full (lo_state b),
       ss_knife = knife_pos_of (bs_knife_in (lo_state b)),
       ss_wrap_armed = bs_wrap_armed (lo_state b),
       ss_full_latched = bs_bale_full (lo_state b),
       ss_wrap_active = pe_is_active (lo_wrap b),
       ss_knife_active = lo_knife_active b,
       ss_session = cn_session counts,
       ss_total = cn_total counts,
       ss_di1 = bs_bale_full (lo_state b),
       ss_di2 = (case bs_knife_in (lo_state b) of None \<Rightarrow> False | Some k \<Rightarrow> k),
       ss_di3 = lo_sim_bale_open b,
       ss_ip = (case lo_last_ip b of None \<Rightarrow> (0, 0, 0, 0) | Some ip \<Rightarrow> ip),
       ss_ip_valid = (lo_last_ip b \<noteq> None)\<rparr>)"

text \<open>\<open>step\<close>, in its four stages: health and inputs, the wrap pulse with the ejected bale, the knife
  pulses with the knives that flip, the snapshot.\<close>

definition lo_sense :: "u64 \<Rightarrow> local_backend \<Rightarrow> local_backend" where
  "lo_sense elapsed_secs b =
     b\<lparr>lo_state := on_inputs (16 \<le> elapsed_secs mod 24) (lo_sim_knife_in b)
         (on_bus_health True (lo_state b))\<rparr>"

definition lo_wrap_tick :: "duration \<Rightarrow> local_backend \<Rightarrow> local_backend" where
  "lo_wrap_tick dt b =
     (let (ev, wrap) = pe_tick dt True (lo_wrap b); b1 = b\<lparr>lo_wrap := wrap\<rparr> in
      if ev = Completed then
        let (_, s, f) = increment_bale (lo_counters b1) (lo_fs b1)
        in b1\<lparr>lo_sim_bale_open := True, lo_counters := s, lo_fs := f\<rparr>
      else b1\<lparr>lo_sim_bale_open := False\<rparr>)"

definition lo_knife_tick :: "duration \<Rightarrow> local_backend \<Rightarrow> local_backend" where
  "lo_knife_tick dt b =
     (let (ev_in, kin) = pe_tick dt True (lo_knives_in b);
          (ev_out, kout) = pe_tick dt True (lo_knives_out b);
          b1 = b\<lparr>lo_knives_in := kin, lo_knives_out := kout\<rparr>
      in if ev_in = Completed \<or> ev_out = Completed
         then b1\<lparr>lo_sim_knife_in := \<not> lo_sim_knife_in b1\<rparr> else b1)"

definition lo_step :: "duration \<times> u64 \<Rightarrow> local_backend \<Rightarrow> state_snapshot \<times> local_backend" where
  "lo_step clock b =
     (let (dt, elapsed_secs) = clock;
          b1 = lo_knife_tick dt (lo_wrap_tick dt (lo_sense elapsed_secs b))
      in (lo_snapshot b1, b1))"

definition lo_command :: "command \<Rightarrow> local_backend \<Rightarrow> local_backend" where
  "lo_command cmd b =
     (let knife_active = lo_knife_active b;
          any_active = pe_is_active (lo_wrap b) \<or> knife_active;
          (r, st) = bs_handle cmd any_active (lo_state b);
          b1 = b\<lparr>lo_state := st\<rparr>
      in case r of
           Inr FireWrap \<Rightarrow> b1\<lparr>lo_wrap := snd (pe_trigger (lo_wrap b1))\<rparr>
         | Inr FireKnife \<Rightarrow>
             if \<not> knife_active then
               (if lo_sim_knife_in b1
                then b1\<lparr>lo_knives_in := snd (pe_trigger (lo_knives_in b1))\<rparr>
                else b1\<lparr>lo_knives_out := snd (pe_trigger (lo_knives_out b1))\<rparr>)
             else b1
         | Inr ActResetSession \<Rightarrow>
             let (_, s, f) = reset_session (lo_counters b1) (lo_fs b1)
             in b1\<lparr>lo_counters := s, lo_fs := f\<rparr>
         | Inr (ActAdjustSession delta) \<Rightarrow>
             let (_, s, f) = adjust_session (scast delta) (lo_counters b1) (lo_fs b1)
             in b1\<lparr>lo_counters := s, lo_fs := f\<rparr>
         | Inr ActResetTotal \<Rightarrow>
             let (_, s, f) = reset_total (lo_counters b1) (lo_fs b1)
             in b1\<lparr>lo_counters := s, lo_fs := f\<rparr>
         | Inr SwitchToEthernet \<Rightarrow> b1\<lparr>lo_last_ip := Some (192, 168, 1, 102)\<rparr>
         | Inr SwitchToEthercat \<Rightarrow> b1\<lparr>lo_last_ip := None\<rparr>
         | Inl _ \<Rightarrow> b1)"

subsection \<open>The daemon-coupled back end\<close>

definition link_is_corrupted :: "(connector_error \<Rightarrow> str) \<Rightarrow> connector_error \<Rightarrow> bool" where
  "link_is_corrupted debug e = str_contains (lit ''Corrupted'') (debug e)"

definition link_backoff :: "(duration \<Rightarrow> 'w \<Rightarrow> 'w) \<Rightarrow> u32 \<Rightarrow> 'w \<Rightarrow> 'w" where
  "link_backoff sleep attempt = sleep (from_millis (min (ucast attempt * 50) 500))"

record ('rx, 'tx) ipc_backend =
  ib_state_rx :: 'rx
  ib_cmd_tx :: 'tx
  ib_last :: state_snapshot

definition ipc_initial :: state_snapshot where
  "ipc_initial =
     \<lparr>ss_mode = Initializing, ss_bale_full = False, ss_knife = KUnknown, ss_wrap_armed = False,
      ss_full_latched = False, ss_wrap_active = False, ss_knife_active = False, ss_session = 0,
      ss_total = 0, ss_di1 = False, ss_di2 = False, ss_di3 = False, ss_ip = (0, 0, 0, 0),
      ss_ip_valid = False\<rparr>"

text \<open>\<open>IpcBackend::new\<close>; the error is the node's own or a connector error.\<close>

definition ipc_new ::
  "(connector_error \<Rightarrow> str) \<Rightarrow> ('w \<Rightarrow> 'w) \<Rightarrow> (duration \<Rightarrow> 'w \<Rightarrow> 'w) \<Rightarrow> ('w \<Rightarrow> ('e + unit) \<times> 'w)
   \<Rightarrow> (string \<Rightarrow> connector_error + 'd) \<Rightarrow> ('d \<Rightarrow> 'w \<Rightarrow> (connector_error + 'rx) \<times> 'w)
   \<Rightarrow> ('d \<Rightarrow> 'w \<Rightarrow> (connector_error + 'tx) \<times> 'w) \<Rightarrow> 'w
   \<Rightarrow> (('e + connector_error) + ('rx, 'tx) ipc_backend) \<times> 'w" where
  "ipc_new debug cleanup sleep create_node descriptor create_reader create_writer w =
     (case create_node w of
        (Inl e, w1) \<Rightarrow> (Inl (Inl e), w1)
      | (Inr _, w1) \<Rightarrow>
          (case descriptor CHANNEL_STATE of
             Inl e \<Rightarrow> (Inl (Inr e), w1)
           | Inr state_desc \<Rightarrow>
               (case descriptor CHANNEL_COMMAND of
                  Inl e \<Rightarrow> (Inl (Inr e), w1)
                | Inr cmd_desc \<Rightarrow>
                    (case retry_open 10 (create_reader state_desc) (link_is_corrupted debug) cleanup
                            (link_backoff sleep) w1 of
                       (Inl e, w2) \<Rightarrow> (Inl (Inr e), w2)
                     | (Inr rx, w2) \<Rightarrow>
                         (case retry_open 10 (create_writer cmd_desc) (link_is_corrupted debug) cleanup
                                 (link_backoff sleep) w2 of
                            (Inl e, w3) \<Rightarrow> (Inl (Inr e), w3)
                          | (Inr tx, w3) \<Rightarrow>
                              (Inr \<lparr>ib_state_rx = rx, ib_cmd_tx = tx, ib_last = ipc_initial\<rparr>, w3))))))"

text \<open>\<open>while let Ok(Some(env)) = self.state_rx.try_recv() { self.last = env.value; }\<close>\<close>

partial_function (option) newest_loop ::
    "('r, state_snapshot) try_recv \<Rightarrow> state_snapshot \<Rightarrow> 'r \<Rightarrow> (state_snapshot \<times> 'r) option" where
  "newest_loop recv last_one r =
     (case recv r of
        (Inr (Some v), r') \<Rightarrow> newest_loop recv v r'
      | (_, r') \<Rightarrow> Some (last_one, r'))"

definition ipc_step ::
    "('rx, state_snapshot) try_recv \<Rightarrow> ('rx, 'tx) ipc_backend
     \<Rightarrow> (state_snapshot \<times> ('rx, 'tx) ipc_backend) option" where
  "ipc_step recv b =
     (case newest_loop recv (ib_last b) (ib_state_rx b) of
        None \<Rightarrow> None
      | Some (s, rx) \<Rightarrow> Some (s, b\<lparr>ib_last := s, ib_state_rx := rx\<rparr>))"

definition ipc_command ::
    "('tx, command) send \<Rightarrow> command \<Rightarrow> ('rx, 'tx) ipc_backend \<Rightarrow> ('rx, 'tx) ipc_backend" where
  "ipc_command send cmd b = b\<lparr>ib_cmd_tx := snd (send cmd (ib_cmd_tx b))\<rparr>"

end
