(* ===== verification/PanelBackendProps.thy ===== *)
theory PanelBackendProps
  imports PanelBackend
begin

text \<open>
  What the back ends of the panel guarantee: the demo never fires both knife outputs, counts
  exactly the wraps that complete and shows an ejected bale for exactly those frames; the
  daemon-coupled back end shows the newest snapshot of the backlog.
\<close>

subsection \<open>The demo as a machine\<close>

datatype demo_event = Tick duration u64 | Key command

fun demo_step :: "local_backend \<Rightarrow> demo_event \<Rightarrow> bool \<times> local_backend" where
  "demo_step b (Tick dt t) = (fst (pe_tick dt True (lo_wrap b)) = Completed, snd (lo_step (dt, t) b))"
| "demo_step b (Key c) = (False, lo_command c b)"

definition demo_inv :: "local_backend \<Rightarrow> bool" where
  "demo_inv b \<longleftrightarrow> \<not> (pe_active (lo_knives_in b) \<and> pe_active (lo_knives_out b))
     \<and> (bs_mode (lo_state b) = Ethernet \<longleftrightarrow> lo_last_ip b \<noteq> None)"

lemma lo_step_fields:
  "lo_knives_in (snd (lo_step (dt, t) b)) = snd (pe_tick dt True (lo_knives_in b))"
  "lo_knives_out (snd (lo_step (dt, t) b)) = snd (pe_tick dt True (lo_knives_out b))"
  "lo_wrap (snd (lo_step (dt, t) b)) = snd (pe_tick dt True (lo_wrap b))"
  "lo_last_ip (snd (lo_step (dt, t) b)) = lo_last_ip b"
  "lo_sim_bale_open (snd (lo_step (dt, t) b)) = (fst (pe_tick dt True (lo_wrap b)) = Completed)"
  "bs_mode (lo_state (snd (lo_step (dt, t) b))) = bs_mode (on_bus_health True (lo_state b))"
  "cs_counters (lo_counters (snd (lo_step (dt, t) b))) =
     (if fst (pe_tick dt True (lo_wrap b)) = Completed then
        (cs_counters (lo_counters b))\<lparr>cn_session := sat_add (cn_session (cs_counters (lo_counters b))) 1,
           cn_total := sat_add (cn_total (cs_counters (lo_counters b))) 1\<rparr>
      else cs_counters (lo_counters b))"
  by (simp_all add: lo_step_def lo_knife_tick_def lo_wrap_tick_def lo_sense_def Let_def split_beta
      increment_bale_def cs_update_store)

lemma lo_step_snapshot: "fst (lo_step (dt, t) b) = lo_snapshot (snd (lo_step (dt, t) b))"
  by (simp add: lo_step_def Let_def)

lemma health_keeps_ethernet:
  "bs_mode (on_bus_health True s) = Ethernet \<longleftrightarrow> bs_mode s = Ethernet"
  by (simp add: on_bus_health_def mark_inputs_unknown_def Let_def split: mode.splits)

lemma lo_command_knives:
  assumes "\<not> (pe_active (lo_knives_in b) \<and> pe_active (lo_knives_out b))"
  shows "\<not> (pe_active (lo_knives_in (lo_command c b)) \<and> pe_active (lo_knives_out (lo_command c b)))"
  using assms
  by (auto simp: lo_command_def lo_knife_active_def pe_is_active_def Let_def split_beta
      split: sum.split action.split)

lemma lo_command_ip:
  assumes "bs_mode (lo_state b) = Ethernet \<longleftrightarrow> lo_last_ip b \<noteq> None"
  shows "bs_mode (lo_state (lo_command c b)) = Ethernet \<longleftrightarrow> lo_last_ip (lo_command c b) \<noteq> None"
  using assms
  by (cases c) (auto simp: lo_command_def Let_def split_beta require_operational_def
      mark_inputs_unknown_def split: mode.splits)

lemma demo_inv_step: "demo_inv b \<Longrightarrow> demo_inv (snd (demo_step b e))"
proof (cases e)
  case (Tick dt t)
  assume "demo_inv b"
  then show ?thesis
    using pe.idle_stays_idle [of "lo_knives_in b" dt True] pe.idle_stays_idle [of "lo_knives_out b" dt True]
    by (auto simp: Tick demo_inv_def lo_step_fields health_keeps_ethernet)
next
  case (Key c)
  assume "demo_inv b"
  then show ?thesis using lo_command_knives [of b c] lo_command_ip [of b c] by (simp add: Key demo_inv_def)
qed

lemma demo_inv_new: "lo_new f = Some b \<Longrightarrow> demo_inv b"
  by (auto simp: lo_new_def demo_inv_def on_bus_health_def bs_new_def Let_def split: prod.splits option.splits)

interpretation demo: safe_machine demo_step demo_inv "\<lambda>_ _. True"
  by unfold_locales (simp_all add: demo_inv_step)

subsection \<open>Properties\<close>

text \<open>However the demo is driven from its start, in any interleaving of frames and commands,
  the two knife outputs are never both on, and an address is shown exactly in Ethernet mode.\<close>

theorem demo_interlock:
  assumes "lo_new f = Some b0" and "b = run_end demo_step b0 evs"
  shows "\<not> (pe_output (lo_knives_in b) \<and> pe_output (lo_knives_out b))
    \<and> ss_ip_valid (lo_snapshot b) = (ss_mode (lo_snapshot b) = Ethernet)"
proof -
  have "demo_inv b" unfolding assms(2) by (rule demo.run_inv [OF demo_inv_new [OF assms(1)]])
  then show ?thesis by (auto simp: demo_inv_def pe_output_def lo_snapshot_def Let_def)
qed

definition demo_fs :: fs where
  "demo_fs = \<lparr>files = Map.empty, verdicts = [], older = \<lambda>_. []\<rparr>"

lemma demo_starts: "\<exists>b. lo_new demo_fs = Some b \<and> cn_total (cs_counters (lo_counters b)) = 0"
  by (simp add: lo_new_def lo_load_def cs_load_def read_to_string_def demo_fs_def next_verdict_def
      counters_default_def Let_def split: prod.splits)

theorem demo_interlock_witness:
  "\<exists>b0. lo_new demo_fs = Some b0 \<and>
     (let b = run_end demo_step b0 [Tick (from_millis 16) 0, Key ToggleKnife, Key ToggleKnife, Key EnterEthernet]
      in \<not> (pe_output (lo_knives_in b) \<and> pe_output (lo_knives_out b)))"
  unfolding Let_def using demo_starts demo_interlock [OF _ refl] by metis

lemma lo_command_total:
  "c \<noteq> ResetTotal \<Longrightarrow>
     cn_total (cs_counters (lo_counters (lo_command c b))) = cn_total (cs_counters (lo_counters b))"
  by (cases c) (auto simp: lo_command_def Let_def split_beta require_operational_def
      reset_session_def adjust_session_def cs_update_store split: mode.splits)

lemma demo_total_run:
  "Key ResetTotal \<notin> set evs \<Longrightarrow>
     unat (cn_total (cs_counters (lo_counters (run_end demo_step b evs)))) =
       min (2 ^ 64 - 1) (unat (cn_total (cs_counters (lo_counters b))) + length (filter id (run_outs demo_step b evs)))"
proof (induction evs arbitrary: b)
  case Nil
  show ?case using unat_bound [of "cn_total (cs_counters (lo_counters b))"] by simp
next
  case (Cons e evs)
  have "unat (cn_total (cs_counters (lo_counters (snd (demo_step b e))))) =
      min (2 ^ 64 - 1) (unat (cn_total (cs_counters (lo_counters b))) + (if fst (demo_step b e) then 1 else 0))"
    using Cons.prems unat_bound [of "cn_total (cs_counters (lo_counters b))"]
    by (cases e) (auto simp: lo_step_fields lo_command_total unat_sat_add)
  with Cons show ?case by (auto simp: min_def)
qed

text \<open>The demo's total is what the operator sees ejected: over any run without a reset of the
  total it grows by one for every wrap that completes, and the simulated DI3 is shown in exactly
  those frames; keys pressed in between never change it. It saturates at the largest count.\<close>

theorem demo_counts_completed_wraps:
  assumes "lo_new f = Some b0" and "Key ResetTotal \<notin> set evs"
  shows "unat (cn_total (cs_counters (lo_counters (run_end demo_step b0 evs)))) =
      min (2 ^ 64 - 1) (unat (cn_total (cs_counters (lo_counters b0))) + length (filter id (run_outs demo_step b0 evs)))
    \<and> ss_di3 (fst (lo_step (dt, t) (run_end demo_step b0 evs))) =
      fst (demo_step (run_end demo_step b0 evs) (Tick dt t))"
  using demo_total_run [OF assms(2), of b0]
  by (simp add: lo_step_snapshot) (simp add: lo_snapshot_def Let_def lo_step_fields)

theorem demo_counts_completed_wraps_witness:
  "\<exists>b0. lo_new demo_fs = Some b0 \<and>
     unat (cn_total (cs_counters (lo_counters (run_end demo_step b0 [Key Wrap])))) =
       length (filter id (run_outs demo_step b0 [Key Wrap]))"
proof -
  obtain b0 where b: "lo_new demo_fs = Some b0" "cn_total (cs_counters (lo_counters b0)) = 0"
    using demo_starts by blast
  have "unat (cn_total (cs_counters (lo_counters (run_end demo_step b0 [Key Wrap])))) =
      min (2 ^ 64 - 1) (unat (cn_total (cs_counters (lo_counters b0))) + length (filter id (run_outs demo_step b0 [Key Wrap])))"
    using demo_counts_completed_wraps [OF b(1), of "[Key Wrap]"] by simp
  then show ?thesis using b by (intro exI [of _ b0]) simp
qed

lemma newest_loop_backlog:
  "backlog recv n r = Some (vs, s) \<Longrightarrow> newest_loop recv x r = Some (last (x # vs), s)"
proof (induction n arbitrary: r x vs)
  case 0
  then show ?case by simp
next
  case (Suc n)
  then show ?case
    by (subst newest_loop.simps) (auto split: prod.splits sum.splits option.splits)
qed

text \<open>The panel shows the newest state: when the reader hands out a finite backlog, a step
  returns, shows the last snapshot of it, or the one shown before when it is empty, leaves nothing
  of it behind, and does not touch the command channel.\<close>

theorem ipc_shows_newest:
  assumes "backlog recv n (ib_state_rx b) = Some (snaps, rx)"
  shows "ipc_step recv b =
    Some (last (ib_last b # snaps), b\<lparr>ib_last := last (ib_last b # snaps), ib_state_rx := rx\<rparr>)"
  by (simp only: ipc_step_def newest_loop_backlog [OF assms] option.case prod.case)

theorem ipc_shows_newest_witness:
  "ipc_step queue_recv \<lparr>ib_state_rx = [ipc_initial, ipc_initial\<lparr>ss_mode := Fault\<rparr>], ib_cmd_tx = (), ib_last = ipc_initial\<rparr> =
    Some (ipc_initial\<lparr>ss_mode := Fault\<rparr>,
      \<lparr>ib_state_rx = [], ib_cmd_tx = (), ib_last = ipc_initial\<lparr>ss_mode := Fault\<rparr>\<rparr>)"
  using ipc_shows_newest [of queue_recv 3 "\<lparr>ib_state_rx = [ipc_initial, ipc_initial\<lparr>ss_mode := Fault\<rparr>], ib_cmd_tx = (), ib_last = ipc_initial\<rparr>"
      "[ipc_initial, ipc_initial\<lparr>ss_mode := Fault\<rparr>]" "[]"]
    queue_backlog [of "[ipc_initial, ipc_initial\<lparr>ss_mode := Fault\<rparr>]"]
  by (simp add: numeral_3_eq_3)

end
