(* ===== verification/PanelLoop.thy ===== *)
theory PanelLoop
  imports PanelProps PanelLight
begin

text \<open>
  The main loop of the panel (\<open>baler-ui/src/main.rs\<close>, \<open>run\<close>): one frame steps the back end and
  handles the keys (\<open>Panel\<close>), pushes the view only when its key has changed, and drives the LEDs.
  The toolkit's view and the LEDs are what was last handed to them.
\<close>

type_synonym view_key =
  "nav \<times> state_snapshot \<times> u8 list \<times> nat \<times> bool \<times> lang \<times> bool \<times> bool \<times> bool"

record 'b ui =
  ui_panel :: "'b panel"
  ui_snap :: state_snapshot
  ui_prev_view :: "view_key option"
  ui_shown :: view
  ui_led :: led_beacon
  ui_lit :: "leds option"

definition view_key_of :: "state_snapshot \<Rightarrow> 'b panel \<Rightarrow> view_key" where
  "view_key_of snap p =
     (pn_nav p, snap, sv_pin (pn_service p), sv_cursor (pn_service p),
      sv_ethernet_selected (pn_service p), pn_lang p, pn_wrap_held p, pn_knives_in_held p,
      pn_knives_out_held p)"

definition ui_start :: "'b backend \<Rightarrow> 'b \<Rightarrow> fs \<Rightarrow> 'b ui" where
  "ui_start be b f =
     (let p = pn_start be b f; snap = fst (be_step be b) in
      \<lparr>ui_panel = p, ui_snap = snap, ui_prev_view = None, ui_shown = push_view snap p,
       ui_led = lb_new, ui_lit = None\<rparr>)"

text \<open>One turn of the loop; \<open>t\<close> is the milliseconds since the LEDs were set up. The result says
  whether the view was pushed.\<close>

definition ui_frame :: "'b backend \<Rightarrow> 'b ui \<Rightarrow> u64 \<times> button_event list \<Rightarrow> bool \<times> 'b ui" where
  "ui_frame be u tevs =
     (let (t, evs) = tevs;
          (snap, p) = pn_frame be evs (ui_panel u);
          key = view_key_of snap p;
          push = (ui_prev_view u \<noteq> Some key);
          (lit, led) = lb_tick t snap (ui_led u)
      in (push,
          \<lparr>ui_panel = p, ui_snap = snap,
           ui_prev_view = (if push then Some key else ui_prev_view u),
           ui_shown = (if push then push_view snap p else ui_shown u),
           ui_led = led,
           ui_lit = (case lit of None \<Rightarrow> ui_lit u | Some l \<Rightarrow> Some l)\<rparr>))"

text \<open>The key holds everything the view is computed from.\<close>

lemma view_key_complete: "view_key_of s p = view_key_of s' q \<Longrightarrow> push_view s p = push_view s' q"
  by (simp add: view_key_of_def push_view_def sv_display_def Let_def)

definition ui_inv :: "'b ui \<Rightarrow> bool" where
  "ui_inv u \<longleftrightarrow> ui_shown u = push_view (ui_snap u) (ui_panel u)
     \<and> ui_prev_view u \<in> {None, Some (view_key_of (ui_snap u) (ui_panel u))}
     \<and> ui_lit u = lb_last (ui_led u)"

lemma ui_inv_start: "ui_inv (ui_start be b f)"
  by (simp add: ui_inv_def ui_start_def lb_new_def Let_def)

lemma ui_inv_frame: "ui_inv u \<Longrightarrow> ui_inv (snd (ui_frame be u tevs))"
  by (auto simp: ui_inv_def ui_frame_def lb_tick_def Let_def split_beta split: option.split
      intro: view_key_complete)

interpretation ui_loop: safe_machine "ui_frame be" ui_inv "\<lambda>_ _. True"
  by unfold_locales (simp_all add: ui_inv_frame)

text \<open>C27. Skipping redundant pushes never leaves a stale screen: from the start, over any frames with
  any back end, keys and times, what the toolkit was last given is the view of the current
  snapshot and panel, and the LEDs show the colours of the last frame.\<close>

theorem view_always_current:
  fixes be :: "'b backend"
  assumes "u = run_end (ui_frame be) (ui_start be b f) (frames @ [(t, evs)])"
  shows "ui_shown u = push_view (ui_snap u) (ui_panel u)
    \<and> ui_lit u = Some (led_colors t (ui_snap u))"
proof -
  have i: "ui_inv (run_end (ui_frame be) (ui_start be b f) frames)"
    by (rule ui_loop.run_inv) (rule ui_inv_start)
  have "ui_inv u" unfolding assms by (rule ui_loop.run_inv) (rule ui_inv_start)
  moreover have "lb_last (ui_led u) = Some (led_colors t (ui_snap u))"
    unfolding assms run_end_snoc by (simp add: ui_frame_def lb_tick_def Let_def split_beta)
  ultimately show ?thesis by (simp add: ui_inv_def)
qed

theorem view_always_current_witness:
  "let u = run_end (ui_frame (log_backend (\<lambda>n. demo_snapshot))) (ui_start (log_backend (\<lambda>n. demo_snapshot)) (0, [])
        \<lparr>files = Map.empty, verdicts = [], older = \<lambda>_. []\<rparr>) ([(0, [])] @ [(16, [Pressed F5])])
   in ui_lit u = Some (0, 1, 0, 0, 200, 0)"
proof -
  have "led_colors 16 demo_snapshot = (0, 1, 0, 0, 200, 0)"
    by (simp add: led_colors_def demo_snapshot_def)
  moreover have "ui_snap (run_end (ui_frame (log_backend (\<lambda>n. demo_snapshot))) (ui_start (log_backend (\<lambda>n. demo_snapshot)) (0, [])
        \<lparr>files = Map.empty, verdicts = [], older = \<lambda>_. []\<rparr>) ([(0, [])] @ [(16, [Pressed F5])])) = demo_snapshot"
    unfolding run_end_snoc by (simp add: ui_frame_def pn_frame_def log_backend_def Let_def split_beta)
  ultimately show ?thesis
    unfolding Let_def using view_always_current [OF refl] by metis
qed

end
