(* ===== verification/PanelDemo.thy ===== *)
theory PanelDemo
  imports PanelLoop PanelBackendProps
begin

text \<open>
  The panel on its back ends: the contract of the trait \<open>Backend\<close> that the screens rely on, what
  the loop guarantees under it, and the demo back end as an instance, which closes the panel and
  the simulated baler into one program.
\<close>

subsection \<open>The contract\<close>

text \<open>A property of the back end that its two operations keep is kept by every frame.\<close>

locale kept_backend =
  fixes be :: "'b backend"
    and ok :: "'b \<Rightarrow> bool"
  assumes step_ok: "ok b \<Longrightarrow> ok (snd (be_step be b))"
    and command_ok: "ok b \<Longrightarrow> ok (be_command be c b)"
begin

lemma event_ok: "ok (pn_backend p) \<Longrightarrow> ok (pn_backend (pn_event be ev p))"
  by (auto simp: pn_event_def pn_main_press_def pn_service_press_def pn_iotest_event_def pn_send_def
      pn_release_def Let_def intro: command_ok split: button_event.split nav.split button.split)

lemma events_ok: "ok (pn_backend p) \<Longrightarrow> ok (pn_backend (fold (pn_event be) evs p))"
  by (induction evs arbitrary: p) (simp_all add: event_ok)

lemma frame_ok: "ok (pn_backend p) \<Longrightarrow> ok (pn_backend (snd (pn_frame be evs p)))"
  by (auto simp: pn_frame_def Let_def split_beta pn_send_def intro!: command_ok events_ok step_ok)

end

text \<open>The screens also rely on the address being valid in maintenance only.\<close>

locale panel_backend = kept_backend be ok
  for be :: "'b backend" and ok :: "'b \<Rightarrow> bool" +
  assumes address_in_ethernet:
    "ok b \<Longrightarrow> ss_ip_valid (fst (be_step be b)) \<Longrightarrow> ss_mode (fst (be_step be b)) = Ethernet"
begin

definition screen_ok :: "'b ui \<Rightarrow> bool" where
  "screen_ok u \<longleftrightarrow> ok (pn_backend (ui_panel u)) \<and> ui_inv u
     \<and> (ss_ip_valid (ui_snap u) \<longrightarrow> ss_mode (ui_snap u) = Ethernet)"

lemma frame_address:
  "ok (pn_backend p) \<Longrightarrow> ss_ip_valid (fst (pn_frame be evs p)) \<Longrightarrow> ss_mode (fst (pn_frame be evs p)) = Ethernet"
  by (auto simp: pn_frame_def Let_def split_beta dest: address_in_ethernet)

lemma screen_ok_start: "ok b \<Longrightarrow> screen_ok (ui_start be b f)"
  using step_ok [of b] address_in_ethernet [of b]
  by (simp add: screen_ok_def ui_inv_start) (simp add: ui_start_def pn_start_def Let_def split_beta)

lemma screen_ok_frame: "screen_ok u \<Longrightarrow> screen_ok (snd (ui_frame be u tevs))"
  using frame_ok [of "ui_panel u" "snd tevs"] frame_address [of "ui_panel u" "snd tevs"]
  by (simp add: screen_ok_def ui_inv_frame) (simp add: ui_frame_def Let_def split_beta)

lemma screen_ok_run: "screen_ok u \<Longrightarrow> screen_ok (run_end (ui_frame be) u frames)"
  by (induction frames arbitrary: u) (simp_all add: screen_ok_frame)

end

subsection \<open>The screen follows the mode\<close>

lemma press_nav:
  "pn_nav p = NavMain \<Longrightarrow> pn_nav (pn_main_press be b p) \<noteq> NavEthernet"
  "pn_nav p = NavService \<Longrightarrow> pn_nav (pn_service_press be b p) \<noteq> NavEthernet"
  "pn_nav p = NavIoTest \<Longrightarrow> pn_nav (pn_iotest_event ev p) \<noteq> NavEthernet"
  subgoal by (cases b) (simp_all add: pn_main_press_def pn_send_def)
  subgoal by (cases b) (simp_all add: pn_service_press_def pn_send_def pn_release_def Let_def)
  subgoal by (auto simp: pn_iotest_event_def pn_release_def split: button_event.split button.split)
  done

lemma press_not_ethernet:
  assumes "pn_nav p \<noteq> NavEthernet"
  shows "pn_nav (pn_event be ev p) \<noteq> NavEthernet"
  using assms by (cases "pn_nav p"; cases ev) (simp_all add: pn_event_def press_nav)

lemma press_ethernet: "pn_nav p = NavEthernet \<Longrightarrow> pn_nav (pn_event be ev p) = NavEthernet"
  by (cases ev) (simp_all add: pn_event_def pn_send_def Let_def)

lemma press_ethernet_iff: "pn_nav (pn_event be ev p) = NavEthernet \<longleftrightarrow> pn_nav p = NavEthernet"
  using press_ethernet press_not_ethernet by blast

lemma events_ethernet: "pn_nav (fold (pn_event be) evs p) = NavEthernet \<longleftrightarrow> pn_nav p = NavEthernet"
  by (induction evs arbitrary: p) (simp_all add: press_ethernet_iff)

lemma next_nav_ethernet: "next_nav n m = NavEthernet \<longleftrightarrow> m = Ethernet"
  by (cases m; cases n) (simp_all add: next_nav_def)

lemma frame_ethernet:
  "pn_nav (snd (pn_frame be evs p)) = NavEthernet \<longleftrightarrow> ss_mode (fst (pn_frame be evs p)) = Ethernet"
proof -
  let ?p = "p\<lparr>pn_backend := snd (be_step be (pn_backend p)),
      pn_nav := next_nav (pn_nav p) (ss_mode (fst (be_step be (pn_backend p))))\<rparr>"
  have "pn_nav (snd (pn_frame be evs p)) = pn_nav (fold (pn_event be) evs ?p)"
    by (simp add: pn_frame_def Let_def split_beta pn_send_def)
  moreover have "fst (pn_frame be evs p) = fst (be_step be (pn_backend p))"
    by (simp add: pn_frame_def Let_def split_beta)
  ultimately show ?thesis by (simp add: events_ethernet next_nav_ethernet)
qed

lemma ip_text_dash: "ss_ip_valid s \<or> ip_text s = [0x2014]"
  by (simp add: ip_text_def)

subsection \<open>The demo\<close>

text \<open>The demo back end over a stream of clock readings.\<close>

definition local_be :: "(nat \<Rightarrow> duration \<times> u64) \<Rightarrow> (nat \<times> local_backend) backend" where
  "local_be clock =
     \<lparr>be_step = (\<lambda>(n, b). let (s, b') = lo_step (clock n) b in (s, Suc n, b')),
      be_command = (\<lambda>c (n, b). (n, lo_command c b))\<rparr>"

definition local_ok :: "nat \<times> local_backend \<Rightarrow> bool" where
  "local_ok nb = demo_inv (snd nb)"

interpretation local_panel: panel_backend "local_be clock" local_ok
proof unfold_locales
  fix b :: "nat \<times> local_backend" and c
  assume b: "local_ok b"
  obtain dt t where ck: "clock (fst b) = (dt, t)" by (metis prod.exhaust)
  have i: "demo_inv (snd (lo_step (dt, t) (snd b)))"
    using demo_inv_step [of "snd b" "Tick dt t"] b by (simp add: local_ok_def)
  then show "local_ok (snd (be_step (local_be clock) b))"
    by (simp add: local_be_def local_ok_def split_beta ck Let_def)
  show "local_ok (be_command (local_be clock) c b)"
    using demo_inv_step [of "snd b" "Key c"] b by (simp add: local_be_def local_ok_def split_beta)
  assume "ss_ip_valid (fst (be_step (local_be clock) b))"
  then show "ss_mode (fst (be_step (local_be clock) b)) = Ethernet"
    using i by (auto simp: local_be_def split_beta ck lo_step_snapshot Let_def demo_inv_def)
      (auto simp: lo_snapshot_def Let_def)
qed

text \<open>The demo program as a whole, panel and simulated baler: after every frame, whatever was
  pressed before, the toolkit's screen is the Ethernet screen exactly when the machine is in
  maintenance mode, and an address is on the display only on that screen.\<close>

theorem demo_address_only_in_maintenance:
  assumes "lo_new g = Some b0"
    and "u = run_end (ui_frame (local_be clock)) (ui_start (local_be clock) (0, b0) f) (frames @ [(t, evs)])"
  shows "(vw_screen (ui_shown u) = NavEthernet) = (ss_mode (ui_snap u) = Ethernet)
    \<and> (vw_ip_text (ui_shown u) = [0x2014] \<or> vw_screen (ui_shown u) = NavEthernet)"
proof -
  have "local_ok (0, b0)" using demo_inv_new [OF assms(1)] by (simp add: local_ok_def)
  from local_panel.screen_ok_run [OF local_panel.screen_ok_start [OF this]]
  have ok: "local_panel.screen_ok u" unfolding assms(2) .
  have nav: "pn_nav (ui_panel u) = NavEthernet \<longleftrightarrow> ss_mode (ui_snap u) = Ethernet"
    unfolding assms(2) run_end_snoc by (simp add: ui_frame_def Let_def split_beta frame_ethernet)
  show ?thesis
    using ok nav ip_text_dash [of "ui_snap u"]
    by (auto simp: local_panel.screen_ok_def ui_inv_def push_view_def Let_def)
qed

theorem demo_address_only_in_maintenance_witness:
  "\<exists>b0. lo_new demo_fs = Some b0 \<and>
     (let u = run_end (ui_frame (local_be (\<lambda>n. (from_millis 16, 0)))) (ui_start (local_be (\<lambda>n. (from_millis 16, 0))) (0, b0) demo_fs)
         ([] @ [(0, [])])
      in (vw_screen (ui_shown u) = NavEthernet) = (ss_mode (ui_snap u) = Ethernet))"
  unfolding Let_def using demo_starts demo_address_only_in_maintenance [OF _ refl] by metis

end
