(* ===== verification/System.thy ===== *)
theory System
  imports PanelDemo ControlPulse "HOL-Library.Sublist"
begin

text \<open>
  The two processes together: the panel on its daemon-coupled back end and the daemon's control
  cycle, joined by the two channels. The channels are queues that may lose entries; the panel
  and the daemon run at their own pace, so the system is a step relation with three kinds of
  steps: a frame of the panel, a cycle of the daemon, a loss.
\<close>

subsection \<open>The composition\<close>

definition queue_send :: "('a list, 'a) send" where
  "queue_send v q = (Inr (), q @ [v])"

type_synonym queues = "(state_snapshot list, command list) ipc_backend"

text \<open>\<open>IpcBackend\<close> over the queues; its step always returns there.\<close>

definition ipc_be :: "queues backend" where
  "ipc_be = \<lparr>be_step = (\<lambda>b. the (ipc_step queue_recv b)), be_command = ipc_command queue_send\<rparr>"

lemma ipc_step_queue:
  "ipc_step queue_recv b =
    Some (last (ib_last b # ib_state_rx b), b\<lparr>ib_last := last (ib_last b # ib_state_rx b), ib_state_rx := []\<rparr>)"
  by (simp add: ipc_step_def newest_loop_backlog [OF queue_backlog] del: last.simps)

lemma ipc_be_simps [simp]:
  "be_step ipc_be b =
    (last (ib_last b # ib_state_rx b), b\<lparr>ib_last := last (ib_last b # ib_state_rx b), ib_state_rx := []\<rparr>)"
  "be_command ipc_be c b = b\<lparr>ib_cmd_tx := ib_cmd_tx b @ [c]\<rparr>"
  by (simp_all add: ipc_be_def ipc_step_queue ipc_command_def queue_send_def del: last.simps)

record ('n, 'b) system =
  sy_panel :: "queues panel"
  sy_control :: control
  sy_world :: "('n, 'b) world"

definition sy_start :: "control \<Rightarrow> ('n, 'b) world \<Rightarrow> fs \<Rightarrow> ('n, 'b) system" where
  "sy_start c w f =
     \<lparr>sy_panel = pn_start ipc_be \<lparr>ib_state_rx = [], ib_cmd_tx = [], ib_last = ipc_initial\<rparr> f,
      sy_control = c, sy_world = w\<rparr>"

text \<open>One daemon cycle on the queues: drain, step, publish.\<close>

definition sy_cycle ::
  "'n net_port \<Rightarrow> 'b bus_port \<Rightarrow> inputs \<Rightarrow> ('n, 'b) system \<Rightarrow> (outputs \<times> ('n, 'b) system) option" where
  "sy_cycle net bus i s =
     (let b = pn_backend (sy_panel s) in
      case link_drain queue_recv (ib_cmd_tx b) of
        None \<Rightarrow> None
      | Some (cmds, rest) \<Rightarrow>
          let ((outs, snap), c, w) = ctl_step net bus (sy_control s, sy_world s) (i, cmds)
          in Some (outs,
               s\<lparr>sy_panel := (sy_panel s)\<lparr>pn_backend := b\<lparr>ib_cmd_tx := rest,
                     ib_state_rx := link_publish queue_send snap (ib_state_rx b)\<rparr>\<rparr>,
                 sy_control := c, sy_world := w\<rparr>))"

datatype sys_event = Frame "button_event list" | Cycle inputs outputs | Loss

inductive sys_step :: "'n net_port \<Rightarrow> 'b bus_port \<Rightarrow> ('n, 'b) system \<Rightarrow> sys_event \<Rightarrow> ('n, 'b) system \<Rightarrow> bool"
  for net bus where
  frame: "sys_step net bus s (Frame evs) (s\<lparr>sy_panel := snd (pn_frame ipc_be evs (sy_panel s))\<rparr>)"
| cycle: "sy_cycle net bus i s = Some (outs, s') \<Longrightarrow> sys_step net bus s (Cycle i outs) s'"
| loss: "subseq cmds (ib_cmd_tx (pn_backend (sy_panel s))) \<Longrightarrow>
    subseq snaps (ib_state_rx (pn_backend (sy_panel s))) \<Longrightarrow>
    sys_step net bus s Loss
      (s\<lparr>sy_panel := (sy_panel s)\<lparr>pn_backend := (pn_backend (sy_panel s))\<lparr>ib_cmd_tx := cmds, ib_state_rx := snaps\<rparr>\<rparr>\<rparr>)"

inductive_cases sys_step_frameE: "sys_step net bus s (Frame evs) s'"
inductive_cases sys_step_cycleE: "sys_step net bus s (Cycle i outs) s'"
inductive_cases sys_step_lossE: "sys_step net bus s Loss s'"

inductive sys_run :: "'n net_port \<Rightarrow> 'b bus_port \<Rightarrow> ('n, 'b) system \<Rightarrow> sys_event list \<Rightarrow> ('n, 'b) system \<Rightarrow> bool"
  for net bus where
  run_nil: "sys_run net bus s [] s"
| run_cons: "sys_step net bus s e s' \<Longrightarrow> sys_run net bus s' es s'' \<Longrightarrow> sys_run net bus s (e # es) s''"

inductive_simps sys_run_simps: "sys_run net bus s [] s'" "sys_run net bus s (e # es) s'"

lemma queue_drain: "link_drain queue_recv q = Some (q, [])"
  by (rule drain_returns_backlog [OF queue_backlog])

lemma sy_cycle_eq:
  "sy_cycle net bus i s =
    (let b = pn_backend (sy_panel s);
         r = ctl_step net bus (sy_control s, sy_world s) (i, ib_cmd_tx b)
     in Some (fst (fst r),
          s\<lparr>sy_panel := (sy_panel s)\<lparr>pn_backend := b\<lparr>ib_cmd_tx := [], ib_state_rx := ib_state_rx b @ [snd (fst r)]\<rparr>\<rparr>,
            sy_control := fst (snd r), sy_world := snd (snd r)\<rparr>))"
  by (simp add: sy_cycle_def queue_drain link_publish_def queue_send_def Let_def split_beta)

subsection \<open>No motion without the operator\<close>

definition no_motion_key :: "button \<Rightarrow> bool" where
  "no_motion_key b \<longleftrightarrow> b \<noteq> F1 \<and> b \<noteq> F2"

text \<open>The queue of commands holds none that moves the machine.\<close>

definition still :: "queues \<Rightarrow> bool" where
  "still b \<longleftrightarrow> (\<forall>c\<in>set (ib_cmd_tx b). \<not> motion c)"

interpretation still_be: watched_backend ipc_be still motion no_motion_key
  by unfold_locales (auto simp: still_def motion_def gated_def no_motion_key_def simp del: last.simps)

definition sys_quiet :: "nat \<Rightarrow> ('n, 'b) system \<Rightarrow> bool" where
  "sys_quiet n s \<longleftrightarrow> still_be.locked n (sy_panel s) \<and> quiet (sy_control s)"

text \<open>The presses of the digit keys in an event, and an event without the keys under F1 and F2.\<close>

definition spins :: "sys_event \<Rightarrow> nat" where
  "spins e = (case e of Frame evs \<Rightarrow> length (filter is_spin evs) | _ \<Rightarrow> 0)"

definition hands_off :: "sys_event \<Rightarrow> bool" where
  "hands_off e \<longleftrightarrow> (case e of Frame evs \<Rightarrow> Pressed F6 \<notin> set evs \<and> Pressed F4 \<notin> set evs | _ \<Rightarrow> True)"

definition motionless :: "sys_event \<Rightarrow> bool" where
  "motionless e \<longleftrightarrow> (case e of
     Cycle i outs \<Rightarrow> outs = \<lparr>out_wrap = False, out_knives_in = False, out_knives_out = False\<rparr> | _ \<Rightarrow> True)"

lemma hands_off_permitted: "hands_off (Frame evs) \<longleftrightarrow> list_all still_be.permitted evs"
proof -
  have "no_motion_key (remap_fkey raw) \<longleftrightarrow> raw \<noteq> F6 \<and> raw \<noteq> F4" for raw
    by (cases raw) (simp_all add: no_motion_key_def remap_fkey_def)
  then show ?thesis
    by (auto simp: hands_off_def list_all_iff still_be.permitted_def split: button_event.split)
qed

lemma sys_quiet_step:
  assumes "sys_step net bus s e s'" "sys_quiet n s" "hands_off e" "n + spins e < 10"
  shows "sys_quiet (n + spins e) s' \<and> motionless e"
  using assms
proof (induction rule: sys_step.induct)
  case (frame s evs)
  then show ?case
    using still_be.locked_frame [of n "sy_panel s" evs]
    by (simp add: sys_quiet_def hands_off_permitted spins_def motionless_def)
next
  case (cycle i s outs s')
  have cmds: "\<forall>c\<in>set (ib_cmd_tx (pn_backend (sy_panel s))). \<not> motion c" and q: "quiet (sy_control s)"
    using cycle(2) by (simp_all add: sys_quiet_def still_be.locked_def still_def)
  show ?case
    using cycle(1,2) quiet_step [of "(sy_control s, sy_world s)" "(i, ib_cmd_tx (pn_backend (sy_panel s)))" net bus] cmds q
    by (auto simp: sy_cycle_eq Let_def sys_quiet_def still_be.locked_def still_def spins_def motionless_def)
next
  case (loss cmds s snaps)
  then show ?case
    by (auto simp: sys_quiet_def still_be.locked_def still_def spins_def motionless_def dest: list_emb_set)
qed

lemma sys_quiet_run:
  "sys_run net bus s es s' \<Longrightarrow> sys_quiet n s \<Longrightarrow> list_all hands_off es \<Longrightarrow>
     n + sum_list (map spins es) < 10 \<Longrightarrow> list_all motionless es"
proof (induction arbitrary: n rule: sys_run.induct)
  case (run_nil s)
  then show ?case by simp
next
  case (run_cons s e s' es s'')
  have "sys_quiet (n + spins e) s' \<and> motionless e"
    by (rule sys_quiet_step [OF run_cons(1)]) (use run_cons.prems in simp_all)
  then show ?case using run_cons.IH [of "n + spins e"] run_cons.prems by simp
qed

lemma sys_quiet_start: "sys_quiet 0 (sy_start (ctl_init counters) w f)"
  using still_be.locked_start [of "\<lparr>ib_state_rx = [], ib_cmd_tx = [], ib_last = ipc_initial\<rparr>" f]
  by (simp add: sys_quiet_def sy_start_def quiet_init still_def)

text \<open>C5. Nothing moves without the operator: in the system of panel, channels and daemon, started
  together, whatever the inputs, the pace of the two processes, the losses of the channels, the
  network and the bus, every output of every cycle is low as long as neither of the keys under
  F1 and F2 (wrap and knife) has been pressed and the digit keys fewer than ten times.\<close>

theorem no_motion_without_operator:
  assumes "sys_run net bus (sy_start (ctl_init counters) w f) es s"
    and "list_all hands_off es" "sum_list (map spins es) < 10"
  shows "list_all motionless es"
  using sys_quiet_run [OF assms(1) sys_quiet_start assms(2)] assms(3) by simp

lemma sys_run_frame_cycle:
  "\<exists>s outs. sys_run net bus s0 [Frame evs, Cycle i outs] s"
proof -
  let ?s = "s0\<lparr>sy_panel := snd (pn_frame ipc_be evs (sy_panel s0))\<rparr>"
  obtain outs s where "sy_cycle net bus i ?s = Some (outs, s)" by (simp add: sy_cycle_eq Let_def)
  then have "sys_step net bus ?s (Cycle i outs) s" by (rule sys_step.cycle)
  moreover have "sys_step net bus s0 (Frame evs) ?s" by (rule sys_step.frame)
  ultimately show ?thesis by (meson run_nil run_cons)
qed

theorem no_motion_without_operator_witness:
  "\<exists>s outs. sys_run sim_network noop_bus (sy_start (ctl_init demo_store) demo_world empty_fs)
      [Frame [Pressed KeyUp, Pressed F5], Cycle demo_inputs outs] s \<and> \<not> out_wrap outs"
proof -
  obtain s outs where r: "sys_run sim_network noop_bus (sy_start (ctl_init demo_store) demo_world empty_fs)
      [Frame [Pressed KeyUp, Pressed F5], Cycle demo_inputs outs] s"
    using sys_run_frame_cycle by blast
  have "list_all motionless [Frame [Pressed KeyUp, Pressed F5], Cycle demo_inputs outs]"
    by (rule no_motion_without_operator [OF r]) (simp_all add: hands_off_def spins_def is_spin_def)
  then have "\<not> out_wrap outs" by (simp add: motionless_def)
  with r show ?thesis by blast
qed

subsection \<open>From the key to the output\<close>

definition ungated :: "queues \<Rightarrow> bool" where
  "ungated b \<longleftrightarrow> (\<forall>c\<in>set (ib_cmd_tx b). \<not> gated c)"

interpretation ungated_be: watched_backend ipc_be ungated gated "\<lambda>_. True"
  by unfold_locales (auto simp: ungated_def simp del: last.simps)

lemma manual_gated: "is_manual_io c \<Longrightarrow> gated c"
  by (simp add: gated_def)

lemma ungated_permitted: "list_all ungated_be.permitted evs"
  by (simp add: list_all_iff ungated_be.permitted_def split: button_event.split)

text \<open>The inputs and the outputs of the cycles among the events.\<close>

fun cycles :: "sys_event list \<Rightarrow> (inputs \<times> outputs) list" where
  "cycles [] = []"
| "cycles (Cycle i outs # es) = (i, outs) # cycles es"
| "cycles (e # es) = cycles es"

text \<open>The daemon's part of a run of the system is a run of its control cycle, on some commands,
  none of them one that is behind the PIN while the PIN has been out of reach.\<close>

definition daemon_runs ::
  "'n net_port \<Rightarrow> 'b bus_port \<Rightarrow> ('n, 'b) system \<Rightarrow> (inputs \<times> outputs) list
   \<Rightarrow> (inputs \<times> command list) list \<Rightarrow> ('n, 'b) system \<Rightarrow> bool" where
  "daemon_runs net bus s ios xs s' \<longleftrightarrow>
     map fst xs = map fst ios
     \<and> map snd ios = map fst (run_outs (ctl_step net bus) (sy_control s, sy_world s) xs)
     \<and> (sy_control s', sy_world s') = run_end (ctl_step net bus) (sy_control s, sy_world s) xs
     \<and> (\<forall>x\<in>set xs. \<forall>c\<in>set (snd x). \<not> gated c)"

lemma sys_step_daemon:
  assumes "sys_step net bus s e s'" "ungated_be.locked n (sy_panel s)" "n + spins e < 10"
  shows "ungated_be.locked (n + spins e) (sy_panel s')
    \<and> (\<exists>xs. daemon_runs net bus s (cycles [e]) xs s')"
  using assms
proof (induction rule: sys_step.induct)
  case (frame s evs)
  then show ?case
    using ungated_be.locked_frame [of n "sy_panel s" evs] ungated_permitted
    by (auto simp: spins_def daemon_runs_def)
next
  case (cycle i s outs s')
  have u: "\<forall>c\<in>set (ib_cmd_tx (pn_backend (sy_panel s))). \<not> gated c"
    using cycle(2) unfolding ungated_be.locked_def by (simp add: ungated_def)
  have "daemon_runs net bus s (cycles [Cycle i outs]) [(i, ib_cmd_tx (pn_backend (sy_panel s)))] s'"
    using cycle(1) u by (auto simp: daemon_runs_def sy_cycle_eq Let_def)
  moreover have "ungated_be.locked n (sy_panel s')"
    using cycle(1,2) unfolding ungated_be.locked_def by (auto simp: sy_cycle_eq Let_def ungated_def)
  ultimately show ?case by (auto simp: spins_def)
next
  case (loss cmds s snaps)
  then show ?case
    unfolding ungated_be.locked_def by (auto simp: ungated_def spins_def daemon_runs_def dest: list_emb_set)
qed

lemma daemon_runs_append:
  "daemon_runs net bus s as xs s' \<Longrightarrow> daemon_runs net bus s' bs ys s'' \<Longrightarrow>
    daemon_runs net bus s (as @ bs) (xs @ ys) s''"
  by (auto simp: daemon_runs_def run_end_append run_outs_append)

lemma cycles_Cons: "cycles (e # es) = cycles [e] @ cycles es"
  by (cases e) simp_all

lemma sys_run_daemon:
  "sys_run net bus s es s' \<Longrightarrow> ungated_be.locked n (sy_panel s) \<Longrightarrow> n + sum_list (map spins es) < 10 \<Longrightarrow>
    ungated_be.locked (n + sum_list (map spins es)) (sy_panel s')
    \<and> (\<exists>xs. daemon_runs net bus s (cycles es) xs s')"
proof (induction arbitrary: n rule: sys_run.induct)
  case (run_nil s)
  then show ?case by (auto simp: daemon_runs_def)
next
  case (run_cons s e s' es s'')
  obtain xs where one: "ungated_be.locked (n + spins e) (sy_panel s')" "daemon_runs net bus s (cycles [e]) xs s'"
    using sys_step_daemon [OF run_cons(1,4)] run_cons(5) by auto
  then obtain ys where rest: "ungated_be.locked (n + spins e + sum_list (map spins es)) (sy_panel s'')"
      "daemon_runs net bus s' (cycles es) ys s''"
    using run_cons.IH [OF one(1)] run_cons(5) by auto
  then show ?case
    using daemon_runs_append [OF one(2) rest(2)] cycles_Cons [of e es] by (auto simp: add.assoc)
qed

lemma ungated_remaining: "\<forall>c\<in>set cmds. \<not> gated c \<Longrightarrow> ctl_remaining cmds 0 = 0"
  using manual_gated by (auto simp: ctl_remaining_def)

lemma run_end_remaining:
  "ct_manual_io_remaining (fst cw) = 0 \<Longrightarrow> \<forall>x\<in>set xs. \<forall>c\<in>set (snd x). \<not> gated c \<Longrightarrow>
     ct_manual_io_remaining (fst (run_end (ctl_step net bus) cw xs)) = 0"
  by (induction xs arbitrary: cw) (simp_all add: ctl_step_fields(1) ungated_remaining)

lemma start_locked: "ungated_be.locked 0 (sy_panel (sy_start c w f))"
  using ungated_be.locked_start [of "\<lparr>ib_state_rx = [], ib_cmd_tx = [], ib_last = ipc_initial\<rparr>" f]
  by (simp add: sy_start_def ungated_def)

text \<open>Every state of the system whose IO page has stayed out of reach: the panel is still locked
  and the daemon is in its invariant, out of manual-IO.\<close>

lemma sys_reachable:
  assumes "sys_run net bus (sy_start (ctl_init counters) w f) es s" "sum_list (map spins es) < 10"
  shows "ungated_be.locked (sum_list (map spins es)) (sy_panel s)" "ctl_inv (sy_control s)"
    "ct_manual_io_remaining (sy_control s) = 0"
proof -
  obtain xs where l: "ungated_be.locked (sum_list (map spins es)) (sy_panel s)"
      and d: "daemon_runs net bus (sy_start (ctl_init counters) w f) (cycles es) xs s"
    using sys_run_daemon [OF assms(1) start_locked] assms(2) by auto
  have c: "sy_control s = fst (run_end (ctl_step net bus) (ctl_init counters, w) xs)"
    using d by (simp add: daemon_runs_def sy_start_def) (metis fst_conv)
  show "ungated_be.locked (sum_list (map spins es)) (sy_panel s)" by (rule l)
  show "ctl_inv (sy_control s)"
    unfolding c by (rule ctl.run_inv) (simp add: ctl_inv_init)
  show "ct_manual_io_remaining (sy_control s) = 0"
    unfolding c by (rule run_end_remaining) (use d in \<open>simp_all add: daemon_runs_def ctl_init_def\<close>)
qed

text \<open>The press of the key under F1 on the main screen queues the wrap command.\<close>

lemma wrap_key_frame:
  assumes "pn_nav p = NavMain" "ib_cmd_tx (pn_backend p) = []"
    and "ss_mode (fst (be_step ipc_be (pn_backend p))) \<in> {Initializing, Operational}"
  shows "ib_cmd_tx (pn_backend (snd (pn_frame ipc_be [Pressed F6] p))) = [Wrap]"
proof -
  have "next_nav NavMain (ss_mode (last (ib_last (pn_backend p) # ib_state_rx (pn_backend p)))) = NavMain"
    using assms(3) by (auto simp: next_nav_def simp del: last.simps)
  then show ?thesis
    using assms(1,2)
    by (simp add: pn_frame_def Let_def pn_event_def remap_fkey_def pn_main_press_def pn_send_def del: last.simps)
qed

text \<open>C6. The key works, end to end: on the main screen, with the machine out of maintenance mode, no
  wrap running and no command pending, a press of the key under F1 drives the wrap output of the
  daemon high in the next cycle and for 499 cycles in all, whatever else happens on the panel and
  in the channels meanwhile, as long as the bus is healthy and the IO page out of reach.\<close>

theorem wrap_key_drives_wrapper:
  assumes "sys_run net bus (sy_start (ctl_init counters) w f) history s0"
    and "sys_run net bus s0 (Frame [Pressed F6] # Cycle i outs # rest) s"
    and "sum_list (map spins history) + sum_list (map spins rest) < 10"
    and "pn_nav (sy_panel s0) = NavMain" "ib_cmd_tx (pn_backend (sy_panel s0)) = []"
    and "ss_mode (fst (be_step ipc_be (pn_backend (sy_panel s0)))) \<in> {Initializing, Operational}"
    and "bs_mode (ct_state (sy_control s0)) \<noteq> Ethernet" "\<not> pe_active (ct_wrap (sy_control s0))"
    and "in_healthy i" "length (cycles rest) = 499" "\<forall>io\<in>set (cycles rest). in_healthy (fst io)"
  shows "map (\<lambda>io. out_wrap (snd io)) (cycles (Cycle i outs # rest)) = replicate 499 True @ [False]"
proof -
  have n: "sum_list (map spins history) < 10" using assms(3) by simp
  note r = sys_reachable [OF assms(1) n]
  let ?p1 = "snd (pn_frame ipc_be [Pressed F6] (sy_panel s0))"
  let ?s1 = "s0\<lparr>sy_panel := ?p1\<rparr>"
  obtain s2 where cyc: "sy_cycle net bus i ?s1 = Some (outs, s2)" and rest: "sys_run net bus s2 rest s"
    using assms(2) by (auto simp: sys_run_simps elim!: sys_step_frameE sys_step_cycleE)
  have q: "ib_cmd_tx (pn_backend ?p1) = [Wrap]" by (rule wrap_key_frame [OF assms(4-6)])
  have f: "sys_step net bus s0 (Frame [Pressed F6]) ?s1" by (rule sys_step.frame)
  have l1: "ungated_be.locked (sum_list (map spins history)) (sy_panel ?s1)"
    using sys_step_daemon [OF f r(1)] n by (simp add: spins_def is_spin_def)
  have l2: "ungated_be.locked (sum_list (map spins history)) (sy_panel s2)"
    using sys_step_daemon [OF sys_step.cycle [OF cyc] l1] n by (simp add: spins_def)
  obtain ys where ys: "daemon_runs net bus s2 (cycles rest) ys s"
    using sys_run_daemon [OF rest l2] assms(3) by auto
  have first: "outs = fst (fst (ctl_step net bus (sy_control s0, sy_world s0) (i, [Wrap])))"
      "(sy_control s2, sy_world s2) = snd (ctl_step net bus (sy_control s0, sy_world s0) (i, [Wrap]))"
    using cyc by (auto simp: sy_cycle_eq Let_def q)
  have "length ys = 499" "\<forall>x\<in>set ys. plain_cycle x"
  proof -
    have m: "map fst ys = map fst (cycles rest)" using ys by (simp add: daemon_runs_def)
    then show "length ys = 499" using assms(10) by (metis length_map)
    have "fst ` set ys = fst ` set (cycles rest)" using m by (metis image_set)
    then show "\<forall>x\<in>set ys. plain_cycle x"
      using ys assms(11) unfolding plain_cycle_def daemon_runs_def by (metis (no_types) imageE imageI manual_gated)
  qed
  then have "map (\<lambda>os. out_wrap (fst os))
      (run_outs (ctl_step net bus) (sy_control s0, sy_world s0) ((i, [Wrap]) # ys)) = replicate 499 True @ [False]"
    by (intro wrap_pulse_run) (use r(2,3) assms(7-9) in simp_all)
  moreover have "map out_wrap (map snd (cycles rest)) =
      map out_wrap (map fst (run_outs (ctl_step net bus) (sy_control s2, sy_world s2) ys))"
    using ys by (simp add: daemon_runs_def)
  ultimately show ?thesis using first by (simp add: comp_def)
qed

lemma sys_run_cycles: "\<exists>es s. sys_run net bus s0 es s \<and> map fst (cycles es) = ins \<and> sum_list (map spins es) = 0"
proof (induction ins arbitrary: s0)
  case Nil
  show ?case by (intro exI [of _ "[]"] exI [of _ s0]) (simp add: run_nil)
next
  case (Cons i ins)
  obtain outs s1 where "sy_cycle net bus i s0 = Some (outs, s1)" by (simp add: sy_cycle_eq Let_def)
  then have st: "sys_step net bus s0 (Cycle i outs) s1" by (rule sys_step.cycle)
  obtain es s where "sys_run net bus s1 es s" "map fst (cycles es) = ins" "sum_list (map spins es) = 0"
    using Cons by blast
  then show ?case
    by (intro exI [of _ "Cycle i outs # es"] exI [of _ s]) (simp add: run_cons [OF st] spins_def)
qed

text \<open>The first wrap of a fresh machine.\<close>

lemma first_wrap:
  defines "r \<equiv> snd (ctl_step sim_network noop_bus (ctl_init demo_store, demo_world) (demo_inputs, [Wrap]))"
  shows "pe_active (ct_wrap (fst r))" "bs_mode (ct_state (fst r)) = Operational"
    "ct_manual_io_remaining (fst r) = 0"
proof -
  let ?cw = "(ctl_init demo_store, demo_world)"
  have m: "ctl_remaining (snd (demo_inputs, [Wrap])) (ct_manual_io_remaining (fst ?cw)) = 0"
    by (simp add: ctl_init_def ctl_remaining_def)
  have "map (\<lambda>os. out_wrap (fst os)) (run_outs (ctl_step sim_network noop_bus) ?cw
      ((demo_inputs, [Wrap]) # replicate 499 (demo_inputs, []))) = replicate 499 True @ [False]"
    by (rule wrap_pulse_run) (simp_all add: ctl_inv_init, simp_all add: ctl_init_def bs_new_def demo_inputs_def plain_cycle_def)
  then have "hd (map (\<lambda>os. out_wrap (fst os)) (run_outs (ctl_step sim_network noop_bus) ?cw
      ((demo_inputs, [Wrap]) # replicate 499 (demo_inputs, []))))" by simp
  then have "out_wrap (fst (fst (ctl_step sim_network noop_bus ?cw (demo_inputs, [Wrap]))))"
    unfolding run_outs_Cons list.map list.sel .
  then show "pe_active (ct_wrap (fst r))" unfolding r_def ctl_step_normal(4) [OF m] .
  show "ct_manual_io_remaining (fst r) = 0" unfolding r_def ctl_step_fields(1) by (rule m)
  show "bs_mode (ct_state (fst r)) = Operational"
    unfolding r_def ctl_step_fields(8)
    by (simp add: ctl_body_def ctl_commands_single require_operational_def on_bus_health_mode ctl_action_def
        split_beta ctl_init_def bs_new_def demo_inputs_def)
qed

text \<open>From the start, with the gate closed and the bus healthy: the run exists, every condition holds
  of it, and the output follows.\<close>

theorem wrap_key_drives_wrapper_witness:
  "let s0 = sy_start (ctl_init demo_store) demo_world empty_fs in
   \<exists>outs rest s. sys_run sim_network noop_bus s0 (Frame [Pressed F6] # Cycle demo_inputs outs # rest) s
     \<and> sum_list (map spins rest) = 0
     \<and> pn_nav (sy_panel s0) = NavMain \<and> ib_cmd_tx (pn_backend (sy_panel s0)) = []
     \<and> ss_mode (fst (be_step ipc_be (pn_backend (sy_panel s0)))) \<in> {Initializing, Operational}
     \<and> bs_mode (ct_state (sy_control s0)) \<noteq> Ethernet \<and> \<not> pe_active (ct_wrap (sy_control s0))
     \<and> in_healthy demo_inputs \<and> map fst (cycles rest) = replicate 499 demo_inputs
     \<and> map (\<lambda>io. out_wrap (snd io)) (cycles (Cycle demo_inputs outs # rest)) = replicate 499 True @ [False]"
proof -
  let ?s0 = "sy_start (ctl_init demo_store) demo_world empty_fs"
  have start: "pn_nav (sy_panel ?s0) = NavMain" "ib_cmd_tx (pn_backend (sy_panel ?s0)) = []"
      "ss_mode (fst (be_step ipc_be (pn_backend (sy_panel ?s0)))) \<in> {Initializing, Operational}"
      "bs_mode (ct_state (sy_control ?s0)) \<noteq> Ethernet" "\<not> pe_active (ct_wrap (sy_control ?s0))"
    by (simp_all add: sy_start_def pn_start_def split_beta ipc_initial_def ctl_init_def bs_new_def)
  obtain s1 outs where two: "sys_run sim_network noop_bus ?s0 [Frame [Pressed F6], Cycle demo_inputs outs] s1"
    using sys_run_frame_cycle by blast
  obtain rest s where rest: "sys_run sim_network noop_bus s1 rest s"
      "map fst (cycles rest) = replicate 499 demo_inputs" "sum_list (map spins rest) = 0"
    using sys_run_cycles by blast
  have all: "sys_run sim_network noop_bus ?s0 (Frame [Pressed F6] # Cycle demo_inputs outs # rest) s"
    using two rest(1) by (auto simp: sys_run_simps)
  have "length (cycles rest) = 499" using rest(2) by (metis length_map length_replicate)
  moreover have "\<forall>io\<in>set (cycles rest). in_healthy (fst io)"
  proof -
    have "fst ` set (cycles rest) \<subseteq> {demo_inputs}"
      using rest(2) by (metis image_set set_replicate_conv_if empty_subsetI subset_refl)
    then show ?thesis by (auto simp: demo_inputs_def)
  qed
  ultimately have "map (\<lambda>io. out_wrap (snd io)) (cycles (Cycle demo_inputs outs # rest)) = replicate 499 True @ [False]"
    by (intro wrap_key_drives_wrapper [OF run_nil all _ start]) (simp_all add: rest(3) demo_inputs_def)
  moreover have "in_healthy demo_inputs" by (simp add: demo_inputs_def)
  ultimately show ?thesis unfolding Let_def using all rest(2,3) start by blast
qed

end
