(* ===== verification/DaemonBoot.thy ===== *)
theory DaemonBoot
  imports Carrier DaemonProps
begin

text \<open>
  The device build of the daemon from its start to its exit (\<open>main\<close>, \<open>build_net_wd\<close> and
  \<open>run_ethercat\<close> of \<open>baler-daemon/src/main.rs\<close>, \<open>register\<close> of \<open>ethercat_io.rs\<close>): the order in
  which the ports are opened, what each failure does, and the result of the process. The
  executor, the EtherCAT connector and the opening of the link are library calls on an
  operating-system state \<open>'o\<close>; their errors come as the \<open>?\<close> operator has converted them.
\<close>

subsection \<open>Registering the connector\<close>

definition SUBDEV :: u16 where "SUBDEV = 0x1000"
definition EXPECTED_WKC :: u16 where "EXPECTED_WKC = 3"
definition SM_WATCHDOG_US :: u32 where "SM_WATCHDOG_US = 50000"
definition CYCLE_TIME :: duration where "CYCLE_TIME = from_millis 2"
definition DI_BIT_OFFSET :: u32 where "DI_BIT_OFFSET = 32"
definition DO_BIT_OFFSET :: u32 where "DO_BIT_OFFSET = 32"
definition DI_BITS :: u16 where "DI_BITS = 8"
definition DO_BITS :: u16 where "DO_BITS = 8"
definition IN_CHANNEL :: string where "IN_CHANNEL = ''ethercat.wago.750-430.inputs''"
definition OUT_CHANNEL :: string where "OUT_CHANNEL = ''ethercat.wago.750-530.outputs''"

text \<open>\<open>EtherCatIoError\<close> with its \<open>Display\<close>; \<open>'xe\<close> is the error of the executor.\<close>

datatype 'xe ecat_io_error = EioConnector connector_error | EioExecutor 'xe

definition ecat_io_display :: "(connector_error \<Rightarrow> str) \<Rightarrow> ('xe \<Rightarrow> str) \<Rightarrow> 'xe ecat_io_error \<Rightarrow> str" where
  "ecat_io_display show_connector show_executor e =
     (case e of
        EioConnector c \<Rightarrow> lit ''ethercat connector setup failed: '' @ show_connector c
      | EioExecutor x \<Rightarrow> lit ''executor setup failed: '' @ show_executor x)"

datatype pdo_direction = PdoTx | PdoRx

record routing =
  rt_subdev :: u16
  rt_direction :: pdo_direction
  rt_offset :: u32
  rt_bits :: u16

text \<open>The fixed map of the one coupler and the options of the connector.\<close>

record sub_device_map =
  sd_address :: u16
  sd_wkc :: u16
  sd_sm_watchdog_us :: u32

record connector_options =
  co_pdo_map :: "sub_device_map list"
  co_interface :: str
  co_cycle_time :: duration

definition PDO_MAP :: "sub_device_map list" where
  "PDO_MAP = [\<lparr>sd_address = SUBDEV, sd_wkc = EXPECTED_WKC, sd_sm_watchdog_us = SM_WATCHDOG_US\<rparr>]"

text \<open>The calls of the library.\<close>

record ('o, 'drv, 'desc, 'c, 'r, 'w, 'xe) taktora =
  tk_driver :: "connector_options \<Rightarrow> 'o \<Rightarrow> ('xe ecat_io_error + 'drv) \<times> 'o"
  tk_connector :: "connector_options \<Rightarrow> 'drv \<Rightarrow> 'o \<Rightarrow> ('xe ecat_io_error + 'c) \<times> 'o"
  tk_descriptor :: "string \<Rightarrow> routing \<Rightarrow> 'xe ecat_io_error + 'desc"
  tk_reader :: "'desc \<Rightarrow> 'c \<Rightarrow> 'o \<Rightarrow> ('xe ecat_io_error + 'r) \<times> 'c \<times> 'o"
  tk_writer :: "'desc \<Rightarrow> 'c \<Rightarrow> 'o \<Rightarrow> ('xe ecat_io_error + 'w) \<times> 'c \<times> 'o"
  tk_register_with :: "'c \<Rightarrow> 'o \<Rightarrow> ('xe ecat_io_error + unit) \<times> 'c \<times> 'o"
  tk_health :: "'c \<Rightarrow> health_kind"
  tk_build_executor :: "'o \<Rightarrow> ('xe + unit) \<times> 'o"
  tk_add_item :: "'o \<Rightarrow> ('xe + unit) \<times> 'o"

definition register ::
  "('o, 'drv, 'desc, 'c, 'r, 'w, 'xe) taktora \<Rightarrow> str \<Rightarrow> 'o \<Rightarrow> ('xe ecat_io_error + ('c, 'r, 'w) wago) \<times> 'o" where
  "register tk nic o0 =
     (let opts = \<lparr>co_pdo_map = PDO_MAP, co_interface = nic, co_cycle_time = CYCLE_TIME\<rparr> in
      and_then (tk_driver tk opts o0) (\<lambda>driver o1.
      and_then (tk_connector tk opts driver o1) (\<lambda>c0 o2.
      and_then (tk_descriptor tk IN_CHANNEL
          \<lparr>rt_subdev = SUBDEV, rt_direction = PdoTx, rt_offset = DI_BIT_OFFSET, rt_bits = DI_BITS\<rparr>, o2) (\<lambda>in_desc o2.
      case tk_reader tk in_desc c0 o2 of (reader, c1, o3) \<Rightarrow>
      and_then (reader, o3) (\<lambda>reader o3.
      and_then (tk_descriptor tk OUT_CHANNEL
          \<lparr>rt_subdev = SUBDEV, rt_direction = PdoRx, rt_offset = DO_BIT_OFFSET, rt_bits = DO_BITS\<rparr>, o3) (\<lambda>out_desc o3.
      case tk_writer tk out_desc c1 o3 of (writer, c2, o4) \<Rightarrow>
      and_then (writer, o4) (\<lambda>writer o4.
      case tk_register_with tk c2 o4 of (r, c3, o5) \<Rightarrow>
      and_then (r, o5) (\<lambda>_ o5.
      and_then (map_prod (map_sum EioExecutor id) id (tk_add_item tk o5)) (\<lambda>_ o6.
        (Inr (wago_new c3 reader writer (tk_health tk c3)), o6))))))))))"

subsection \<open>The run\<close>

definition COUNTER_PATH :: path where
  "COUNTER_PATH = \<lparr>is_abs = True, comps = [lit ''var'', lit ''lib'', lit ''baler'', lit ''counters'']\<rparr>"

definition NIC :: str where
  "NIC = lit ''eth0''"

datatype 'xe dyn_error =
    DynIo io_error
  | DynConnector connector_error
  | DynExecutor 'xe
  | DynEcat "'xe ecat_io_error"
  | DynText str

text \<open>What the process is started in: the watchdog device, the disk, the rest of the machine.\<close>

record ('d, 'os, 'o) machine =
  mc_dev :: 'd
  mc_fs :: fs
  mc_net :: 'os
  mc_os :: 'o

record ('d, 'os, 'o, 'drv, 'desc, 'c, 'r, 'w, 'xe, 'rx, 'tx) daemon_env =
  de_kernel :: "'d wd_kernel"
  de_ip :: "'os ip_exec"
  de_link :: "'o \<Rightarrow> (connector_error + 'tx \<times> 'rx) \<times> 'o"
  de_read :: "str \<Rightarrow> 'o \<Rightarrow> (io_error + str) \<times> 'o"
  de_sleep :: "duration \<Rightarrow> 'o \<Rightarrow> 'o"
  de_ip_status :: "str list \<Rightarrow> 'o \<Rightarrow> 'o"
  de_taktora :: "('o, 'drv, 'desc, 'c, 'r, 'w, 'xe) taktora"
  de_bus_recv :: "('r, u8) try_recv"
  de_bus_send :: "('w, u8) send"
  de_cmd_recv :: "('rx, command) try_recv"
  de_state_send :: "('tx, state_snapshot) send"

definition build_net_wd :: "'d wd_kernel \<Rightarrow> 'd \<Rightarrow> (io_error + network_mode \<times> petter) \<times> 'd" where
  "build_net_wd k d =
     (let net = nm_new NIC (192, 168, 1, 102) 24 in
      and_then (wd_open k (lit ''/dev/watchdog'') (Some 15) False d) (\<lambda>wd d'. (Inr (net, wd), d')))"

text \<open>The wait of the daemon: the closures pet the watchdog and publish the fault snapshot.\<close>

definition daemon_wait ::
  "('d, 'os, 'o, 'drv, 'desc, 'c, 'r, 'w, 'xe, 'rx, 'tx) daemon_env \<Rightarrow> control
   \<Rightarrow> 'o \<times> 'd \<times> 'tx \<Rightarrow> ('o \<times> 'd \<times> 'tx) option" where
  "daemon_wait env c =
     wait_for_carrier
       (\<lambda>p (os, d, tx). let (r, os') = de_read env p os in (r, os', d, tx))
       (\<lambda>(os, d, tx). (os, wd_pet (de_kernel env) d, tx))
       (\<lambda>(os, d, tx). (os, d, link_publish (de_state_send env) (ctl_idle_snapshot Fault c) tx))
       (\<lambda>t (os, d, tx). (de_sleep env t os, d, tx))
       (\<lambda>args (os, d, tx). (de_ip_status env args os, d, tx)) NIC"

definition daemon_ecat ::
  "('d, 'os, 'o, 'drv, 'desc, 'c, 'r, 'w, 'xe, 'rx, 'tx) daemon_env
   \<Rightarrow> (network_mode \<times> 'os, 'r, 'w, 'd, 'rx, 'tx) ecat_env" where
  "daemon_ecat env =
     \<lparr>ee_net = nm_port (de_ip env), ee_bus_recv = de_bus_recv env, ee_bus_send = de_bus_send env,
      ee_wd = petter_port (de_kernel env), ee_cmd_recv = de_cmd_recv env,
      ee_state_send = de_state_send env\<rparr>"

text \<open>What is opened before the executor runs: the result is the error that ends the process, with
  the watchdog device as it is then, or the control item in its first state.\<close>

definition ecat_open ::
  "('d, 'os, 'o, 'drv, 'desc, 'c, 'r, 'w, 'xe, 'rx, 'tx) daemon_env \<Rightarrow> network_mode \<Rightarrow> ('d, 'os, 'o) machine
   \<Rightarrow> ('xe dyn_error \<times> 'd + (network_mode \<times> 'os, 'c, 'r, 'w, 'd, 'rx, 'tx) ecat_state) option" where
  "ecat_open env nm m =
     (let tk = de_taktora env in
      case ctl_new COUNTER_PATH (mc_fs m) of
        (Inl e, _) \<Rightarrow> Some (Inl (DynIo e, mc_dev m))
      | (Inr control, fs1) \<Rightarrow>
      (case de_link env (mc_os m) of
        (Inl e, _) \<Rightarrow> Some (Inl (DynConnector e, mc_dev m))
      | (Inr (tx, rx), o1) \<Rightarrow>
      (case daemon_wait env control (o1, mc_dev m, tx) of
        None \<Rightarrow> None
      | Some (o2, d, tx') \<Rightarrow>
      (case tk_build_executor tk o2 of
        (Inl e, _) \<Rightarrow> Some (Inl (DynExecutor e, d))
      | (Inr _, o3) \<Rightarrow>
      (case register tk NIC o3 of
        (Inl e, _) \<Rightarrow> Some (Inl (DynEcat e, d))
      | (Inr bus, o4) \<Rightarrow>
      (case tk_add_item tk o4 of
        (Inl e, _) \<Rightarrow> Some (Inl (DynExecutor e, d))
      | (Inr _, _) \<Rightarrow>
          Some (Inr (ecat_start control \<lparr>w_fs = fs1, w_net = (nm, mc_net m), w_bus = bus\<rparr> d rx tx'))))))))"

text \<open>\<open>exec.run()\<close> belongs to the executor's library: it runs the item in some cycles and returns
  \<open>outcome\<close>, or goes on (no outcome). When and with what it returns is arbitrary here.\<close>

definition run_ethercat ::
  "('d, 'os, 'o, 'drv, 'desc, 'c, 'r, 'w, 'xe, 'rx, 'tx) daemon_env
   \<Rightarrow> (health_kind list \<times> duration) list \<Rightarrow> ('xe + unit) option \<Rightarrow> network_mode \<Rightarrow> ('d, 'os, 'o) machine
   \<Rightarrow> (('xe dyn_error + unit) \<times> 'd) option" where
  "run_ethercat env cycles outcome nm m =
     (case ecat_open env nm m of
        None \<Rightarrow> None
      | Some (Inl (e, d)) \<Rightarrow> Some (Inl e, d)
      | Some (Inr s0) \<Rightarrow>
      (case ecat_run (daemon_ecat env) cycles s0 of
        None \<Rightarrow> None
      | Some s \<Rightarrow>
      (case outcome of
        None \<Rightarrow> None
      | Some (Inl e) \<Rightarrow> Some (Inl (DynExecutor e), ec_wd s)
      | Some (Inr _) \<Rightarrow>
          if ec_restart_exit s
          then Some (Inl (DynText (lit ''EtherCAT restart requested (bring-up timeout or return-to-EtherCAT); exiting for a fresh bus scan'')), ec_wd s)
          else Some (Inr (), ec_wd s))))"

text \<open>\<open>main\<close>: the ports are dropped on the way out.\<close>

definition daemon_main ::
  "('d, 'os, 'o, 'drv, 'desc, 'c, 'r, 'w, 'xe, 'rx, 'tx) daemon_env
   \<Rightarrow> (health_kind list \<times> duration) list \<Rightarrow> ('xe + unit) option \<Rightarrow> ('d, 'os, 'o) machine
   \<Rightarrow> (('xe dyn_error + unit) \<times> 'd) option" where
  "daemon_main env cycles outcome m =
     (case build_net_wd (de_kernel env) (mc_dev m) of
        (Inl e, d) \<Rightarrow> Some (Inl (DynIo e), d)
      | (Inr (nm, wd), d) \<Rightarrow>
          map_option (\<lambda>(r, d'). (r, wd_drop (de_kernel env) wd d'))
            (run_ethercat env cycles outcome nm (m\<lparr>mc_dev := d\<rparr>)))"

subsection \<open>The simulated daemon\<close>

text \<open>\<open>run\<close>: what is opened before its loop, and its loop, which only ends with the process; \<open>clock\<close>
  gives the whole seconds the simulated bus reads in each iteration.\<close>

definition sim_open ::
  "('o \<Rightarrow> (connector_error + 'tx \<times> 'rx) \<times> 'o) \<Rightarrow> fs \<Rightarrow> 'n \<Rightarrow> 'd \<Rightarrow> 'o
   \<Rightarrow> 'xe dyn_error + ('n, 'd, 'rx, 'tx) sim_state" where
  "sim_open link f n d q =
     (case ctl_new COUNTER_PATH f of
        (Inl e, _) \<Rightarrow> Inl (DynIo e)
      | (Inr control, f1) \<Rightarrow>
          (case link q of
             (Inl e, _) \<Rightarrow> Inl (DynConnector e)
           | (Inr (tx, rx), _) \<Rightarrow>
               Inr \<lparr>sm_control = control, sm_world = \<lparr>w_fs = f1, w_net = n, w_bus = ()\<rparr>,
                    sm_wd = d, sm_rx = rx, sm_tx = tx\<rparr>))"

fun sim_loop ::
  "'n net_port \<Rightarrow> 'd watchdog_port \<Rightarrow> ('rx, command) try_recv \<Rightarrow> ('tx, state_snapshot) send
   \<Rightarrow> u64 list \<Rightarrow> ('n, 'd, 'rx, 'tx) sim_state \<Rightarrow> ('n, 'd, 'rx, 'tx) sim_state option" where
  "sim_loop net wd recv send [] s = Some s"
| "sim_loop net wd recv send (t # clock) s =
     (case sim_iter net wd recv send t s of
        None \<Rightarrow> None
      | Some s' \<Rightarrow> sim_loop net wd recv send clock s')"

end
