(* ===== verification/DaemonBootProps.thy ===== *)
theory DaemonBootProps
  imports DaemonBoot
begin

text \<open>
  How the daemon ends: whatever stops it, the process fails, so that it is started again, and the
  hardware watchdog is left as its driver leaves it on a plain close, so that with a driver that
  stays armed the device is reset if the daemon does not come back.
\<close>

lemma petter_port_pet [simp]: "wp_pet (petter_port k) = wd_pet k"
  by (simp add: petter_port_def)

text \<open>The item pets at most, and stops the executor only with the exit flag set.\<close>

lemma ecat_run_end:
  fixes s s' :: "('n, 'c, 'r, 'w, 'd, 'rx, 'tx) ecat_state" and armed magic :: "'d \<Rightarrow> bool"
  assumes "ee_wd env = petter_port k" "wd_documented k armed magic sticky"
    and "ecat_run env cycles s = Some s'"
    and "wd_live armed magic (ec_wd s)" "ec_stopped s \<Longrightarrow> ec_restart_exit s"
  shows "wd_live armed magic (ec_wd s') \<and> (ec_stopped s' \<longrightarrow> ec_restart_exit s')"
proof (rule ecat_run_invariant [OF _ assms(3),
      where I = "\<lambda>s. wd_live armed magic (ec_wd s) \<and> (ec_stopped s \<longrightarrow> ec_restart_exit s)"])
  fix events elapsed and s s' :: "('n, 'c, 'r, 'w, 'd, 'rx, 'tx) ecat_state"
  assume i: "wd_live armed magic (ec_wd s) \<and> (ec_stopped s \<longrightarrow> ec_restart_exit s)" and "\<not> ec_stopped s"
    and "ecat_item env elapsed (pumped events s) = Some s'"
  from this(3) show "wd_live armed magic (ec_wd s') \<and> (ec_stopped s' \<longrightarrow> ec_restart_exit s')"
    by (rule ecat_item_cases) (use i \<open>\<not> ec_stopped s\<close> wd_pet_live [OF assms(2)] assms(1) in simp_all)
qed (use assms in simp)

lemma daemon_wait_live:
  assumes "daemon_wait env c (os, d, tx) = Some (os', d', tx')"
    and "wd_documented (de_kernel env) armed magic sticky" "wd_live armed magic d"
  shows "wd_live armed magic d'"
proof -
  have "(\<lambda>(os, d, tx). wd_live armed magic d) (os', d', tx')"
    by (rule wait_for_carrier_keeps [OF assms(1) [unfolded daemon_wait_def]])
      (use assms(2,3) wd_pet_live in \<open>auto simp: Let_def split: prod.splits\<close>)
  then show ?thesis by simp
qed

lemma ecat_open_live:
  assumes "wd_documented (de_kernel env) armed magic sticky" "wd_live armed magic (mc_dev m)"
  shows "ecat_open env nm m = Some (Inl (e, d)) \<Longrightarrow> wd_live armed magic d"
    and "ecat_open env nm m = Some (Inr s0) \<Longrightarrow> wd_live armed magic (ec_wd s0) \<and> \<not> ec_stopped s0"
proof -
  have w: "wd_live armed magic d'" if "daemon_wait env c (os, mc_dev m, tx) = Some (os', d', tx')" for c os tx os' d' tx'
    by (rule daemon_wait_live [OF that assms])
  show "ecat_open env nm m = Some (Inl (e, d)) \<Longrightarrow> wd_live armed magic d"
    using assms(2) w by (auto simp: ecat_open_def Let_def split: prod.splits sum.splits option.splits)
  show "ecat_open env nm m = Some (Inr s0) \<Longrightarrow> wd_live armed magic (ec_wd s0) \<and> \<not> ec_stopped s0"
    using w by (auto simp: ecat_open_def ecat_start_def Let_def split: prod.splits sum.splits option.splits)
qed

text \<open>The executor returned success although the item, in the run it made from the state in which the
  daemon had opened everything, had not stopped it.\<close>

definition unasked_success ::
  "('d, 'os, 'o, 'drv, 'desc, 'c, 'r, 'w, 'xe, 'rx, 'tx) daemon_env
   \<Rightarrow> (health_kind list \<times> duration) list \<Rightarrow> ('xe + unit) option \<Rightarrow> network_mode \<Rightarrow> ('d, 'os, 'o) machine \<Rightarrow> bool" where
  "unasked_success env cycles outcome nm m \<longleftrightarrow> outcome = Some (Inr ()) \<and>
     (\<exists>s0 s. ecat_open env nm m = Some (Inr s0) \<and> ecat_run (daemon_ecat env) cycles s0 = Some s \<and> \<not> ec_stopped s)"

lemma run_ethercat_end:
  assumes "run_ethercat env cycles outcome nm m = Some (r, d)"
    and "wd_documented (de_kernel env) armed magic sticky" "wd_live armed magic (mc_dev m)"
  shows "(isl r \<or> unasked_success env cycles outcome nm m) \<and> wd_live armed magic d"
proof -
  have k: "ee_wd (daemon_ecat env) = petter_port (de_kernel env)" by (simp add: daemon_ecat_def)
  have e: "wd_live armed magic (ec_wd s) \<and> (ec_stopped s \<longrightarrow> ec_restart_exit s)"
    if "ecat_run (daemon_ecat env) cycles s0 = Some s" "ecat_open env nm m = Some (Inr s0)" for s0 s
    using ecat_run_end [OF k assms(2) that(1)] ecat_open_live(2) [OF assms(2,3) that(2)] by simp
  show ?thesis
    using assms(1) e ecat_open_live(1) [OF assms(2,3), of nm] unfolding unasked_success_def
    by (auto simp: run_ethercat_def split: option.splits sum.splits prod.splits if_splits)
qed

text \<open>C19. The daemon never ends well of itself: whenever the process of the device build returns, at
  whatever step of its start or its run, its result is an error (so the service manager starts it
  again), unless the executor returned success without having been stopped by the control item in
  that run. And the daemon never disarms the watchdog: unless the device could not even be opened,
  the watchdog is armed when the process is gone exactly if its driver keeps it armed over a close
  without the magic character.\<close>

theorem daemon_ends_in_failure_armed:
  assumes "wd_documented (de_kernel env) armed magic sticky"
    and "daemon_main env cycles outcome m = Some (r, d)"
  shows "(isl r \<or> (\<exists>nm wd d0. build_net_wd (de_kernel env) (mc_dev m) = (Inr (nm, wd), d0)
        \<and> unasked_success env cycles outcome nm (m\<lparr>mc_dev := d0\<rparr>)))
    \<and> (fst (wk_open (de_kernel env) (lit ''/dev/watchdog'') (mc_dev m)) = Inr () \<longrightarrow> armed d = sticky)"
proof (cases "fst (wk_open (de_kernel env) (lit ''/dev/watchdog'') (mc_dev m)) = Inr ()")
  case False
  then have "isl (fst (wd_open (de_kernel env) (lit ''/dev/watchdog'') (Some 15) False (mc_dev m)))"
    by (auto simp: wd_open_def split: prod.splits sum.splits)
  then show ?thesis
    using assms(2) False
    by (auto simp: daemon_main_def build_net_wd_def and_then_def Let_def split: prod.splits sum.splits)
next
  case True
  note o = wd_open_live [OF assms(1) True, where timeout = "Some 15" and close_magic = False]
  obtain q d1 where open_: "wd_open (de_kernel env) (lit ''/dev/watchdog'') (Some 15) False (mc_dev m) = (q, d1)"
    by fastforce
  show ?thesis
  proof (cases q)
    case (Inl e)
    then show ?thesis using assms(2) o open_
      by (auto simp: daemon_main_def build_net_wd_def and_then_def Let_def)
  next
    case (Inr wd)
    have wd: "wd_live armed magic d1" "\<not> pt_magic_close wd" using o unfolding open_ Inr by simp_all
    obtain nm d' where b: "build_net_wd (de_kernel env) (mc_dev m) = (Inr (nm, wd), d1)"
        and run: "run_ethercat env cycles outcome nm (m\<lparr>mc_dev := d1\<rparr>) = Some (r, d')"
        and d: "d = wd_drop (de_kernel env) wd d'"
      using assms(2) open_ Inr by (auto simp: daemon_main_def build_net_wd_def and_then_def Let_def)
    note e = run_ethercat_end [OF run assms(1)]
    show ?thesis using e wd wd_drop_live [OF assms(1) _ wd(2), of d'] d b by auto
  qed
qed

text \<open>A machine whose cable is plugged in but whose coupler never comes up.\<close>

definition demo_taktora :: "(unit, unit, unit, unit, u8 list, nat \<times> u8 option, unit) taktora" where
  "demo_taktora =
     \<lparr>tk_driver = (\<lambda>_ q. (Inr (), q)), tk_connector = (\<lambda>_ _ q. (Inr (), q)), tk_descriptor = (\<lambda>_ _. Inr ()),
      tk_reader = (\<lambda>_ c q. (Inr [2], c, q)), tk_writer = (\<lambda>_ c q. (Inr (0, None), c, q)),
      tk_register_with = (\<lambda>c q. (Inr (), c, q)), tk_health = (\<lambda>_. Down),
      tk_build_executor = (\<lambda>q. (Inr (), q)), tk_add_item = (\<lambda>q. (Inr (), q))\<rparr>"

definition demo_daemon ::
  "(bool \<times> bool, unit, unit, unit, unit, unit, u8 list, nat \<times> u8 option, unit, command list, state_snapshot list) daemon_env" where
  "demo_daemon =
     \<lparr>de_kernel = demo_kernel True, de_ip = (\<lambda>_ q. (Inr (Some 0, []), q)), de_link = (\<lambda>q. (Inr ([], []), q)),
      de_read = (\<lambda>_ q. (Inr (lit ''1''), q)), de_sleep = (\<lambda>_ q. q), de_ip_status = (\<lambda>_ q. q),
      de_taktora = demo_taktora, de_bus_recv = queue_recv, de_bus_send = flaky_send,
      de_cmd_recv = queue_recv, de_state_send = (\<lambda>s l. (Inr (), l @ [s]))\<rparr>"

declare carrier_loop.simps [code] poll_loop.simps [code]

lemma demo_daemon_ends:
  "map_option (\<lambda>(r, d). (isl r, d)) (daemon_main demo_daemon [([], from_secs 12)] (Some (Inr ()))
      \<lparr>mc_dev = (False, False), mc_fs = empty_fs, mc_net = (), mc_os = ()\<rparr>) = Some (True, True, False)"
  by code_simp

text \<open>The deadline passes, the executor is stopped and returns success, and the result is an error.\<close>

theorem daemon_ends_in_failure_armed_witness:
  "\<exists>r. daemon_main demo_daemon [([], from_secs 12)] (Some (Inr ()))
      \<lparr>mc_dev = (False, False), mc_fs = empty_fs, mc_net = (), mc_os = ()\<rparr> = Some (r, True, False) \<and> isl r"
proof -
  have doc: "wd_documented (de_kernel demo_daemon) fst snd True"
    using demo_kernel_documented by (simp add: demo_daemon_def)
  obtain r where r: "daemon_main demo_daemon [([], from_secs 12)] (Some (Inr ()))
      \<lparr>mc_dev = (False, False), mc_fs = empty_fs, mc_net = (), mc_os = ()\<rparr> = Some (r, True, False)" "isl r"
    using demo_daemon_ends by auto
  have "fst (wk_open (de_kernel demo_daemon) (lit ''/dev/watchdog'') (False, False)) = Inr ()"
    by (simp add: demo_daemon_def demo_kernel_def)
  then show ?thesis using daemon_ends_in_failure_armed [OF doc r(1)] r by auto
qed

subsection \<open>The two run paths\<close>

text \<open>Two worlds that differ only in the bus.\<close>

definition same_world :: "('n, 'b) world \<Rightarrow> ('n, 'c) world \<Rightarrow> bool" where
  "same_world w v \<longleftrightarrow> w_fs w = w_fs v \<and> w_net w = w_net v"

lemma ctl_action_same:
  assumes "same_world w v"
  shows "fst (ctl_action net bus k r (c, w)) = fst (ctl_action net bus' k r (c, v))
    \<and> same_world (snd (ctl_action net bus k r (c, w))) (snd (ctl_action net bus' k r (c, v)))"
  using assms
  by (cases r; cases "projr r") (simp_all add: ctl_action_def same_world_def Let_def split_beta)

lemma ctl_command_same:
  assumes "same_world w v"
  shows "fst (ctl_command net bus cmd (g, c, w)) = fst (ctl_command net bus' cmd (g, c, v))
    \<and> fst (snd (ctl_command net bus cmd (g, c, w))) = fst (snd (ctl_command net bus' cmd (g, c, v)))
    \<and> same_world (snd (snd (ctl_command net bus cmd (g, c, w)))) (snd (snd (ctl_command net bus' cmd (g, c, v))))"
  using assms ctl_action_same [OF assms, of net bus _ _ _ bus']
  by (simp add: ctl_command_def Let_def split_beta split: command.split)

lemma ctl_commands_same:
  assumes "same_world w v"
  shows "fst (fold (ctl_command net bus) cmds (g, c, w)) = fst (fold (ctl_command net bus') cmds (g, c, v))
    \<and> fst (snd (fold (ctl_command net bus) cmds (g, c, w))) = fst (snd (fold (ctl_command net bus') cmds (g, c, v)))
    \<and> same_world (snd (snd (fold (ctl_command net bus) cmds (g, c, w))))
        (snd (snd (fold (ctl_command net bus') cmds (g, c, v))))"
  using assms
proof (induction cmds arbitrary: g c w v)
  case Nil
  then show ?case by simp
next
  case (Cons cmd cmds)
  obtain g1 c1 w1 where a: "ctl_command net bus cmd (g, c, w) = (g1, c1, w1)" by (metis prod_cases3)
  obtain g2 c2 v1 where b: "ctl_command net bus' cmd (g, c, v) = (g2, c2, v1)" by (metis prod_cases3)
  have "g2 = g1" "c2 = c1" "same_world w1 v1"
    using ctl_command_same [OF Cons.prems, of net bus cmd g c bus'] by (simp_all add: a b)
  then show ?case using Cons.IH by (simp add: a b)
qed

lemma ctl_step_same:
  assumes "same_world w v"
  shows "fst (ctl_step net bus (c, w) ic) = fst (ctl_step net bus' (c, v) ic)
    \<and> fst (snd (ctl_step net bus (c, w) ic)) = fst (snd (ctl_step net bus' (c, v) ic))
    \<and> same_world (snd (snd (ctl_step net bus (c, w) ic))) (snd (snd (ctl_step net bus' (c, v) ic)))"
proof -
  have f: "w_fs v = w_fs w" and s: "same_world (w\<lparr>w_fs := x\<rparr>) (v\<lparr>w_fs := x\<rparr>)" for x
    using assms by (simp_all add: same_world_def)
  show ?thesis
    using ctl_commands_same [OF s, where net = net and bus = bus and cmds = "snd ic" and g = False and bus' = bus']
    by (simp add: ctl_step_def Let_def split_beta ctl_commands_def f)
qed

text \<open>C20. The two run paths are one program: an iteration of the simulated loop and a cycle of the
  EtherCAT item that poll the same inputs, with the same pending commands, network, watchdog and
  disk, leave the same control state, the same snapshot published, the same disk and network and
  the watchdog petted alike.\<close>

theorem run_paths_agree:
  assumes "sim_iter net wd recv send t s = Some s'"
    and "ecat_item \<lparr>ee_net = net, ee_bus_recv = brecv, ee_bus_send = bsend, ee_wd = wd,
        ee_cmd_recv = recv, ee_state_send = send\<rparr> elapsed e = Some e'" "\<not> ec_stopped e'"
    and "wg_poll brecv (w_bus (ec_world e)) = Some (sim_poll t, bus)"
    and "ec_control e = sm_control s" "same_world (ec_world e) (sm_world s)"
    and "ec_wd e = sm_wd s" "ec_rx e = sm_rx s" "ec_tx e = sm_tx s"
  shows "ec_control e' = sm_control s' \<and> same_world (ec_world e') (sm_world s')
    \<and> ec_wd e' = sm_wd s' \<and> ec_rx e' = sm_rx s' \<and> ec_tx e' = sm_tx s'"
proof (rule ecat_item_cases [OF assms(2)])
  fix i bus' cmds rx outs snap c w
  assume p: "wg_poll (ee_bus_recv \<lparr>ee_net = net, ee_bus_recv = brecv, ee_bus_send = bsend, ee_wd = wd,
        ee_cmd_recv = recv, ee_state_send = send\<rparr>) (w_bus (ec_world e)) = Some (i, bus')"
    and d: "link_drain (ee_cmd_recv \<lparr>ee_net = net, ee_bus_recv = brecv, ee_bus_send = bsend, ee_wd = wd,
        ee_cmd_recv = recv, ee_state_send = send\<rparr>) (ec_rx e) = Some (cmds, rx)"
    and c: "item_cycle \<lparr>ee_net = net, ee_bus_recv = brecv, ee_bus_send = bsend, ee_wd = wd,
        ee_cmd_recv = recv, ee_state_send = send\<rparr> e i bus' cmds = ((outs, snap), c, w)"
    and e': "e' = e\<lparr>ec_control := c,
        ec_world := w\<lparr>w_bus := wg_write (ee_bus_send \<lparr>ee_net = net, ee_bus_recv = brecv, ee_bus_send = bsend, ee_wd = wd,
          ee_cmd_recv = recv, ee_state_send = send\<rparr>) outs ((w_bus w)\<lparr>wg_restart_requested := False\<rparr>)\<rparr>,
        ec_wd := wp_pet (ee_wd \<lparr>ee_net = net, ee_bus_recv = brecv, ee_bus_send = bsend, ee_wd = wd,
          ee_cmd_recv = recv, ee_state_send = send\<rparr>) (ec_wd e), ec_rx := rx,
        ec_tx := link_publish (ee_state_send \<lparr>ee_net = net, ee_bus_recv = brecv, ee_bus_send = bsend, ee_wd = wd,
          ee_cmd_recv = recv, ee_state_send = send\<rparr>) snap (ec_tx e),
        ec_ever_up := ec_ever_up e \<or> in_healthy i,
        ec_maintenance := ec_maintenance e \<or> ss_mode snap = Ethernet\<rparr>"
  have i: "i = sim_poll t" "bus' = bus" using p assms(4) by simp_all
  have s': "s' = \<lparr>sm_control = fst (snd (ctl_step net noop_bus (sm_control s, sm_world s) (sim_poll t, cmds))),
      sm_world = snd (snd (ctl_step net noop_bus (sm_control s, sm_world s) (sim_poll t, cmds))),
      sm_wd = wp_pet wd (sm_wd s), sm_rx = rx,
      sm_tx = link_publish send (snd (fst (ctl_step net noop_bus (sm_control s, sm_world s) (sim_poll t, cmds)))) (sm_tx s)\<rparr>"
    using assms(1) d assms(8) by (simp add: sim_iter_def Let_def split_beta)
  have w: "same_world ((ec_world e)\<lparr>w_bus := bus\<rparr>) (sm_world s)"
    using assms(6) by (simp add: same_world_def)
  note k = ctl_step_same [OF w, of net wago_port "sm_control s" "(sim_poll t, cmds)" noop_bus]
  have "snap = snd (fst (ctl_step net noop_bus (sm_control s, sm_world s) (sim_poll t, cmds)))"
      "c = fst (snd (ctl_step net noop_bus (sm_control s, sm_world s) (sim_poll t, cmds)))"
      "same_world w (snd (snd (ctl_step net noop_bus (sm_control s, sm_world s) (sim_poll t, cmds))))"
    using k c by (auto simp: item_cycle_def i assms(5)) (metis snd_conv)
  then show ?thesis using assms(7,9) by (simp add: e' s' same_world_def)
qed (use assms(3) in simp_all)

definition calm_env :: "(unit, u8 list, nat \<times> u8 option, nat, command list, state_snapshot list) ecat_env" where
  "calm_env = \<lparr>ee_net = sim_network, ee_bus_recv = queue_recv, ee_bus_send = flaky_send,
     ee_wd = \<lparr>wp_pet = Suc\<rparr>, ee_cmd_recv = queue_recv, ee_state_send = (\<lambda>x l. (Inr (), l @ [x]))\<rparr>"

definition calm_ecat :: "(unit, unit, u8 list, nat \<times> u8 option, nat, command list, state_snapshot list) ecat_state" where
  "calm_ecat = ecat_start (ctl_init demo_store)
     \<lparr>w_fs = empty_fs, w_net = (), w_bus = wago_new () [0] (0, None) Up\<rparr> 0 [ResetSession] []"

definition calm_sim :: "(unit, nat, command list, state_snapshot list) sim_state" where
  "calm_sim = \<lparr>sm_control = ctl_init demo_store, sm_world = \<lparr>w_fs = empty_fs, w_net = (), w_bus = ()\<rparr>,
     sm_wd = 0, sm_rx = [ResetSession], sm_tx = []\<rparr>"

lemma calm_poll: "\<exists>bus. wg_poll queue_recv (w_bus (ec_world calm_ecat)) = Some (sim_poll 0, bus)
    \<and> \<not> wg_restart_requested bus"
proof -
  have q: "backlog queue_recv (Suc 1) [0 :: u8] = Some ([0], [])" using queue_backlog [of "[0 :: u8]"] by simp
  have "bit_of 0 0 = False" "bit_of 0 1 = False" "bit_of 0 2 = False" by code_simp+
  then show ?thesis
    using poll_loop_backlog [OF q, of 0]
    by (simp add: wg_poll_def wago_new_def wg_is_healthy_def Let_def bit_consts calm_ecat_def ecat_start_def
        sim_poll_def)
qed

lemma calm_item: "\<exists>e'. ecat_item calm_env DUR_ZERO calm_ecat = Some e' \<and> \<not> ec_stopped e'"
proof -
  obtain bus where p: "wg_poll queue_recv (w_bus (ec_world calm_ecat)) = Some (sim_poll 0, bus)"
      and nr: "\<not> wg_restart_requested bus"
    using calm_poll by blast
  have d: "link_drain queue_recv [ResetSession] = Some ([ResetSession], [])" by (rule demo_drain)
  obtain outs snap c w where c: "item_cycle calm_env calm_ecat (sim_poll 0) bus [ResetSession] = ((outs, snap), c, w)"
    by (metis prod.collapse)
  have nreq: "\<not> wg_restart_requested (w_bus w)"
    using restart_needs_return [of "(ec_control calm_ecat, (ec_world calm_ecat)\<lparr>w_bus := bus\<rparr>)" "[ResetSession]"
        "ee_net calm_env" "sim_poll 0"] nr c by (simp add: item_cycle_def)
  have stopped: "\<not> ec_stopped calm_ecat" by (simp add: calm_ecat_def ecat_start_def)
  have p': "wg_poll (ee_bus_recv calm_env) (w_bus (ec_world calm_ecat)) = Some (sim_poll 0, bus)"
    using p by (simp add: calm_env_def)
  have d': "link_drain (ee_cmd_recv calm_env) (ec_rx calm_ecat) = Some ([ResetSession], [])"
    using d by (simp add: calm_env_def calm_ecat_def ecat_start_def)
  have "in_healthy (sim_poll 0) \<or> ec_ever_up calm_ecat \<or> ec_maintenance calm_ecat \<or> \<not> BRINGUP_DEADLINE \<le> DUR_ZERO"
    by (simp add: sim_poll_def Let_def)
  from ecat_item_eq [OF p' this d' c] show ?thesis using nreq stopped by blast
qed

theorem run_paths_agree_witness:
  "\<exists>s' e'. sim_iter sim_network \<lparr>wp_pet = Suc\<rparr> queue_recv (\<lambda>x l. (Inr (), l @ [x])) 0 calm_sim = Some s'
     \<and> ecat_item calm_env DUR_ZERO calm_ecat = Some e' \<and> ec_control e' = sm_control s' \<and> ec_tx e' = sm_tx s'"
proof -
  obtain bus where p: "wg_poll queue_recv (w_bus (ec_world calm_ecat)) = Some (sim_poll 0, bus)"
    using calm_poll by blast
  obtain s' where s': "sim_iter sim_network \<lparr>wp_pet = Suc\<rparr> queue_recv (\<lambda>x l. (Inr (), l @ [x])) 0 calm_sim = Some s'"
    using demo_drain by (simp add: sim_iter_def calm_sim_def Let_def split_beta)
  obtain e' where e': "ecat_item calm_env DUR_ZERO calm_ecat = Some e'" "\<not> ec_stopped e'" using calm_item by blast
  have "ec_control e' = sm_control s' \<and> same_world (ec_world e') (sm_world s')
      \<and> ec_wd e' = sm_wd s' \<and> ec_rx e' = sm_rx s' \<and> ec_tx e' = sm_tx s'"
    by (rule run_paths_agree [OF s' e'(1) [unfolded calm_env_def] e'(2) p])
      (simp_all add: calm_ecat_def calm_sim_def ecat_start_def same_world_def)
  then show ?thesis using s' e'(1) by blast
qed

end
