(* ===== verification/PanelSafe.thy ===== *)
theory PanelSafe
  imports PanelLoop
begin

text \<open>
  The panel does not panic. Rust stops the program where an index is out of its array or, in a
  checked build, where an addition overflows; the panel has such places in the entry of the PIN
  (\<open>baler-ui/src/main.rs\<close>). Here is its loop with those checks written out, and the proof that
  none of them ever fires: the service state keeps its type (a cursor within the four digits,
  digits below ten), and with it every checked step is the plain one.
\<close>

subsection \<open>The checked steps\<close>

text \<open>\<open>service.pin[service.cursor] + step\<close>\<close>

definition sv_spin_checked :: "u8 \<Rightarrow> service_state \<Rightarrow> service_state option" where
  "sv_spin_checked step s =
     (if length (sv_pin s) \<le> sv_cursor s then None
      else if 2 ^ 8 \<le> unat (sv_pin s ! sv_cursor s) + unat step then None
      else Some (sv_spin step s))"

text \<open>\<open>char::from(b'0' + self.pin[i])\<close> for the position under the cursor.\<close>

definition sv_display_checked :: "service_state \<Rightarrow> str option" where
  "sv_display_checked s =
     (if sv_cursor s < 4 \<and> length (sv_pin s) \<le> sv_cursor s then None
      else if sv_cursor s < 4 \<and> 2 ^ 8 \<le> 48 + unat (sv_pin s ! sv_cursor s) then None
      else Some (sv_display s))"

definition pn_event_checked :: "'b backend \<Rightarrow> button_event \<Rightarrow> 'b panel \<Rightarrow> 'b panel option" where
  "pn_event_checked be ev p =
     (case ev of
        Pressed raw \<Rightarrow>
          if pn_nav p = NavService \<and> remap_fkey raw = KeyUp then
            map_option (\<lambda>s. p\<lparr>pn_service := s\<rparr>) (sv_spin_checked 1 (pn_service p))
          else if pn_nav p = NavService \<and> remap_fkey raw = KeyDown then
            map_option (\<lambda>s. p\<lparr>pn_service := s\<rparr>) (sv_spin_checked 9 (pn_service p))
          else Some (pn_event be ev p)
      | Released raw \<Rightarrow> Some (pn_event be ev p))"

fun pn_events_checked :: "'b backend \<Rightarrow> button_event list \<Rightarrow> 'b panel \<Rightarrow> 'b panel option" where
  "pn_events_checked be [] p = Some p"
| "pn_events_checked be (ev # evs) p = Option.bind (pn_event_checked be ev p) (pn_events_checked be evs)"

text \<open>A turn of the loop: the events, then the view of what they left.\<close>

definition ui_frame_checked ::
    "'b backend \<Rightarrow> 'b ui \<Rightarrow> u64 \<times> button_event list \<Rightarrow> (bool \<times> 'b ui) option" where
  "ui_frame_checked be u tevs =
     (let p0 = ui_panel u; (snap, b) = be_step be (pn_backend p0);
          p1 = p0\<lparr>pn_backend := b, pn_nav := next_nav (pn_nav p0) (ss_mode snap)\<rparr>
      in case pn_events_checked be (snd tevs) p1 of
           None \<Rightarrow> None
         | Some p2 \<Rightarrow>
             (case sv_display_checked (pn_service p2) of
                None \<Rightarrow> None | Some _ \<Rightarrow> Some (ui_frame be u tevs)))"

fun run_checked :: "('s \<Rightarrow> 'i \<Rightarrow> ('o \<times> 's) option) \<Rightarrow> 's \<Rightarrow> 'i list \<Rightarrow> ('o list \<times> 's) option" where
  "run_checked step s [] = Some ([], s)"
| "run_checked step s (x # xs) =
     (case step s x of
        None \<Rightarrow> None
      | Some (y, s') \<Rightarrow> map_option (\<lambda>(ys, s''). (y # ys, s'')) (run_checked step s' xs))"

subsection \<open>Progress and preservation\<close>

lemma sv_wf_digit:
  assumes "sv_wf s"
  shows "unat (sv_pin s ! sv_cursor s) < 10"
proof -
  have "sv_pin s ! sv_cursor s \<in> set (sv_pin s)" using assms by (simp add: sv_wf_def)
  then show ?thesis using assms by (auto simp: sv_wf_def word_less_nat_alt)
qed

lemma spin_progress:
  assumes "sv_wf s" "k = 1 \<or> k = 9"
  shows "sv_spin_checked k s = Some (sv_spin k s)"
proof -
  have "unat k \<le> 9" using assms(2) by auto
  then show ?thesis using sv_wf_digit [OF assms(1)] assms(1) by (simp add: sv_spin_checked_def sv_wf_def)
qed

lemma display_progress: "sv_wf s \<Longrightarrow> sv_display_checked s = Some (sv_display s)"
  using sv_wf_digit [of s] by (simp add: sv_display_checked_def sv_wf_def)

lemma sv_wf_selected [simp]: "sv_wf (s\<lparr>sv_ethernet_selected := e\<rparr>) = sv_wf s"
  by (simp add: sv_wf_def)

lemma pn_send_service [simp]: "pn_service (pn_send be c p) = pn_service p"
  by (simp add: pn_send_def)

lemma pn_release_service [simp]: "pn_service (pn_release p) = pn_service p"
  by (simp add: pn_release_def)

lemma service_press_preserves: "sv_wf (pn_service p) \<Longrightarrow> sv_wf (pn_service (pn_service_press be b p))"
  by (cases b) (auto simp: pn_service_press_def Let_def sv_wf_spin sv_wf_cursor)

lemma event_preserves: "sv_wf (pn_service p) \<Longrightarrow> sv_wf (pn_service (pn_event be ev p))"
proof (cases ev)
  case (Pressed raw)
  assume wf: "sv_wf (pn_service p)"
  show ?thesis
  proof (cases "pn_nav p")
    case NavMain
    then show ?thesis using wf Pressed
      by (cases "remap_fkey raw") (simp_all add: pn_event_def pn_main_press_def)
  next
    case NavIoTest
    then show ?thesis using wf Pressed
      by (cases "remap_fkey raw") (simp_all add: pn_event_def pn_iotest_event_def)
  qed (use wf Pressed in \<open>simp_all add: pn_event_def service_press_preserves\<close>)
next
  case (Released raw)
  assume "sv_wf (pn_service p)"
  then show ?thesis
    using Released by (cases "remap_fkey raw") (simp_all add: pn_event_def pn_iotest_event_def)
qed

lemma event_progress: "sv_wf (pn_service p) \<Longrightarrow> pn_event_checked be ev p = Some (pn_event be ev p)"
  by (auto simp: pn_event_checked_def pn_event_def pn_service_press_def spin_progress Let_def
      split: button_event.split)

lemma events_progress:
  "sv_wf (pn_service p) \<Longrightarrow> pn_events_checked be evs p = Some (fold (pn_event be) evs p)
    \<and> sv_wf (pn_service (fold (pn_event be) evs p))"
  by (induction evs arbitrary: p) (simp_all add: event_progress event_preserves)

text \<open>The type of the loop's state, kept by every turn; a well-typed turn does not panic.\<close>

definition ui_typed :: "'b ui \<Rightarrow> bool" where
  "ui_typed u \<longleftrightarrow> sv_wf (pn_service (ui_panel u))"

lemma ui_typed_start: "ui_typed (ui_start be b f)"
  by (simp add: ui_typed_def ui_start_def pn_start_def Let_def split_beta)

lemma frame_service:
  "pn_service (snd (pn_frame be evs p)) =
    pn_service (fold (pn_event be) evs (p\<lparr>pn_backend := snd (be_step be (pn_backend p)),
      pn_nav := next_nav (pn_nav p) (ss_mode (fst (be_step be (pn_backend p))))\<rparr>))"
  by (simp add: pn_frame_def Let_def split_beta)

lemma frame_panel: "ui_panel (snd (ui_frame be u tevs)) = snd (pn_frame be (snd tevs) (ui_panel u))"
  by (simp add: ui_frame_def Let_def split_beta)

lemma ui_typed_frame: "ui_typed u \<Longrightarrow> ui_typed (snd (ui_frame be u tevs))"
  by (simp add: ui_typed_def frame_panel frame_service events_progress)

lemma ui_frame_progress: "ui_typed u \<Longrightarrow> ui_frame_checked be u tevs = Some (ui_frame be u tevs)"
  by (simp add: ui_frame_checked_def ui_typed_def Let_def split_beta events_progress display_progress)

interpretation typed_loop: safe_machine "ui_frame be" ui_typed "\<lambda>_ _. True"
  by unfold_locales (simp_all add: ui_typed_frame)

lemma run_progress:
  "ui_typed u \<Longrightarrow> run_checked (ui_frame_checked be) u frames = Some (run (ui_frame be) u frames)"
  by (induction frames arbitrary: u) (simp_all add: ui_frame_progress ui_typed_frame split_beta)

lemma display_chars:
  assumes "sv_wf s"
  shows "length (sv_display s) = 4 \<and> set (sv_display s) \<subseteq> {48..57} \<union> {42, 95}"
proof -
  have "48 + unat (sv_pin s ! sv_cursor s) \<in> {48..57}"
    using sv_wf_digit [OF assms] by simp
  then show ?thesis by (auto simp: sv_display_def)
qed

subsection \<open>The property\<close>

text \<open>C29. The panel's loop never panics: with any back end, over any frames of any keys, the loop with
  its checks (indices into the PIN, additions on its digits) gives what the loop without them
  gives, and the PIN field it last showed is four characters, each a decimal digit, a star or an
  underscore.\<close>

theorem panel_never_panics:
  fixes be :: "'b backend" and b :: 'b and f :: fs and frames :: "(u64 \<times> button_event list) list"
  defines "u \<equiv> run_end (ui_frame be) (ui_start be b f) frames"
  shows "run_checked (ui_frame_checked be) (ui_start be b f) frames = Some (run (ui_frame be) (ui_start be b f) frames)
    \<and> length (vw_pin_display (ui_shown u)) = 4
    \<and> set (vw_pin_display (ui_shown u)) \<subseteq> {48..57} \<union> {42, 95}"
proof -
  have t: "ui_typed u" unfolding u_def by (rule typed_loop.run_inv) (rule ui_typed_start)
  have i: "ui_inv u" unfolding u_def by (rule ui_loop.run_inv) (rule ui_inv_start)
  have "vw_pin_display (ui_shown u) = sv_display (pn_service (ui_panel u))"
    using i by (simp add: ui_inv_def push_view_def Let_def)
  then show ?thesis
    using run_progress [OF ui_typed_start] display_chars t by (simp add: ui_typed_def)
qed

end
