(* ===== verification/PanelPin.thy ===== *)
theory PanelPin
  imports PanelSafe
begin

text \<open>
  The PIN protects for one visit only. Every way into the service screen clears the entry, so
  once the operator has left it (to the main screen, or because the daemon changed the mode)
  the functions behind the PIN are as far away as at the start of the program.
\<close>

text \<open>The back end that logs its commands, watched from any point on: what is behind the PIN of
  its log stays what it is.\<close>

interpretation pin_again: watched_backend "log_backend shown" "\<lambda>b. filter gated (snd b) = sent" gated "\<lambda>_. True"
  for shown and sent
  by unfold_locales (simp_all add: log_backend_def split_beta)

lemma frames_typed:
  "sv_wf (pn_service p) \<Longrightarrow> sv_wf (pn_service (run_end (\<lambda>p evs. pn_frame be evs p) p frames))"
  by (induction frames arbitrary: p) (simp_all add: frame_service events_progress)

lemma start_typed: "sv_wf (pn_service (pn_start be b f))"
  by (simp add: pn_start_def Let_def split_beta)

text \<open>C24. The PIN is needed again after every visit: whenever the panel, from its start and over any
  frames, shows a screen other than the service screen and the IO test page, then, whatever was
  entered before, no reset of the total, no switch to Ethernet and no manual-IO command is sent
  before the digit keys have been pressed ten more times.\<close>

theorem pin_needed_again:
  assumes "q = run_end (\<lambda>p evs. pn_frame (log_backend shown) evs p) (pn_start (log_backend shown) (0, []) f) before"
    and "pn_nav q \<notin> {NavService, NavIoTest}"
    and "p = run_end (\<lambda>p evs. pn_frame (log_backend shown) evs p) q after"
    and "length (filter is_spin (concat after)) < 10"
  shows "filter gated (snd (pn_backend p)) = filter gated (snd (pn_backend q))"
proof -
  let ?sent = "filter gated (snd (pn_backend q))"
  have "sv_wf (pn_service q)" unfolding assms(1) by (rule frames_typed [OF start_typed])
  then have l: "pin_again.locked ?sent 0 q" using assms(2) by (simp add: pin_again.locked_def)
  have "list_all pin_again.permitted (concat after)"
    by (simp add: pin_again.permitted_def list_all_iff split: button_event.split)
  then have "pin_again.locked ?sent (0 + length (filter is_spin (concat after))) p"
    unfolding assms(3) using pin_again.locked_frames [OF l, of "after" shown] assms(4) by simp
  then show ?thesis by (simp add: pin_again.locked_def)
qed

text \<open>The PIN is entered, the total reset, the service screen left and opened again: the key that
  resets the total does nothing.\<close>

definition pin_keys :: "button_event list" where
  "pin_keys = map Pressed [KeyUp, KeyRight, KeyUp, KeyUp, KeyRight, KeyUp, KeyUp, KeyUp, KeyRight,
     KeyUp, KeyUp, KeyUp, KeyUp]"

theorem pin_needed_again_witness:
  "let q = run_end (\<lambda>p evs. pn_frame (log_backend (\<lambda>_. demo_snapshot)) evs p)
        (pn_start (log_backend (\<lambda>_. demo_snapshot)) (0, []) \<lparr>files = Map.empty, verdicts = [], older = \<lambda>_. []\<rparr>)
        [Pressed F5 # pin_keys, [Pressed F6, Pressed F5]]
   in snd (pn_backend q) = [ResetTotal]
     \<and> filter gated (snd (pn_backend (run_end (\<lambda>p evs. pn_frame (log_backend (\<lambda>_. demo_snapshot)) evs p) q
         [[Pressed F5], [Pressed F6]]))) = [ResetTotal]"
proof -
  let ?f = "\<lparr>files = Map.empty, verdicts = [], older = \<lambda>_. []\<rparr>"
  define q where "q = run_end (\<lambda>p evs. pn_frame (log_backend (\<lambda>_. demo_snapshot)) evs p)
        (pn_start (log_backend (\<lambda>_. demo_snapshot)) (0, []) ?f) [Pressed F5 # pin_keys, [Pressed F6, Pressed F5]]"
  have q: "pn_nav q = NavMain" "snd (pn_backend q) = [ResetTotal]" unfolding q_def by code_simp+
  have "filter gated (snd (pn_backend (run_end (\<lambda>p evs. pn_frame (log_backend (\<lambda>_. demo_snapshot)) evs p) q
      [[Pressed F5], [Pressed F6]]))) = filter gated (snd (pn_backend q))"
    by (rule pin_needed_again [OF q_def _ refl]) (use q(1) in \<open>simp_all add: is_spin_def\<close>)
  moreover have "filter gated (snd (pn_backend q)) = [ResetTotal]" by (simp add: q(2) gated_def)
  ultimately show ?thesis unfolding q_def [symmetric] Let_def using q(2) by (simp only: simp_thms)
qed

end
