(* ===== verification/SystemProps.thy ===== *)
theory SystemProps
  imports System ControlCount PanelPin
begin

text \<open>
  What the operator sees of the machine, end to end: the screen after a frame is the daemon's
  last published state, the total on it counts the gate's openings, and the key that switches
  the network can get out of step with the daemon.
\<close>

subsection \<open>The screen shows the daemon\<close>

text \<open>The cycles of a run from the start, as a run of the control cycle.\<close>

lemma sys_daemon_run:
  assumes "sys_run net bus (sy_start (ctl_init counters) w f) es s" "sum_list (map spins es) < 10"
  obtains xs where "map fst xs = map fst (cycles es)"
    "(sy_control s, sy_world s) = run_end (ctl_step net bus) (ctl_init counters, w) xs"
    "\<forall>x\<in>set xs. \<forall>c\<in>set (snd x). \<not> gated c"
proof -
  obtain xs where "daemon_runs net bus (sy_start (ctl_init counters) w f) (cycles es) xs s"
    using sys_run_daemon [OF assms(1) start_locked] assms(2) by auto
  then show thesis
    using that [of xs] by (simp add: daemon_runs_def sy_start_def)
qed

lemma sys_run_append:
  "sys_run net bus s (es @ fs) t \<longleftrightarrow> (\<exists>u. sys_run net bus s es u \<and> sys_run net bus u fs t)"
  by (induction es arbitrary: s) (auto simp: sys_run_simps)

text \<open>Right after a cycle the newest entry of the panel's queue is the state of the daemon.\<close>

lemma cycle_published:
  assumes "sys_step net bus s0 (Cycle i outs) s"
  shows "last (ib_last (pn_backend (sy_panel s)) # ib_state_rx (pn_backend (sy_panel s))) =
    ctl_snapshot (sy_control s)"
  using assms by (auto elim!: sys_step_cycleE simp: sy_cycle_eq Let_def ctl_snapshot_after)

lemma frame_snapshot:
  "fst (pn_frame ipc_be evs p) = last (ib_last (pn_backend p) # ib_state_rx (pn_backend p))"
  by (simp add: pn_frame_def Let_def del: last.simps)

text \<open>C8. End to end from the gate to the screen: in the system started together, after any history of
  frames, cycles and losses that ends with a cycle, the next frame shows the daemon's state, and
  the total on the screen is the stored total plus the openings of the gate the daemon has seen
  on a healthy bus (rising edges of the debounced input), while the PIN has been out of reach
  (fewer than ten digit presses, so no reset of the total).\<close>

theorem screen_total_counts_gate_openings:
  assumes "sys_run net bus (sy_start (ctl_init counters) w f) (history @ [Cycle i outs]) s"
    and "sum_list (map spins history) < 10"
    and "(snap, p) = pn_frame ipc_be evs (sy_panel s)"
  shows "snap = ctl_snapshot (sy_control s)
    \<and> vw_total_text (push_view snap p) = show_nat (min (unat (cn_total (cs_counters counters))
        + bale_edges (db_new DEBOUNCE False) (map fst (cycles (history @ [Cycle i outs])))) (2 ^ 64 - 1))"
proof -
  let ?es = "history @ [Cycle i outs]"
  obtain u where "sys_step net bus u (Cycle i outs) s"
    using assms(1) by (auto simp: sys_run_append sys_run_simps)
  from cycle_published [OF this] have snap: "snap = ctl_snapshot (sy_control s)"
    using assms(3) frame_snapshot [of evs "sy_panel s"] by (metis fst_conv)
  obtain xs where xs: "map fst xs = map fst (cycles ?es)"
      "(sy_control s, sy_world s) = run_end (ctl_step net bus) (ctl_init counters, w) xs"
      "\<forall>x\<in>set xs. \<forall>c\<in>set (snd x). \<not> gated c"
    using sys_daemon_run [OF assms(1)] assms(2) by (auto simp: spins_def)
  have d: "ct_open_db (ctl_init counters) = db_new DEBOUNCE False"
      "ct_last_open_level (ctl_init counters) = db_level (db_new DEBOUNCE False)"
      "ct_counters (ctl_init counters) = counters"
    by (simp_all add: ctl_init_def) (simp add: db_new_def)
  have "\<forall>ic\<in>set xs. ResetTotal \<notin> set (snd ic)" using xs(3) by (auto simp: gated_def)
  then have "unat (total_of (sy_control s)) = min (unat (cn_total (cs_counters counters))
      + bale_edges (db_new DEBOUNCE False) (map fst (cycles ?es))) (2 ^ 64 - 1)"
    using ctl_run_total [of "(ctl_init counters, w)" xs net bus]
    unfolding xs(2) [symmetric] fst_conv d xs(1) by (simp add: db_wf_new)
  then show ?thesis
    by (simp add: snap push_view_def Let_def ctl_snapshot_def cs_snapshot_def)
qed

text \<open>A gate held open for five cycles shows as one bale.\<close>

theorem screen_total_counts_gate_openings_witness:
  "\<exists>history outs s. sys_run sim_network noop_bus (sy_start (ctl_init demo_store) demo_world empty_fs)
      (history @ [Cycle (demo_inputs\<lparr>in_bale_open := True\<rparr>) outs]) s
    \<and> (\<exists>snap p. (snap, p) = pn_frame ipc_be [] (sy_panel s) \<and> vw_total_text (push_view snap p) = [49])"
proof -
  let ?i = "demo_inputs\<lparr>in_bale_open := True\<rparr>"
  let ?s0 = "sy_start (ctl_init demo_store) demo_world empty_fs"
  obtain history u where h: "sys_run sim_network noop_bus ?s0 history u"
      "map fst (cycles history) = replicate 4 ?i" "sum_list (map spins history) = 0"
    using sys_run_cycles by blast
  obtain outs s where "sy_cycle sim_network noop_bus ?i u = Some (outs, s)" by (simp add: sy_cycle_eq Let_def)
  then have r: "sys_run sim_network noop_bus ?s0 (history @ [Cycle ?i outs]) s"
    using h(1) by (auto simp: sys_run_append sys_run_simps intro: sys_step.cycle)
  have app: "cycles (as @ bs) = cycles as @ cycles bs" for as bs
    by (induction as rule: cycles.induct) simp_all
  have edges: "bale_edges (db_new DEBOUNCE False) (replicate 4 ?i @ [?i]) = 1"
    by code_simp
  obtain snap p where e: "(snap, p) = pn_frame ipc_be [] (sy_panel s)" by (metis surj_pair)
  have "vw_total_text (push_view snap p) = show_nat 1"
    using screen_total_counts_gate_openings [OF r _ e, THEN conjunct2] h(2,3) edges
    by (simp add: app demo_store_def counters_default_def)
  then have t: "vw_total_text (push_view snap p) = [49]" by (simp add: show_nat.simps)
  show ?thesis by (intro exI conjI) (rule r, rule e, rule t)
qed

subsection \<open>The network key out of step\<close>

text \<open>A switch the daemon refuses leaves it operational and the ports untouched.\<close>

lemma switch_refused:
  assumes "in_healthy i" "bs_mode (ct_state c) \<noteq> Ethernet" "ct_manual_io_remaining c = 0"
    and "cmd = EnterEthernet \<and> ctl_any_active c \<or> cmd = ReturnToEthercat"
  shows "bs_mode (ct_state (fst (snd (ctl_step net bus (c, w) (i, [cmd]))))) = Operational"
    and "w_bus (snd (snd (ctl_step net bus (c, w) (i, [cmd])))) = w_bus w"
    and "w_net (snd (snd (ctl_step net bus (c, w) (i, [cmd])))) = w_net w"
    and "ct_manual_io_remaining (fst (snd (ctl_step net bus (c, w) (i, [cmd])))) = 0"
proof -
  let ?p = "ctl_pre i (c, w)"
  have z: "ct_manual_io_remaining (fst ?p) = 0" using assms(3) by simp
  have m: "bs_mode (ct_state (fst ?p)) = Operational"
    using assms(1,2) by (simp add: on_bus_health_mode)
  have a: "ctl_any_active (fst ?p) = ctl_any_active c" by (simp add: ctl_any_active_def)
  have n: "\<not> is_manual_io cmd" using assms(4) by auto
  have r: "fst (bs_handle cmd (ctl_any_active c) (ct_state (fst ?p))) = Inl (if cmd = EnterEthernet then NotIdle else NotInEthernet)"
      "snd (bs_handle cmd (ctl_any_active c) (ct_state (fst ?p))) = ct_state (fst ?p)"
    using assms(4) m by auto
  have b: "ctl_body net bus (c, w) (i, [cmd]) = ((fst ?p)\<lparr>ct_state := ct_state (fst ?p)\<rparr>, snd ?p)"
    by (simp add: ctl_body_def ctl_commands_single [OF z n] a r ctl_action_def)
  show "bs_mode (ct_state (fst (snd (ctl_step net bus (c, w) (i, [cmd]))))) = Operational"
    using m by (simp add: ctl_step_fields b)
  show "w_bus (snd (snd (ctl_step net bus (c, w) (i, [cmd])))) = w_bus w"
    by (simp add: ctl_step_fields b)
  show "w_net (snd (snd (ctl_step net bus (c, w) (i, [cmd])))) = w_net w"
    by (simp add: ctl_step_fields b)
  show "ct_manual_io_remaining (fst (snd (ctl_step net bus (c, w) (i, [cmd])))) = 0"
    using assms(3) n by (simp add: ctl_step_fields ctl_remaining_def)
qed

text \<open>A press of the network key on the unlocked service screen of an operational machine.\<close>

lemma network_key_frame:
  assumes "pn_nav p = NavService" "sv_unlocked (pn_service p)" "ib_cmd_tx (pn_backend p) = []"
    and "ss_mode (last (ib_last (pn_backend p) # ib_state_rx (pn_backend p))) = Operational"
  defines "q \<equiv> snd (pn_frame ipc_be [Pressed F4] p)" and "e \<equiv> sv_ethernet_selected (pn_service p)"
  shows "ib_cmd_tx (pn_backend q) = [if e then ReturnToEthercat else EnterEthernet]"
    and "pn_nav q = NavService" "pn_service q = (pn_service p)\<lparr>sv_ethernet_selected := \<not> e\<rparr>"
    and "ib_state_rx (pn_backend q) = []"
  using assms(1-4) unfolding q_def e_def
  by (auto simp: pn_frame_def Let_def pn_event_def remap_fkey_def pn_service_press_def pn_send_def
      next_nav_def simp del: last.simps)

text \<open>C38. The switch of the network can get out of step. On the unlocked service screen with EtherCAT
  selected, a press of the network key while a pulse is running asks the daemon for Ethernet,
  which it refuses: it stays operational and its ports are not called. But the next frame, though
  its snapshot says operational, shows Ethernet as selected and so offers the return. The next
  press, whether the pulse is over or not, then asks for the return to EtherCAT instead of
  Ethernet, which the daemon refuses too: after two presses and two cycles no switch has
  happened, and only a third press would ask for Ethernet again.\<close>

theorem network_key_out_of_step:
  assumes "sys_run net bus s0 [Frame [Pressed F4]] s1" "sys_run net bus s1 [Cycle i1 o1] s2"
    and "sys_run net bus s2 [Frame [Pressed F4]] s3" "sys_run net bus s3 [Cycle i2 o2] s4"
    and "pn_nav (sy_panel s0) = NavService" "sv_unlocked (pn_service (sy_panel s0))"
    and "\<not> sv_ethernet_selected (pn_service (sy_panel s0))" "ib_cmd_tx (pn_backend (sy_panel s0)) = []"
    and "ss_mode (fst (be_step ipc_be (pn_backend (sy_panel s0)))) = Operational"
    and "bs_mode (ct_state (sy_control s0)) = Operational" "ct_manual_io_remaining (sy_control s0) = 0"
    and "ctl_any_active (sy_control s0)" "in_healthy i1" "in_healthy i2"
    and "(snap, p) = pn_frame ipc_be [] (sy_panel s2)"
  shows "ib_cmd_tx (pn_backend (sy_panel s1)) = [EnterEthernet]
    \<and> bs_mode (ct_state (sy_control s2)) = Operational
    \<and> w_bus (sy_world s2) = w_bus (sy_world s0) \<and> w_net (sy_world s2) = w_net (sy_world s0)
    \<and> ss_mode snap = Operational \<and> vw_ethernet_selected (push_view snap p)
    \<and> ib_cmd_tx (pn_backend (sy_panel s3)) = [ReturnToEthercat]
    \<and> bs_mode (ct_state (sy_control s4)) = Operational
    \<and> w_bus (sy_world s4) = w_bus (sy_world s0) \<and> w_net (sy_world s4) = w_net (sy_world s0)
    \<and> \<not> sv_ethernet_selected (pn_service (sy_panel s4)) \<and> ib_cmd_tx (pn_backend (sy_panel s4)) = []"
proof -
  let ?shown = "\<lambda>s. ss_mode (last (ib_last (pn_backend (sy_panel s)) # ib_state_rx (pn_backend (sy_panel s))))"
  have f1: "s1 = s0\<lparr>sy_panel := snd (pn_frame ipc_be [Pressed F4] (sy_panel s0))\<rparr>"
    and c1: "sy_cycle net bus i1 s1 = Some (o1, s2)"
    and f2: "s3 = s2\<lparr>sy_panel := snd (pn_frame ipc_be [Pressed F4] (sy_panel s2))\<rparr>"
    and c2: "sy_cycle net bus i2 s3 = Some (o2, s4)"
    using assms(1-4) by (auto simp: sys_run_simps elim!: sys_step_frameE sys_step_cycleE)
  have m0: "?shown s0 = Operational" using assms(9) by (simp del: last.simps)
  note k1 = network_key_frame [OF assms(5,6,8) m0]
  let ?r = "ctl_step net bus (sy_control s0, sy_world s0) (i1, [EnterEthernet])"
  have q1: "ib_cmd_tx (pn_backend (sy_panel s1)) = [EnterEthernet]" using k1(1) assms(7) by (simp add: f1)
  have d1: "sy_control s2 = fst (snd ?r)" "sy_world s2 = snd (snd ?r)"
      "pn_nav (sy_panel s2) = NavService" "pn_service (sy_panel s2) = (pn_service (sy_panel s0))\<lparr>sv_ethernet_selected := True\<rparr>"
      "ib_cmd_tx (pn_backend (sy_panel s2)) = []" "ib_state_rx (pn_backend (sy_panel s2)) = [snd (fst ?r)]"
    using c1 k1 assms(7) by (auto simp: f1 sy_cycle_eq Let_def)
  have ne: "bs_mode (ct_state (sy_control s0)) \<noteq> Ethernet" using assms(10) by simp
  have no: "EnterEthernet = EnterEthernet \<and> ctl_any_active (sy_control s0) \<or> EnterEthernet = ReturnToEthercat"
    using assms(12) by simp
  note r1 = switch_refused [OF assms(13) ne assms(11) no, of net bus "sy_world s0", folded d1(1,2)]
  have m1: "?shown s2 = Operational"
    using r1(1) d1(1) by (simp add: d1(6) ctl_snapshot_after ctl_snapshot_def Let_def)
  have snap: "ss_mode snap = Operational"
    using assms(15) frame_snapshot [of "[]" "sy_panel s2"] m1 by (metis fst_conv)
  have view: "vw_ethernet_selected (push_view snap p)"
    using assms(15) by (auto simp: pn_frame_def Let_def push_view_def d1(3,4) pn_send_def split: if_splits)
  have u: "sv_unlocked (pn_service (sy_panel s2))" using assms(6) d1(4) by (simp add: sv_unlocked_def)
  note k2 = network_key_frame [OF d1(3) u d1(5) m1]
  have q3: "ib_cmd_tx (pn_backend (sy_panel s3)) = [ReturnToEthercat]" using k2(1) d1(4) by (simp add: f2)
  let ?t = "ctl_step net bus (sy_control s2, sy_world s2) (i2, [ReturnToEthercat])"
  have d2: "sy_control s4 = fst (snd ?t)" "sy_world s4 = snd (snd ?t)"
      "\<not> sv_ethernet_selected (pn_service (sy_panel s4))" "ib_cmd_tx (pn_backend (sy_panel s4)) = []"
    using c2 k2 d1(4) by (auto simp: f2 sy_cycle_eq Let_def)
  have ne2: "bs_mode (ct_state (sy_control s2)) \<noteq> Ethernet" using r1(1) by simp
  note r2 = switch_refused [OF assms(14) ne2 r1(4), of ReturnToEthercat net bus "sy_world s2", folded d2(1,2)]
  show ?thesis using q1 r1 snap view q3 r2 d2(3,4) by simp
qed

text \<open>The operator wraps, opens the service screen and enters the PIN while the pulse runs.\<close>

definition digit_key :: "button \<Rightarrow> service_state \<Rightarrow> service_state" where
  "digit_key b s =
     (if b = KeyUp then sv_spin 1 s
      else if b = KeyRight \<and> sv_cursor s < 3 then s\<lparr>sv_cursor := sv_cursor s + 1\<rparr> else s)"

lemma service_digits:
  assumes "pn_nav p = NavService" "set keys \<subseteq> {KeyUp, KeyRight}"
  shows "fold (pn_event be) (map Pressed keys) p = p\<lparr>pn_service := fold digit_key keys (pn_service p)\<rparr>"
  using assms
proof (induction keys arbitrary: p)
  case Nil
  then show ?case by simp
next
  case (Cons k keys)
  then have "pn_event be (Pressed k) p = p\<lparr>pn_service := digit_key k (pn_service p)\<rparr>"
    by (auto simp: pn_event_def remap_fkey_def pn_service_press_def digit_key_def Let_def)
  then show ?case using Cons by simp
qed

lemma pin_entered:
  "fold digit_key [KeyUp, KeyRight, KeyUp, KeyUp, KeyRight, KeyUp, KeyUp, KeyUp, KeyRight, KeyUp, KeyUp, KeyUp, KeyUp]
    (sv_reset s) = \<lparr>sv_pin = SERVICE_PIN, sv_cursor = 3, sv_ethernet_selected = sv_ethernet_selected s\<rparr>"
proof -
  have r: "sv_reset s = \<lparr>sv_pin = [0, 0, 0, 0], sv_cursor = 0, sv_ethernet_selected = sv_ethernet_selected s\<rparr>"
    by (simp add: sv_reset_def)
  show ?thesis unfolding r by (simp add: digit_key_def sv_spin_def SERVICE_PIN_def)
qed

lemma pin_frame:
  assumes "pn_nav p = NavMain" "ss_mode (last (ib_last (pn_backend p) # ib_state_rx (pn_backend p))) = Operational"
  defines "q \<equiv> snd (pn_frame ipc_be (Pressed F5 # pin_keys) p)"
  shows "pn_nav q = NavService" "sv_unlocked (pn_service q)"
    "sv_ethernet_selected (pn_service q) = sv_ethernet_selected (pn_service p)"
    "ib_cmd_tx (pn_backend q) = ib_cmd_tx (pn_backend p)" "ib_state_rx (pn_backend q) = []"
    "ib_last (pn_backend q) = last (ib_last (pn_backend p) # ib_state_rx (pn_backend p))"
proof -
  let ?p1 = "p\<lparr>pn_backend := snd (be_step ipc_be (pn_backend p)), pn_nav := NavMain\<rparr>"
  let ?p2 = "?p1\<lparr>pn_service := sv_reset (pn_service p), pn_nav := NavService\<rparr>"
  have f5: "pn_event ipc_be (Pressed F5) ?p1 = ?p2"
    by (simp add: pn_event_def remap_fkey_def pn_main_press_def)
  let ?ks = "[KeyUp, KeyRight, KeyUp, KeyUp, KeyRight, KeyUp, KeyUp, KeyUp, KeyRight, KeyUp, KeyUp, KeyUp, KeyUp]"
  have n: "pn_nav ?p2 = NavService" and sv: "pn_service ?p2 = sv_reset (pn_service p)"
    and k: "set ?ks \<subseteq> {KeyUp, KeyRight}" by simp_all
  have "fold (pn_event ipc_be) (Pressed F5 # pin_keys) ?p1 = ?p2\<lparr>pn_service :=
      \<lparr>sv_pin = SERVICE_PIN, sv_cursor = 3, sv_ethernet_selected = sv_ethernet_selected (pn_service p)\<rparr>\<rparr>"
    unfolding pin_keys_def fold_simps(2) f5 service_digits [OF n k] sv fold_simps pin_entered [unfolded fold_simps] ..
  then have "q = ?p2\<lparr>pn_service :=
      \<lparr>sv_pin = SERVICE_PIN, sv_cursor = 3, sv_ethernet_selected = sv_ethernet_selected (pn_service p)\<rparr>\<rparr>"
    using assms(1,2) by (simp add: q_def pn_frame_def Let_def next_nav_def del: last.simps fold.simps)
  then show "pn_nav q = NavService" "sv_unlocked (pn_service q)"
      "sv_ethernet_selected (pn_service q) = sv_ethernet_selected (pn_service p)"
      "ib_cmd_tx (pn_backend q) = ib_cmd_tx (pn_backend p)" "ib_state_rx (pn_backend q) = []"
      "ib_last (pn_backend q) = last (ib_last (pn_backend p) # ib_state_rx (pn_backend p))"
    by (simp_all add: sv_unlocked_def del: last.simps)
qed

lemma sys_run_frame: "\<exists>s. sys_run net bus s0 [Frame evs] s"
  and sys_run_cycle: "\<exists>outs s. sys_run net bus s0 [Cycle i outs] s"
  by (auto simp: sys_run_simps sy_cycle_eq Let_def intro!: sys_step.intros exI)

text \<open>From the start of the two programs into the run of the property, every condition shown.\<close>

theorem network_key_out_of_step_witness:
  "\<exists>o0 o1 o2 s0 s1 s2 s3 s4.
      sys_run sim_network noop_bus (sy_start (ctl_init demo_store) demo_world empty_fs)
        [Frame [Pressed F6], Cycle demo_inputs o0, Frame (Pressed F5 # pin_keys)] s0
    \<and> sys_run sim_network noop_bus s0 [Frame [Pressed F4]] s1 \<and> sys_run sim_network noop_bus s1 [Cycle demo_inputs o1] s2
    \<and> sys_run sim_network noop_bus s2 [Frame [Pressed F4]] s3 \<and> sys_run sim_network noop_bus s3 [Cycle demo_inputs o2] s4
    \<and> ctl_any_active (sy_control s0) \<and> ib_cmd_tx (pn_backend (sy_panel s1)) = [EnterEthernet]
    \<and> bs_mode (ct_state (sy_control s2)) = Operational
    \<and> ib_cmd_tx (pn_backend (sy_panel s3)) = [ReturnToEthercat] \<and> bs_mode (ct_state (sy_control s4)) = Operational"
proof -
  let ?b = "sy_start (ctl_init demo_store) demo_world empty_fs"
  let ?a = "?b\<lparr>sy_panel := snd (pn_frame ipc_be [Pressed F6] (sy_panel ?b))\<rparr>"
  have q: "ib_cmd_tx (pn_backend (sy_panel ?a)) = [Wrap]" "sy_control ?a = ctl_init demo_store" "sy_world ?a = demo_world"
      "pn_nav (sy_panel ?a) = NavMain" "\<not> sv_ethernet_selected (pn_service (sy_panel ?a))"
    by (simp_all add: sy_start_def pn_start_def split_beta ipc_initial_def pn_frame_def Let_def pn_event_def
        remap_fkey_def pn_main_press_def pn_send_def next_nav_def sv_new_def)
  obtain o0 u where c: "sy_cycle sim_network noop_bus demo_inputs ?a = Some (o0, u)"
    by (simp add: sy_cycle_eq Let_def)
  let ?r = "snd (ctl_step sim_network noop_bus (ctl_init demo_store, demo_world) (demo_inputs, [Wrap]))"
  have u: "sy_control u = fst ?r" "pn_nav (sy_panel u) = NavMain" "ib_cmd_tx (pn_backend (sy_panel u)) = []"
      "\<not> sv_ethernet_selected (pn_service (sy_panel u))"
    using c q by (auto simp: sy_cycle_eq Let_def)
  have shown: "ss_mode (last (ib_last (pn_backend (sy_panel u)) # ib_state_rx (pn_backend (sy_panel u)))) = Operational"
    using cycle_published [OF sys_step.cycle [OF c]] first_wrap(2) u(1) by (simp add: ctl_snapshot_def Let_def)
  let ?s0 = "u\<lparr>sy_panel := snd (pn_frame ipc_be (Pressed F5 # pin_keys) (sy_panel u))\<rparr>"
  note p = pin_frame [OF u(2) shown]
  have h: "sys_run sim_network noop_bus ?b [Frame [Pressed F6], Cycle demo_inputs o0, Frame (Pressed F5 # pin_keys)] ?s0"
    by (intro run_cons [OF sys_step.frame] run_cons [OF sys_step.cycle [OF c]] run_nil)
  obtain s1 where s1: "sys_run sim_network noop_bus ?s0 [Frame [Pressed F4]] s1" using sys_run_frame by blast
  obtain o1 s2 where s2: "sys_run sim_network noop_bus s1 [Cycle demo_inputs o1] s2" using sys_run_cycle by blast
  obtain s3 where s3: "sys_run sim_network noop_bus s2 [Frame [Pressed F4]] s3" using sys_run_frame by blast
  obtain o2 s4 where s4: "sys_run sim_network noop_bus s3 [Cycle demo_inputs o2] s4" using sys_run_cycle by blast
  obtain snap w where w: "(snap, w) = pn_frame ipc_be [] (sy_panel s2)" by (metis surj_pair)
  have any: "ctl_any_active (sy_control ?s0)" using first_wrap(1) u(1) by (simp add: ctl_any_active_def pe_is_active_def)
  have conds: "pn_nav (sy_panel ?s0) = NavService" "sv_unlocked (pn_service (sy_panel ?s0))"
      "\<not> sv_ethernet_selected (pn_service (sy_panel ?s0))" "ib_cmd_tx (pn_backend (sy_panel ?s0)) = []"
      "ss_mode (fst (be_step ipc_be (pn_backend (sy_panel ?s0)))) = Operational"
      "bs_mode (ct_state (sy_control ?s0)) = Operational" "ct_manual_io_remaining (sy_control ?s0) = 0"
    using p u shown first_wrap(2,3) by (simp_all del: last.simps) simp_all
  have healthy: "in_healthy demo_inputs" by (simp add: demo_inputs_def)
  show ?thesis
    using network_key_out_of_step [OF s1 s2 s3 s4 conds any healthy healthy w] h s1 s2 s3 s4 any by blast
qed

end
