(* ===== verification/ControlSpec.thy ===== *)
theory ControlSpec
  imports ControlPulse
begin

text \<open>
  What the control cycle promises, written without its data structures: pulses as numbers of
  cycles left, one knife motion with a direction instead of two interlocked engines, debounced
  levels as a function of the raw samples seen, counts as natural numbers. The cycle of
  \<open>control.rs\<close> is shown to implement it on every run, by a simulation relation that every
  block of the cycle keeps.
\<close>

subsection \<open>The specification\<close>

text \<open>The debounced level of a line from its samples, newest first: the value of the latest
  three equal samples in a row, low before there were any.\<close>

fun settled :: "bool list \<Rightarrow> bool" where
  "settled (x # y # z # rest) = (if x = y \<and> y = z then x else settled (y # z # rest))"
| "settled _ = False"

datatype knife_motion = Resting | Moving bool nat

fun moving :: "bool \<Rightarrow> knife_motion \<Rightarrow> bool" where
  "moving d (Moving d' n) \<longleftrightarrow> d = d'"
| "moving d Resting \<longleftrightarrow> False"

record spec =
  sp_mode :: mode
  sp_hist :: "inputs list"
  sp_wrap :: nat
  sp_knife :: knife_motion
  sp_latch :: nat
  sp_manual :: nat
  sp_keys :: "bool \<times> bool \<times> bool"
  sp_session :: nat
  sp_total :: nat

record spec_view =
  sw_outputs :: outputs
  sw_mode :: mode
  sw_full :: bool
  sw_knife :: knife_pos
  sw_armed :: bool
  sw_latched :: bool
  sw_wrapping :: bool
  sw_cutting :: bool
  sw_session :: nat
  sw_total :: nat
  sw_raw :: "bool \<times> bool \<times> bool"

definition full_level :: "inputs list \<Rightarrow> bool" where
  "full_level h = settled (map in_bale_full h)"

definition knife_level :: "inputs list \<Rightarrow> bool" where
  "knife_level h = settled (map in_knife_in h)"

definition open_level :: "inputs list \<Rightarrow> bool" where
  "open_level h = settled (map in_bale_open h)"

definition cap64 :: "nat \<Rightarrow> nat" where
  "cap64 n = min n (2 ^ 64 - 1)"

definition spec_init :: "nat \<Rightarrow> nat \<Rightarrow> spec" where
  "spec_init ses tot =
     \<lparr>sp_mode = Initializing, sp_hist = [], sp_wrap = 0, sp_knife = Resting, sp_latch = 0,
      sp_manual = 0, sp_keys = (False, False, False), sp_session = ses, sp_total = tot\<rparr>"

text \<open>The beginning of a cycle: mode, levels, the bale count, the attention latch.\<close>

definition spec_sense :: "inputs \<Rightarrow> spec \<Rightarrow> spec" where
  "spec_sense i s =
     (let h = i # sp_hist s;
          bale = (in_healthy i \<and> open_level h \<and> \<not> open_level (sp_hist s))
      in s\<lparr>sp_hist := h,
           sp_mode := (if sp_mode s = Ethernet then Ethernet
                       else if in_healthy i then Operational
                       else if sp_mode s = Initializing then Initializing else Fault),
           sp_session := (if bale then cap64 (sp_session s + 1) else sp_session s),
           sp_total := (if bale then cap64 (sp_total s + 1) else sp_total s),
           sp_latch := (if in_healthy i \<and> full_level h then 2000 else sp_latch s - 1)\<rparr>)"

fun spec_command :: "command \<Rightarrow> spec \<Rightarrow> spec" where
  "spec_command Wrap s =
     (if sp_mode s = Operational
      then s\<lparr>sp_wrap := (if sp_wrap s = 0 then 500 else sp_wrap s), sp_latch := 0\<rparr> else s)"
| "spec_command ToggleKnife s =
     (if sp_mode s = Operational \<and> sp_knife s = Resting
      then s\<lparr>sp_knife := Moving (knife_level (sp_hist s)) 500\<rparr> else s)"
| "spec_command ResetSession s = s\<lparr>sp_session := 0\<rparr>"
| "spec_command (AdjustSession d) s =
     s\<lparr>sp_session := cap64 (nat (int (sp_session s) + sint d))\<rparr>"
| "spec_command ResetTotal s = s\<lparr>sp_total := 0\<rparr>"
| "spec_command EnterEthernet s =
     (if sp_mode s = Operational \<and> (sp_wrap s \<noteq> 0 \<or> sp_knife s \<noteq> Resting) then s
      else s\<lparr>sp_mode := Ethernet\<rparr>)"
| "spec_command ReturnToEthercat s =
     (if sp_mode s = Ethernet then s\<lparr>sp_mode := Initializing\<rparr> else s)"
| "spec_command (ManualIo a b d) s = s\<lparr>sp_keys := (a, b, d)\<rparr>"

text \<open>While the test screen drives the outputs every other command is ignored.\<close>

definition spec_commands :: "command list \<Rightarrow> spec \<Rightarrow> spec" where
  "spec_commands cmds s =
     fold spec_command (if sp_manual s = 0 then cmds else filter is_manual_io cmds) s"

definition knife_tick :: "bool \<Rightarrow> knife_motion \<Rightarrow> knife_motion" where
  "knife_tick healthy k =
     (case k of Moving d n \<Rightarrow> if healthy \<and> 1 < n then Moving d (n - 1) else Resting
      | Resting \<Rightarrow> Resting)"

definition spec_drive :: "inputs \<Rightarrow> bool \<Rightarrow> spec \<Rightarrow> outputs \<times> spec" where
  "spec_drive i manual s0 =
     (let s = s0\<lparr>sp_manual := (if manual then 30 else sp_manual s0 - 1)\<rparr> in
      if sp_manual s \<noteq> 0 then
        let (a, b, d) = sp_keys s; h = in_healthy i
        in (\<lparr>out_wrap = (h \<and> a), out_knives_in = (h \<and> b), out_knives_out = (h \<and> d \<and> \<not> b)\<rparr>, s)
      else
        let s1 = s\<lparr>sp_wrap := (if in_healthy i then sp_wrap s - 1 else 0),
                   sp_knife := knife_tick (in_healthy i) (sp_knife s)\<rparr>
        in (\<lparr>out_wrap = (sp_wrap s1 \<noteq> 0),
             out_knives_in = moving True (sp_knife s1),
             out_knives_out = moving False (sp_knife s1)\<rparr>, s1))"

definition spec_view_of :: "inputs \<Rightarrow> outputs \<Rightarrow> spec \<Rightarrow> spec_view" where
  "spec_view_of i out1 s =
     (let up = (sp_mode s = Operational); full = (up \<and> full_level (sp_hist s)) in
      \<lparr>sw_outputs = out1, sw_mode = sp_mode s, sw_full = full,
       sw_knife = (if \<not> up then KUnknown else if knife_level (sp_hist s) then KIn else KOut),
       sw_armed = full, sw_latched = (sp_latch s \<noteq> 0), sw_wrapping = (sp_wrap s \<noteq> 0),
       sw_cutting = (sp_knife s \<noteq> Resting), sw_session = sp_session s, sw_total = sp_total s,
       sw_raw = (in_bale_full i, in_knife_in i, in_bale_open i)\<rparr>)"

definition spec_step :: "spec \<Rightarrow> inputs \<times> command list \<Rightarrow> spec_view \<times> spec" where
  "spec_step s ic =
     (let (i, cmds) = ic;
          (out1, s') = spec_drive i (\<exists>c\<in>set cmds. is_manual_io c) (spec_commands cmds (spec_sense i s))
      in (spec_view_of i out1 s', s'))"

text \<open>What of the cycle's outputs and snapshot the specification speaks of: all of it but the
  static address, which the network port answers.\<close>

definition observe :: "outputs \<times> state_snapshot \<Rightarrow> spec_view" where
  "observe os =
     (let (out1, v) = os in
      \<lparr>sw_outputs = out1, sw_mode = ss_mode v, sw_full = ss_bale_full v, sw_knife = ss_knife v,
       sw_armed = ss_wrap_armed v, sw_latched = ss_full_latched v, sw_wrapping = ss_wrap_active v,
       sw_cutting = ss_knife_active v, sw_session = unat (ss_session v), sw_total = unat (ss_total v),
       sw_raw = (ss_di1 v, ss_di2 v, ss_di3 v)\<rparr>)"

subsection \<open>Simulation of step functions\<close>

text \<open>
  A step function that implements another: related states answer each input with the same view
  and stay related, so the runs show the same.
\<close>

locale step_simulation =
  fixes cstep :: "'c \<Rightarrow> 'i \<Rightarrow> 'o \<times> 'c"
    and astep :: "'a \<Rightarrow> 'i \<Rightarrow> 'v \<times> 'a"
    and view :: "'o \<Rightarrow> 'v"
    and sim :: "'c \<Rightarrow> 'a \<Rightarrow> bool"
  assumes sim_view: "sim c a \<Longrightarrow> view (fst (cstep c x)) = fst (astep a x)"
    and sim_next: "sim c a \<Longrightarrow> sim (snd (cstep c x)) (snd (astep a x))"
begin

lemma sim_run_end: "sim c a \<Longrightarrow> sim (run_end cstep c xs) (run_end astep a xs)"
  by (induction xs arbitrary: c a) (auto intro: sim_next)

lemma sim_run_outs: "sim c a \<Longrightarrow> map view (run_outs cstep c xs) = run_outs astep a xs"
  by (induction xs arbitrary: c a) (auto intro: sim_next simp: sim_view)

end

subsection \<open>The parts of the state\<close>

text \<open>A pulse engine with \<open>n\<close> cycles left.\<close>

definition pulse_left :: "pulse_engine \<Rightarrow> nat \<Rightarrow> bool" where
  "pulse_left p n \<longleftrightarrow> pe_wf p \<and> pe_duration p = PULSE \<and> n \<le> 500
     \<and> (if n = 0 then \<not> pe_active p else pe_at (500 - n) p)"

lemma pulse_left_new: "pulse_left (pe_new PULSE) 0"
  by (simp add: pulse_left_def pe_wf_new)

lemma pulse_left_0 [simp]:
  "pulse_left p 0 \<longleftrightarrow> pe_wf p \<and> pe_duration p = PULSE \<and> \<not> pe_active p"
  by (simp add: pulse_left_def)

lemma pulse_left_pos:
  "0 < n \<Longrightarrow> pulse_left p n \<longleftrightarrow> n \<le> 500 \<and> pe_at (500 - n) p"
  by (auto simp: pulse_left_def pe_at_def)

lemma pulse_left_active: "pulse_left p n \<Longrightarrow> pe_active p \<longleftrightarrow> n \<noteq> 0"
  unfolding pulse_left_def pe_at_def by presburger

lemma pulse_left_trigger:
  assumes "pulse_left p n"
  shows "pulse_left (snd (pe_trigger p)) (if n = 0 then 500 else n)"
proof (cases "n = 0")
  case True
  then show ?thesis using assms pe_at_trigger [of p] by (simp add: pulse_left_pos)
next
  case False
  then show ?thesis using assms pulse_left_active [OF assms] by simp
qed

lemma pulse_left_tick:
  assumes "pulse_left p n"
  shows "pulse_left (snd (pe_tick SCAN h p)) (if h then n - 1 else 0)"
proof (cases "n = 0 \<or> \<not> h")
  case True
  have "pe_wf p" "pe_duration p = PULSE" using assms by (simp_all add: pulse_left_def)
  moreover have "\<not> pe_active (snd (pe_tick SCAN h p))"
    using True pulse_left_active [OF assms] by (cases h) auto
  moreover have "(if h then n - 1 else 0) = 0" using True by auto
  ultimately show ?thesis by (simp only: pulse_left_0) (simp add: pe_wf_tick)
next
  case False
  then have at: "pe_at (500 - n) p" and n: "0 < n" "n \<le> 500" and h
    using assms by (simp_all add: pulse_left_pos)
  have k: "500 - n < 500" using n by simp
  have wf: "pe_wf p" "pe_duration p = PULSE" using assms by (simp_all add: pulse_left_def)
  show ?thesis
  proof (cases "n = 1")
    case True
    then show ?thesis using pe_at_tick [OF at k] \<open>h\<close> wf by (simp add: pe_wf_tick)
  next
    case False
    then have "500 - n < 499" "Suc (500 - n) = 500 - (n - 1)" "0 < n - 1" "n - 1 \<le> 500"
      using n by auto
    then show ?thesis using pe_at_tick [OF at k] \<open>h\<close> by (simp add: pulse_left_pos)
  qed
qed

text \<open>The two knife engines are one motion.\<close>

definition knife_sim :: "pulse_engine \<Rightarrow> pulse_engine \<Rightarrow> knife_motion \<Rightarrow> bool" where
  "knife_sim p q k \<longleftrightarrow>
     (case k of Resting \<Rightarrow> pulse_left p 0 \<and> pulse_left q 0
      | Moving d n \<Rightarrow> 0 < n \<and> pulse_left (if d then p else q) n \<and> pulse_left (if d then q else p) 0)"

lemma knife_sim_active:
  "knife_sim p q k \<Longrightarrow> pe_active p \<longleftrightarrow> moving True k"
  "knife_sim p q k \<Longrightarrow> pe_active q \<longleftrightarrow> moving False k"
  by (cases k; auto simp: knife_sim_def pulse_left_active split: if_splits)+

lemma moving_Resting: "k \<noteq> Resting \<longleftrightarrow> moving True k \<or> moving False k"
  by (cases k) auto

lemma knife_sim_fire:
  "knife_sim p q Resting \<Longrightarrow> knife_sim (snd (pe_trigger p)) q (Moving True 500)"
  "knife_sim p q Resting \<Longrightarrow> knife_sim p (snd (pe_trigger q)) (Moving False 500)"
  using pulse_left_trigger [of p 0] pulse_left_trigger [of q 0] by (simp_all add: knife_sim_def)

lemma knife_sim_Moving:
  "knife_sim p q (Moving d n) \<longleftrightarrow>
     0 < n \<and> pulse_left (if d then p else q) n \<and> pulse_left (if d then q else p) 0"
  by (simp add: knife_sim_def)

lemma knife_sim_Resting: "knife_sim p q Resting \<longleftrightarrow> pulse_left p 0 \<and> pulse_left q 0"
  by (simp add: knife_sim_def)

lemma pulse_left_idle_tick: "pulse_left p 0 \<Longrightarrow> pulse_left (snd (pe_tick SCAN h p)) 0"
  using pulse_left_tick [of p 0 h] by (cases h) simp_all

lemma knife_sim_tick:
  assumes "knife_sim p q k"
  shows "knife_sim (snd (pe_tick SCAN h p)) (snd (pe_tick SCAN h q)) (knife_tick h k)"
proof (cases k)
  case Resting
  then show ?thesis
    using assms by (simp add: knife_sim_Resting knife_tick_def pulse_left_idle_tick del: pulse_left_0)
next
  case (Moving d n)
  define m where "m = (if h then n - 1 else 0)"
  have a: "pulse_left (if d then p else q) n" and i: "pulse_left (if d then q else p) 0"
    using assms Moving by (auto simp: knife_sim_Moving)
  have "pulse_left (snd (pe_tick SCAN h (if d then p else q))) m"
    unfolding m_def by (rule pulse_left_tick [OF a])
  moreover have "pulse_left (snd (pe_tick SCAN h (if d then q else p))) 0"
    by (rule pulse_left_idle_tick [OF i])
  moreover have "knife_tick h k = (if m = 0 then Resting else Moving d m)"
    by (auto simp: Moving knife_tick_def m_def)
  ultimately show ?thesis
    by (cases d; cases "m = 0") (simp_all add: knife_sim_Moving knife_sim_Resting del: pulse_left_0)
qed

text \<open>A debouncer that has seen the samples \<open>h\<close>, newest first.\<close>

definition db_seen :: "debouncer \<Rightarrow> bool list \<Rightarrow> bool" where
  "db_seen d h \<longleftrightarrow> d = run_end db_update (db_new DEBOUNCE False) (rev h)"

lemma db_seen_update: "db_seen d h \<Longrightarrow> db_seen (snd (db_update d x)) (x # h)"
  by (simp add: db_seen_def run_end_snoc)

lemma db_seen_wf: "db_seen d h \<Longrightarrow> db_wf d"
  unfolding db_seen_def by (simp add: db_run.run_inv [OF db_wf_new])

lemma trail_rev_Cons: "trail v (rev (x # h)) = (if x = v then Suc (trail v (rev h)) else 0)"
  by simp

lemma trail_rev_3: "3 \<le> trail v (rev h) \<longleftrightarrow> (\<exists>t. h = v # v # v # t)"
proof (cases h rule: settled.cases)
  case (1 x y z rest)
  then show ?thesis by (auto simp del: rev.simps simp add: trail_rev_Cons)
qed (auto simp del: rev.simps(2) simp add: trail_rev_Cons)

lemma settled_Cons: "settled (x # h) = (if \<exists>t. h = x # x # t then x else settled h)"
proof (cases h)
  case Nil
  then show ?thesis by simp
next
  case h: (Cons y h')
  show ?thesis
  proof (cases h')
    case Nil
    then show ?thesis by (simp add: h)
  next
    case (Cons z rest)
    then show ?thesis unfolding h by (cases x; cases y; cases z) simp_all
  qed
qed

lemma db_seen_level: "db_seen d h \<Longrightarrow> db_level d = settled h"
proof (induction h arbitrary: d)
  case Nil
  then show ?case by (simp add: db_seen_def db_new_def)
next
  case (Cons x h)
  let ?e = "run_end db_update (db_new DEBOUNCE False) (rev h)"
  have base: "db_wf (db_new DEBOUNCE False)" "unat (db_count (db_new DEBOUNCE False)) = 0"
    by (rule db_wf_new, simp add: db_new_def)
  note i = db_count_trail [OF base, of "rev h"]
  have thr: "unat (db_threshold ?e) = 3" using i by (simp add: db_new_def DEBOUNCE_def max_def word_le_nat_alt)
  have "d = snd (db_update ?e x)" using Cons.prems by (simp add: db_seen_def run_end_snoc)
  then have "db_level d = (if 3 \<le> trail x (rev (x # h)) then x else db_level ?e)"
    using db_level_trail [of ?e "rev h" x] i thr by simp
  then show ?case
    using Cons.IH [of ?e] by (simp add: trail_rev_3 settled_Cons db_seen_def del: rev.simps settled.simps)
qed

subsection \<open>The simulation\<close>

definition represents :: "control \<Rightarrow> spec \<Rightarrow> bool" where
  "represents c s \<longleftrightarrow>
     bs_wf (ct_state c) \<and> bs_mode (ct_state c) = sp_mode s
     \<and> (sp_mode s = Operational \<longrightarrow> bs_bale_full (ct_state c) = full_level (sp_hist s)
          \<and> bs_knife_in (ct_state c) = Some (knife_level (sp_hist s)))
     \<and> pulse_left (ct_wrap c) (sp_wrap s)
     \<and> knife_sim (ct_knives_in c) (ct_knives_out c) (sp_knife s)
     \<and> db_seen (ct_full_db c) (map in_bale_full (sp_hist s))
     \<and> db_seen (ct_knife_db c) (map in_knife_in (sp_hist s))
     \<and> db_seen (ct_open_db c) (map in_bale_open (sp_hist s))
     \<and> ct_last_open_level c = open_level (sp_hist s)
     \<and> unat (ct_full_latch_remaining c) = sp_latch s
     \<and> unat (ct_manual_io_remaining c) = sp_manual s
     \<and> (ct_manual_wrap c, ct_manual_knives_in c, ct_manual_knives_out c) = sp_keys s
     \<and> unat (cn_session (cs_counters (ct_counters c))) = sp_session s
     \<and> unat (cn_total (cs_counters (ct_counters c))) = sp_total s
     \<and> (\<forall>i t. sp_hist s = i # t \<longrightarrow> ct_last_di1 c = in_bale_full i \<and> ct_last_di2 c = in_knife_in i
          \<and> ct_last_di3 c = in_bale_open i)"

lemma represents_init:
  "represents (ctl_init counters) (spec_init (unat (cn_session (cs_counters counters)))
     (unat (cn_total (cs_counters counters))))"
  by (simp add: represents_def ctl_init_def spec_init_def bs_wf_def bs_new_def pe_wf_new
      knife_sim_Resting db_seen_def open_level_def)

lemma unat_sat_succ: "unat (sat_add x 1) = cap64 (unat x + 1)" for x :: u64
  by (simp add: unat_sat_add cap64_def)

lemma represents_levels:
  assumes "represents c s"
  shows "db_level (snd (db_update (ct_full_db c) (in_bale_full i))) = full_level (i # sp_hist s)"
    and "db_level (snd (db_update (ct_knife_db c) (in_knife_in i))) = knife_level (i # sp_hist s)"
    and "db_level (snd (db_update (ct_open_db c) (in_bale_open i))) = open_level (i # sp_hist s)"
  using assms db_seen_level [OF db_seen_update]
  unfolding represents_def full_level_def knife_level_def open_level_def by simp_all

lemma represents_sense:
  assumes "represents (fst cw) s"
  shows "represents (fst (ctl_pre i cw)) (spec_sense i s)"
proof -
  note r = assms [unfolded represents_def]
  note l = represents_levels [OF assms]
  have latch: "unat (ct_full_latch_remaining (fst (ctl_pre i cw))) = sp_latch (spec_sense i s)"
    using r by (cases "0 < ct_full_latch_remaining (fst cw)")
      (simp_all add: ctl_pre_latch l spec_sense_def Let_def FULL_LATCH_CYCLES_def unat_pred
        word_gt_0 unat_eq_zero)
  have st: "ct_state (fst (ctl_pre i cw)) =
      (if in_healthy i then on_inputs (full_level (i # sp_hist s)) (knife_level (i # sp_hist s))
          (on_bus_health True (ct_state (fst cw)))
       else on_bus_health False (ct_state (fst cw)))"
    using l by (simp add: ctl_pre_def ctl_inputs_def ctl_count_def ctl_latch_def Let_def split_beta)
  have cn: "cs_counters (ct_counters (fst (ctl_pre i cw))) =
      (let c = cs_counters (ct_counters (fst cw)) in
       if in_healthy i \<and> open_level (i # sp_hist s) \<and> \<not> open_level (sp_hist s)
       then c\<lparr>cn_session := sat_add (cn_session c) 1, cn_total := sat_add (cn_total c) 1\<rparr> else c)"
    using l r by (simp add: ctl_pre_def ctl_inputs_def ctl_count_def ctl_latch_def Let_def split_beta
        increment_bale_def cs_update_def)
  have di: "ct_last_di1 (fst (ctl_pre i cw)) = in_bale_full i"
      "ct_last_di2 (fst (ctl_pre i cw)) = in_knife_in i"
      "ct_last_di3 (fst (ctl_pre i cw)) = in_bale_open i"
    by (simp_all add: ctl_pre_def ctl_inputs_def ctl_count_def ctl_latch_def Let_def split_beta)
  have wf: "bs_wf (ct_state (fst (ctl_pre i cw)))"
    using r by (simp add: st bs_wf_inputs bs_wf_health)
  have mode: "bs_mode (ct_state (fst (ctl_pre i cw))) = sp_mode (spec_sense i s)"
    using r by (simp add: on_bus_health_mode spec_sense_def Let_def)
  have status: "bs_bale_full (ct_state (fst (ctl_pre i cw))) = full_level (i # sp_hist s)
      \<and> bs_knife_in (ct_state (fst (ctl_pre i cw))) = Some (knife_level (i # sp_hist s))"
    if "sp_mode (spec_sense i s) = Operational"
    using that r by (auto simp: st on_inputs_def on_bus_health_mode spec_sense_def Let_def split: if_splits)
  have hist: "sp_hist (spec_sense i s) = i # sp_hist s" by (simp add: spec_sense_def Let_def)
  have kept: "sp_wrap (spec_sense i s) = sp_wrap s" "sp_knife (spec_sense i s) = sp_knife s"
      "sp_manual (spec_sense i s) = sp_manual s" "sp_keys (spec_sense i s) = sp_keys s"
    by (simp_all add: spec_sense_def Let_def)
  have counts: "unat (cn_session (cs_counters (ct_counters (fst (ctl_pre i cw))))) =
        sp_session (spec_sense i s)"
      "unat (cn_total (cs_counters (ct_counters (fst (ctl_pre i cw))))) = sp_total (spec_sense i s)"
    using r by (simp_all add: cn spec_sense_def Let_def unat_sat_succ)
  show ?thesis
    unfolding represents_def
    using r wf mode status by (simp add: hist kept counts latch di l db_seen_update)
qed

text \<open>One iteration of the command loop in normal control.\<close>

lemma unat_adjust:
  "unat (sat_add_signed x (scast d :: i64)) = cap64 (nat (int (unat x) + sint (d :: i8)))" for x :: u64
proof -
  have "sint (scast d :: i64) = sint d" by (rule sint_up_scast) (simp add: is_up)
  then have "uint (sat_add_signed x (scast d :: i64)) = max 0 (min (uint x + sint d) (2 ^ 64 - 1))"
    by (simp add: uint_sat_add_signed)
  moreover have "nat (max 0 (min a b)) = min (nat a) (nat b)" for a b :: int by linarith
  moreover have "int (unat x) = uint x" by simp
  ultimately show ?thesis by (simp only: cap64_def flip: nat_uint_eq) (simp add: nat_diff_distrib)
qed

lemma represents_counts:
  assumes "represents c s"
  shows "represents (c\<lparr>ct_counters := k\<rparr>)
    (s\<lparr>sp_session := unat (cn_session (cs_counters k)), sp_total := unat (cn_total (cs_counters k))\<rparr>)"
  using assms by (simp add: represents_def)

lemma represents_active:
  assumes "represents c s"
  shows "pe_active (ct_wrap c) \<longleftrightarrow> sp_wrap s \<noteq> 0"
    and "ctl_knife_active c \<longleftrightarrow> sp_knife s \<noteq> Resting"
    and "ctl_any_active c \<longleftrightarrow> sp_wrap s \<noteq> 0 \<or> sp_knife s \<noteq> Resting"
  using assms knife_sim_active [of "ct_knives_in c" "ct_knives_out c" "sp_knife s"]
  by (auto simp: represents_def pulse_left_active ctl_knife_active_def ctl_any_active_def
      pe_is_active_def moving_Resting)

lemma represents_mode:
  assumes "represents c s" "bs_wf t" "bs_mode t \<noteq> Operational"
  shows "represents (c\<lparr>ct_state := t, ct_last_ip := ip\<rparr>) (s\<lparr>sp_mode := bs_mode t\<rparr>)"
  using assms by (simp add: represents_def)

lemma represents_enter:
  fixes net :: "'n net_port" and bus :: "'b bus_port" and c :: control and s :: spec and k :: bool
    and w :: "('n, 'b) world"
  assumes "represents c s"
  defines "h \<equiv> bs_handle EnterEthernet (ctl_any_active c) (ct_state c)"
  shows "represents (fst (ctl_action net bus k (fst h) (c\<lparr>ct_state := snd h\<rparr>, w)))
    (spec_command EnterEthernet s)"
proof -
  note r = assms(1) [unfolded represents_def] and a = represents_active [OF assms(1)]
  have wf: "bs_wf (snd h)" unfolding h_def using r by (simp add: bs_wf_handle del: bs_handle.simps)
  show ?thesis
  proof (cases "sp_mode s = Ethernet \<or> sp_mode s = Operational \<and> ctl_any_active c")
    case True
    then have "fst h = Inl (if sp_mode s = Ethernet then AlreadyEthernet else NotIdle)"
        "snd h = ct_state c"
      unfolding h_def using r by (cases "sp_mode s"; simp)+
    moreover have "spec_command EnterEthernet s = s" using True a(3) by auto
    ultimately show ?thesis using assms(1) by (simp add: ctl_action_def)
  next
    case False
    then have "fst h = Inr SwitchToEthernet" "bs_mode (snd h) = Ethernet"
      unfolding h_def using r by (simp_all add: bs_handle_accepts bs_handle_mode del: bs_handle.simps)
    moreover have "spec_command EnterEthernet s = s\<lparr>sp_mode := Ethernet\<rparr>"
      using False a(3) by simp
    ultimately show ?thesis using represents_mode [OF assms(1) wf]
      by (simp add: ctl_action_def Let_def split_beta)
  qed
qed

lemma represents_command:
  assumes "represents c s" "sp_manual s = 0" "\<not> is_manual_io cmd"
  shows "represents (fst (snd (ctl_command net bus cmd (g, c, w)))) (spec_command cmd s)"
proof -
  note r = assms(1) [unfolded represents_def]
  have z: "ct_manual_io_remaining c = 0" using r assms(2) by (simp add: unat_eq_zero)
  have op: "require_operational (ct_state c) = (if sp_mode s = Operational then Inr () else Inl NotReady)"
    using r by (simp add: require_operational_def)
  have wf: "bs_wf (snd (bs_handle cmd (ctl_any_active c) (ct_state c)))"
    using r by (simp add: bs_wf_handle)
  note e = ctl_command_normal [OF z assms(3), of net bus g w]
  note a = represents_active [OF assms(1)]
  let ?h = "bs_handle cmd (ctl_any_active c) (ct_state c)"
  have "represents (fst (ctl_action net bus (ctl_knife_active c) (fst ?h) (c\<lparr>ct_state := snd ?h\<rparr>, w)))
    (spec_command cmd s)"
  proof (cases cmd)
    case Wrap
    then show ?thesis
      using r by (simp add: op ctl_action_def represents_def pulse_left_trigger)
  next
    case ToggleKnife
    then show ?thesis
      using r knife_sim_fire [of "ct_knives_in c" "ct_knives_out c"] db_seen_level
      by (auto simp: op a ctl_action_def represents_def knife_level_def)
  next
    case ResetSession
    then show ?thesis
      using r by (simp add: ctl_action_def represents_def cs_ops_defs cs_update_def Let_def split_beta)
  next
    case (AdjustSession d)
    then show ?thesis
      using r by (simp add: ctl_action_def represents_def cs_ops_defs cs_update_def Let_def split_beta
          unat_adjust)
  next
    case ResetTotal
    then show ?thesis
      using r by (simp add: ctl_action_def represents_def cs_ops_defs cs_update_def Let_def split_beta)
  next
    case EnterEthernet
    show ?thesis unfolding EnterEthernet by (rule represents_enter [OF assms(1)])
  next
    case ReturnToEthercat
    then show ?thesis
      using r wf represents_mode [OF assms(1), of "(ct_state c)\<lparr>bs_mode := Initializing\<rparr>" None] assms(1)
      by (auto simp: ctl_action_def Let_def split_beta)
  next
    case (ManualIo x y z)
    then show ?thesis using assms(3) by simp
  qed
  then show ?thesis by (simp add: e)
qed

text \<open>The command loop: the specification drops what the loop ignores.\<close>

definition spec_take :: "command \<Rightarrow> spec \<Rightarrow> spec" where
  "spec_take cmd s = (if sp_manual s = 0 \<or> is_manual_io cmd then spec_command cmd s else s)"

lemma spec_command_manual [simp]: "sp_manual (spec_command cmd s) = sp_manual s"
  by (cases cmd) simp_all

lemma spec_commands_take: "spec_commands cmds s = fold spec_take cmds s"
proof -
  have "fold spec_command (if m = 0 then cmds else filter is_manual_io cmds) s = fold spec_take cmds s"
    if "sp_manual s = m" for m
    using that by (induction cmds arbitrary: s) (auto simp: spec_take_def split: if_splits)
  then show ?thesis by (simp add: spec_commands_def)
qed

lemma represents_take:
  assumes "represents c s"
  shows "represents (fst (snd (ctl_command net bus cmd (g, c, w)))) (spec_take cmd s)"
proof (cases "is_manual_io cmd")
  case True
  then show ?thesis using assms by (cases cmd) (simp_all add: spec_take_def represents_def)
next
  case m: False
  show ?thesis
  proof (cases "sp_manual s = 0")
    case True
    then show ?thesis using represents_command [OF assms True m] by (simp add: spec_take_def)
  next
    case False
    then have "0 < ct_manual_io_remaining c"
      using assms unfolding represents_def by (auto simp: word_gt_0)
    then show ?thesis using assms m False by (simp add: ctl_command_ignored spec_take_def)
  qed
qed

lemma represents_commands:
  assumes "represents (fst cw) s"
  shows "represents (fst (snd (ctl_commands net bus cmds cw))) (spec_commands cmds s)"
proof -
  have "represents (fst (snd (fold (ctl_command net bus) cmds gcw))) (fold spec_take cmds s)"
    if "represents (fst (snd gcw)) s" for gcw s
    using that
  proof (induction cmds arbitrary: gcw s)
    case Nil
    then show ?case by simp
  next
    case (Cons cmd cmds)
    then show ?case
      using represents_take [of "fst (snd gcw)" s net bus cmd "fst gcw" "snd (snd gcw)"] by simp
  qed
  from this [of "(False, cw)"] show ?thesis
    using assms by (simp add: ctl_commands_def spec_commands_take)
qed

text \<open>The watchdog and the outputs.\<close>

lemma last_di_watchdog:
  "ct_last_di1 (ctl_watchdog g c) = ct_last_di1 c"
  "ct_last_di2 (ctl_watchdog g c) = ct_last_di2 c"
  "ct_last_di3 (ctl_watchdog g c) = ct_last_di3 c"
  by (simp_all add: ctl_watchdog_def)

lemma represents_drive:
  fixes c :: control and s :: spec and i :: inputs and g :: bool
  assumes "represents c s"
  defines "o1 \<equiv> ctl_outputs i (ctl_watchdog g c)" and "o2 \<equiv> spec_drive i g s"
  shows "represents (snd o1) (snd o2) \<and> fst o1 = fst o2"
proof -
  note r = assms(1) [unfolded represents_def]
  define m where "m = (if g then 30 else sp_manual s - 1)"
  have rem: "unat (ct_manual_io_remaining (ctl_watchdog g c)) = m"
    using r by (auto simp: ctl_watchdog_def m_def MANUAL_IO_WATCHDOG_def unat_pred word_gt_0)
  have pos: "0 < ct_manual_io_remaining (ctl_watchdog g c) \<longleftrightarrow> m \<noteq> 0"
    using rem by (simp add: word_less_nat_alt)
  show ?thesis
  proof (cases "m = 0")
    case True
    define n where "n = (if in_healthy i then sp_wrap s - 1 else 0)"
    define k where "k = knife_tick (in_healthy i) (sp_knife s)"
    have w: "pulse_left (snd (pe_tick SCAN (in_healthy i) (ct_wrap c))) n"
      unfolding n_def using r by (simp only: pulse_left_tick)
    have k: "knife_sim (snd (pe_tick SCAN (in_healthy i) (ct_knives_in c)))
        (snd (pe_tick SCAN (in_healthy i) (ct_knives_out c))) k"
      unfolding k_def using r by (simp only: knife_sim_tick)
    let ?o = "\<lparr>out_wrap = (n \<noteq> 0), out_knives_in = moving True k, out_knives_out = moving False k\<rparr>"
    have z: "ct_manual_io_remaining (ctl_watchdog g c) = 0"
      using True rem by (simp add: unat_eq_zero)
    then have o1: "fst o1 = ?o" "snd o1 = (ctl_watchdog g c)
        \<lparr>ct_wrap := snd (pe_tick SCAN (in_healthy i) (ct_wrap c)),
         ct_knives_in := snd (pe_tick SCAN (in_healthy i) (ct_knives_in c)),
         ct_knives_out := snd (pe_tick SCAN (in_healthy i) (ct_knives_out c))\<rparr>"
      using pulse_left_active [OF w] knife_sim_active [OF k]
      by (simp_all add: o1_def ctl_outputs_def Let_def pe_output_def)
    have o2: "o2 = (?o, s\<lparr>sp_manual := m, sp_wrap := n, sp_knife := k\<rparr>)"
      using True by (simp add: o2_def spec_drive_def Let_def n_def k_def flip: m_def)
    show ?thesis
      using r w k True z unfolding represents_def o2 o1 by (simp add: last_di_watchdog)
  next
    case False
    obtain a b d where keys: "sp_keys s = (a, b, d)" by (metis prod_cases3)
    let ?o = "\<lparr>out_wrap = (in_healthy i \<and> a), out_knives_in = (in_healthy i \<and> b),
        out_knives_out = (in_healthy i \<and> d \<and> \<not> b)\<rparr>"
    have o1: "fst o1 = ?o" "snd o1 = ctl_watchdog g c"
      using False pos r keys by (auto simp: o1_def ctl_outputs_def Let_def)
    have o2: "o2 = (?o, s\<lparr>sp_manual := m\<rparr>)"
      using False keys by (simp add: o2_def spec_drive_def Let_def flip: m_def)
    show ?thesis
      using r rem unfolding represents_def o2 o1 by (simp add: last_di_watchdog)
  qed
qed

lemma represents_view:
  assumes "represents c s" "sp_hist s = i # t"
  shows "observe (out1, ctl_snapshot c) = spec_view_of i out1 s"
proof -
  note r = assms(1) [unfolded represents_def]
  have down: "sp_mode s \<noteq> Operational \<Longrightarrow>
      \<not> bs_bale_full (ct_state c) \<and> bs_knife_in (ct_state c) = None"
    using r by (auto simp: bs_wf_def)
  have raw: "ct_last_di1 c = in_bale_full i" "ct_last_di2 c = in_knife_in i" "ct_last_di3 c = in_bale_open i"
    using r assms(2) by simp_all
  have act: "pe_active (ct_wrap c) \<longleftrightarrow> sp_wrap s \<noteq> 0"
      "(pe_active (ct_knives_in c) \<or> pe_active (ct_knives_out c)) \<longleftrightarrow> sp_knife s \<noteq> Resting"
    using represents_active [OF assms(1)] by (simp_all add: pe_is_active_def ctl_knife_active_def)
  have latch: "0 < ct_full_latch_remaining c \<longleftrightarrow> sp_latch s \<noteq> 0"
    using r by (simp add: word_less_nat_alt)
  have mode: "bs_mode (ct_state c) = sp_mode s" using r by simp
  have st: "bs_bale_full (ct_state c) = (sp_mode s = Operational \<and> full_level (sp_hist s))"
      "knife_pos_of (bs_knife_in (ct_state c)) =
        (if sp_mode s \<noteq> Operational then KUnknown else if knife_level (sp_hist s) then KIn else KOut)"
    using r down by (cases "sp_mode s = Operational"; simp add: knife_pos_of_def)+
  have cn: "unat (cn_session (cs_counters (ct_counters c))) = sp_session s"
      "unat (cn_total (cs_counters (ct_counters c))) = sp_total s"
    using r by simp_all
  show ?thesis
    by (simp add: observe_def ctl_snapshot_def spec_view_of_def Let_def cs_snapshot_def
        bs_wrap_armed_def pe_is_active_def act raw latch mode st cn)
qed

interpretation ctl_spec: step_simulation "ctl_step net bus" spec_step observe
    "\<lambda>cw s. represents (fst cw) s"
  for net :: "'n net_port" and bus :: "'b bus_port"
proof unfold_locales
  fix cw :: "control \<times> ('n, 'b) world" and s :: spec and x :: "inputs \<times> command list"
  assume r: "represents (fst cw) s"
  obtain i cmds where x: "x = (i, cmds)" by fastforce
  let ?b = "fst (ctl_body net bus cw x)" and ?g = "\<exists>c\<in>set cmds. is_manual_io c"
  let ?t = "spec_commands cmds (spec_sense i s)"
  have b: "represents ?b ?t"
    using represents_commands [OF represents_sense [OF r]] by (simp add: ctl_body_def x)
  note d = represents_drive [OF b, where i = i and g = ?g]
  have e: "fst (snd (ctl_step net bus cw x)) = snd (ctl_outputs i (ctl_watchdog ?g ?b))"
      "fst (ctl_step net bus cw x) =
        (fst (ctl_outputs i (ctl_watchdog ?g ?b)), ctl_snapshot (fst (snd (ctl_step net bus cw x))))"
      "snd (spec_step s x) = snd (spec_drive i ?g ?t)"
      "fst (spec_step s x) = spec_view_of i (fst (spec_drive i ?g ?t)) (snd (spec_step s x))"
    by (simp_all add: ctl_step_eq spec_step_def x Let_def split_beta)
  show n: "represents (fst (snd (ctl_step net bus cw x))) (snd (spec_step s x))"
    using d by (simp only: e)
  have hist: "sp_hist (spec_take c u) = sp_hist u" for c u
    by (cases c) (simp_all add: spec_take_def)
  have "sp_hist (fold spec_take cs u) = sp_hist u" for cs u
    by (induction cs arbitrary: u) (simp_all add: hist)
  then have "sp_hist (snd (spec_step s x)) = i # sp_hist s"
    by (simp add: e spec_drive_def spec_commands_take spec_sense_def Let_def split_beta)
  from represents_view [OF n this] d show "observe (fst (ctl_step net bus cw x)) = fst (spec_step s x)"
    by (simp only: e(2,4))
qed

subsection \<open>The property\<close>

text \<open>C3. The control cycle implements its specification: over any run from power-up, for any
  inputs and commands and whatever the disk, the network port and the bus port do, the outputs
  and the published snapshot of every cycle (the static address apart) are those of the
  specification, in which pulses are numbers of cycles left, the two knife outputs one motion
  with a direction, the levels the latest three equal samples and the counts natural numbers.\<close>

theorem control_refines_spec:
  "map observe (run_outs (ctl_step net bus) (ctl_init counters, w) xs) =
   run_outs spec_step
     (spec_init (unat (cn_session (cs_counters counters))) (unat (cn_total (cs_counters counters)))) xs"
  by (rule ctl_spec.sim_run_outs) (simp add: represents_init)

end
