(* ===== verification/SystemRest.thy ===== *)
theory SystemRest
  imports ControlSpec SystemProps
begin

text \<open>
  A panel that dies. When no frame of the panel runs any more, the daemon goes on cycling: it
  drains what is still queued, its watchdog on manual-IO runs out, and the pulses come to their
  end. The machine is at rest after a bounded number of cycles. The argument is made on the
  specification of the control cycle, where what is left of every motion is a number.
\<close>

subsection \<open>Steps that descend\<close>

locale descending =
  fixes step :: "'s \<Rightarrow> 'i \<Rightarrow> 'o \<times> 's"
    and idle :: "'i \<Rightarrow> bool"
    and left :: "'s \<Rightarrow> nat"
  assumes descends: "idle x \<Longrightarrow> left (snd (step s x)) \<le> left s - 1"
begin

lemma left_run: "list_all idle xs \<Longrightarrow> left (run_end step s xs) \<le> left s - length xs"
proof (induction xs arbitrary: s)
  case Nil
  then show ?case by simp
next
  case (Cons x xs)
  then have "left (run_end step (snd (step s x)) xs) \<le> left (snd (step s x)) - length xs" by simp
  also have "\<dots> \<le> left s - 1 - length xs" using Cons.prems descends [of x s] by (intro diff_le_mono) simp
  finally show ?case by simp
qed

end

subsection \<open>What is left of the motions\<close>

fun knife_left :: "knife_motion \<Rightarrow> nat" where
  "knife_left Resting = 0"
| "knife_left (Moving d n) = n"

definition motion_left :: "spec \<Rightarrow> nat" where
  "motion_left s = sp_manual s + max (sp_wrap s) (knife_left (sp_knife s))"

definition spec_bounded :: "spec \<Rightarrow> bool" where
  "spec_bounded s \<longleftrightarrow> sp_manual s \<le> 30 \<and> sp_wrap s \<le> 500 \<and> knife_left (sp_knife s) \<le> 500"

lemma knife_left_tick: "knife_left (knife_tick h k) \<le> knife_left k - 1"
  by (cases k) (auto simp: knife_tick_def)

lemma moving_tick: "moving d (knife_tick h k) \<Longrightarrow> knife_left (knife_tick h k) \<noteq> 0"
  by (cases k) (auto simp: knife_tick_def split: if_splits)

lemma sense_motion [simp]:
  "sp_manual (spec_sense i s) = sp_manual s" "sp_wrap (spec_sense i s) = sp_wrap s"
  "sp_knife (spec_sense i s) = sp_knife s"
  by (simp_all add: spec_sense_def Let_def)

lemma bounded_command: "spec_bounded s \<Longrightarrow> spec_bounded (spec_command c s)"
  by (cases c) (auto simp: spec_bounded_def)

lemma bounded_drive: "spec_bounded s \<Longrightarrow> spec_bounded (snd (spec_drive i m s))"
  using knife_left_tick [of "in_healthy i" "sp_knife s"]
  by (auto simp: spec_bounded_def spec_drive_def Let_def split_beta)

lemma bounded_step: "spec_bounded s \<Longrightarrow> spec_bounded (snd (spec_step s x))"
proof -
  assume b: "spec_bounded s"
  have "spec_bounded (fold spec_command cs u)" if "spec_bounded u" for cs u
    using that by (induction cs arbitrary: u) (simp_all add: bounded_command)
  then have "spec_bounded (spec_commands cs (spec_sense i s))" for cs i
    unfolding spec_commands_def using b by (simp add: spec_bounded_def)
  then show ?thesis
    using bounded_drive by (simp add: spec_step_def split_beta Let_def)
qed

text \<open>A cycle with no command: what is left shrinks, and with nothing left all outputs are low.\<close>

definition at_rest :: outputs where
  "at_rest = \<lparr>out_wrap = False, out_knives_in = False, out_knives_out = False\<rparr>"

lemma idle_step:
  "spec_step s (i, []) = (let (o1, s') = spec_drive i False (spec_sense i s) in (spec_view_of i o1 s', s'))"
  by (simp add: spec_step_def spec_commands_def)

interpretation idle_spec: descending spec_step "\<lambda>x. snd x = []" motion_left
proof
  fix x :: "inputs \<times> command list" and s
  assume "snd x = []"
  then obtain i where x: "x = (i, [])" by (cases x) simp
  show "motion_left (snd (spec_step s x)) \<le> motion_left s - 1"
    using knife_left_tick [of "in_healthy i" "sp_knife s"]
    by (auto simp: x idle_step motion_left_def spec_drive_def Let_def split_beta)
qed

lemma drive_rest:
  assumes "motion_left (snd (spec_drive i False s)) = 0"
  shows "fst (spec_drive i False s) = at_rest"
proof (cases "sp_manual s - 1 = 0")
  case True
  let ?k = "knife_tick (in_healthy i) (sp_knife s)"
  have w: "(if in_healthy i then sp_wrap s - 1 else 0) = 0" and k: "knife_left ?k = 0"
    using assms True by (simp_all add: spec_drive_def motion_left_def Let_def split: if_splits)
  have "\<not> moving d ?k" for d using k moving_tick by blast
  then show ?thesis
    using True w by (cases "in_healthy i") (simp_all add: spec_drive_def at_rest_def Let_def)
next
  case False
  then show ?thesis using assms by (simp add: spec_drive_def motion_left_def Let_def split_beta)
qed

lemma view_outputs: "sw_outputs (spec_view_of i o1 s) = o1"
  by (simp add: spec_view_of_def Let_def)

lemma rest_outputs:
  assumes "motion_left (snd (spec_step s (i, []))) = 0"
  shows "sw_outputs (fst (spec_step s (i, []))) = at_rest"
proof -
  have "spec_step s (i, []) =
      (let r = spec_drive i False (spec_sense i s) in (spec_view_of i (fst r) (snd r), snd r))"
    by (simp only: idle_step Let_def split_beta)
  then show ?thesis
    using assms drive_rest [of i "spec_sense i s"] by (simp only: Let_def fst_conv snd_conv view_outputs)
qed

lemma rest_at:
  assumes "spec_bounded s" "list_all (\<lambda>x. snd x = []) xs" "529 \<le> n" "n < length xs"
  shows "sw_outputs (run_outs spec_step s xs ! n) = at_rest"
proof -
  let ?u = "run_end spec_step s (take n xs)"
  have "snd (xs ! n) = []" using assms(2,4) by (simp add: list_all_length)
  then obtain i where x: "xs ! n = (i, [])" by (cases "xs ! n") simp
  have "list_all (\<lambda>x. snd x = []) (take (Suc n) xs)"
    using assms(2) set_take_subset [of "Suc n" xs] unfolding list_all_iff by blast
  then have "motion_left (run_end spec_step s (take (Suc n) xs)) \<le> motion_left s - Suc n"
    using idle_spec.left_run [of "take (Suc n) xs" s] assms(4) by simp
  moreover have "motion_left s \<le> 530" using assms(1) by (auto simp: spec_bounded_def motion_left_def max_def)
  ultimately have "motion_left (snd (spec_step ?u (i, []))) = 0"
    using assms(3,4) x by (simp add: take_Suc_conv_app_nth run_end_append)
  then show ?thesis using rest_outputs x assms(4) by (simp add: nth_run_outs)
qed

lemma rest_from:
  assumes "spec_bounded s" "list_all (\<lambda>x. snd x = []) xs"
  shows "\<forall>v\<in>set (drop 529 (run_outs spec_step s xs)). sw_outputs v = at_rest"
proof
  fix v assume "v \<in> set (drop 529 (run_outs spec_step s xs))"
  then obtain k where "k < length xs - 529" "v = run_outs spec_step s xs ! (529 + k)"
    by (auto simp: in_set_conv_nth)
  then show "sw_outputs v = at_rest" using rest_at [OF assms, of "529 + k"] by simp
qed

subsection \<open>The system without its panel\<close>

definition unattended :: "sys_event \<Rightarrow> bool" where
  "unattended e \<longleftrightarrow> (case e of Frame _ \<Rightarrow> False | _ \<Rightarrow> True)"

lemma unattended_simps [simp]:
  "\<not> unattended (Frame evs)" "unattended (Cycle i outs)" "unattended Loss"
  by (simp_all add: unattended_def)

definition sy_bounded :: "('n, 'b) system \<Rightarrow> bool" where
  "sy_bounded s \<longleftrightarrow> (\<exists>a. represents (sy_control s) a \<and> spec_bounded a)"

lemma cycle_represents:
  assumes "sys_step net bus s (Cycle i outs) s'" "represents (sy_control s) a"
  defines "r \<equiv> spec_step a (i, ib_cmd_tx (pn_backend (sy_panel s)))"
  shows "represents (sy_control s') (snd r) \<and> outs = sw_outputs (fst r)
    \<and> ib_cmd_tx (pn_backend (sy_panel s')) = []"
proof -
  let ?cw = "(sy_control s, sy_world s)" and ?x = "(i, ib_cmd_tx (pn_backend (sy_panel s)))"
  have st: "outs = fst (fst (ctl_step net bus ?cw ?x))" "sy_control s' = fst (snd (ctl_step net bus ?cw ?x))"
      "ib_cmd_tx (pn_backend (sy_panel s')) = []"
    using assms(1) by (auto elim!: sys_step_cycleE simp: sy_cycle_eq Let_def)
  have o1: "sw_outputs (observe os) = fst os" for os by (simp add: observe_def split_beta)
  have rep: "represents (fst ?cw) a" using assms(2) by simp
  show ?thesis
    using ctl_spec.sim_next [OF rep, of net bus ?x] ctl_spec.sim_view [OF rep, of net bus ?x] o1 st
    unfolding r_def by metis
qed

lemma bounded_sys_step:
  "sys_step net bus s e s' \<Longrightarrow> sy_bounded s \<Longrightarrow> sy_bounded s'"
proof (induction rule: sys_step.induct)
  case (cycle i s outs s')
  then obtain a where a: "represents (sy_control s) a" "spec_bounded a" by (auto simp: sy_bounded_def)
  show ?case
    using cycle_represents [OF sys_step.cycle [OF cycle(1)] a(1)] bounded_step [OF a(2)]
    unfolding sy_bounded_def by blast
qed (simp_all add: sy_bounded_def)

lemma bounded_sys_run: "sys_run net bus s es s' \<Longrightarrow> sy_bounded s \<Longrightarrow> sy_bounded s'"
  by (induction rule: sys_run.induct) (auto intro: bounded_sys_step)

lemma bounded_sys_start: "sy_bounded (sy_start (ctl_init counters) w f)"
proof -
  have "spec_bounded (spec_init m n)" for m n by (simp add: spec_bounded_def spec_init_def)
  then show ?thesis using represents_init [of counters] by (auto simp: sy_bounded_def sy_start_def)
qed

text \<open>With nothing queued and no panel, the daemon runs on empty batches.\<close>

lemma silent_run:
  "sys_run net bus s es s' \<Longrightarrow> list_all unattended es \<Longrightarrow> ib_cmd_tx (pn_backend (sy_panel s)) = [] \<Longrightarrow>
   represents (sy_control s) a \<Longrightarrow>
   map snd (cycles es) = map sw_outputs (run_outs spec_step a (map (\<lambda>io. (fst io, [])) (cycles es)))"
proof (induction arbitrary: a rule: sys_run.induct)
  case (run_nil s)
  then show ?case by simp
next
  case (run_cons s e s' es s'')
  show ?case
  proof (cases e)
    case (Frame evs)
    then show ?thesis using run_cons.prems by simp
  next
    case (Cycle i outs)
    have c: "represents (sy_control s') (snd (spec_step a (i, []))) \<and> outs = sw_outputs (fst (spec_step a (i, [])))
        \<and> ib_cmd_tx (pn_backend (sy_panel s')) = []"
      using cycle_represents [of net bus s i outs s' a] run_cons(1) run_cons.prems Cycle by simp
    then have "map snd (cycles es) =
        map sw_outputs (run_outs spec_step (snd (spec_step a (i, []))) (map (\<lambda>io. (fst io, [])) (cycles es)))"
      using run_cons.IH run_cons.prems by simp
    then show ?thesis using c Cycle by simp
  next
    case Loss
    then have "ib_cmd_tx (pn_backend (sy_panel s')) = []" "sy_control s' = sy_control s"
      using run_cons(1) run_cons.prems by (auto elim!: sys_step_lossE)
    then show ?thesis using run_cons.IH [of a] run_cons.prems Loss by simp
  qed
qed

lemma silence_rests:
  "sys_run net bus s es s' \<Longrightarrow> list_all unattended es \<Longrightarrow> sy_bounded s \<Longrightarrow>
   \<forall>o1\<in>set (drop 530 (map snd (cycles es))). o1 = at_rest"
proof (induction rule: sys_run.induct)
  case (run_nil s)
  then show ?case by simp
next
  case (run_cons s e s' es s'')
  have b: "sy_bounded s'" using bounded_sys_step run_cons(1) run_cons.prems(2) by blast
  show ?case
  proof (cases e)
    case (Frame evs)
    then show ?thesis using run_cons.prems by simp
  next
    case (Cycle i outs)
    obtain a where a: "represents (sy_control s) a" "spec_bounded a"
      using run_cons.prems(2) by (auto simp: sy_bounded_def)
    let ?a = "snd (spec_step a (i, ib_cmd_tx (pn_backend (sy_panel s))))"
    let ?xs = "map (\<lambda>io. (fst io, [])) (cycles es)"
    have c: "represents (sy_control s') ?a \<and> ib_cmd_tx (pn_backend (sy_panel s')) = []"
      using cycle_represents [of net bus s i outs s' a] run_cons(1) a(1) Cycle by simp
    then have outs: "map snd (cycles es) = map sw_outputs (run_outs spec_step ?a ?xs)"
      using silent_run [OF run_cons(2)] run_cons.prems by simp
    have "\<forall>v\<in>set (drop 529 (run_outs spec_step ?a ?xs)). sw_outputs v = at_rest"
      by (rule rest_from [OF bounded_step [OF a(2)]]) (simp add: list_all_iff)
    then have "\<forall>o1\<in>set (drop 529 (map snd (cycles es))). o1 = at_rest"
      unfolding outs drop_map by simp
    then show ?thesis using Cycle by simp
  next
    case Loss
    then show ?thesis using run_cons.IH run_cons.prems b by simp
  qed
qed

text \<open>C7. A dead panel stops the machine: from any state the system can reach, whatever was queued or
  running, held down on the test screen or lost in the channels, and whatever the panel still did
  in the frame it died in (its state and its queues after it are arbitrary), once no frame of the
  panel runs any more every output of the daemon is low from the 531st cycle on (5.31 s): the
  first drains the queue, at most 30 more until manual-IO expires, and then at most 500 of a
  pulse.\<close>

theorem dead_panel_stops_machine:
  assumes "sys_run net bus (sy_start (ctl_init counters) w f) history s0"
    and "sys_run net bus (s0\<lparr>sy_panel := p\<rparr>) silence s" "list_all unattended silence"
  shows "\<forall>o1\<in>set (drop 530 (map snd (cycles silence))).
    o1 = \<lparr>out_wrap = False, out_knives_in = False, out_knives_out = False\<rparr>"
proof -
  have "sy_bounded (s0\<lparr>sy_panel := p\<rparr>)"
    using bounded_sys_run [OF assms(1) bounded_sys_start] by (simp add: sy_bounded_def)
  then show ?thesis using silence_rests [OF assms(2,3)] by (simp add: at_rest_def)
qed

lemma silent_cycles:
  "\<exists>es s. sys_run net bus s0 es s \<and> map fst (cycles es) = ins \<and> list_all unattended es"
proof (induction ins arbitrary: s0)
  case Nil
  show ?case by (intro exI [of _ "[]"] exI [of _ s0]) (simp add: run_nil)
next
  case (Cons i ins)
  obtain outs s1 where "sy_cycle net bus i s0 = Some (outs, s1)" by (simp add: sy_cycle_eq Let_def)
  then have st: "sys_step net bus s0 (Cycle i outs) s1" by (rule sys_step.cycle)
  obtain es s where "sys_run net bus s1 es s" "map fst (cycles es) = ins" "list_all unattended es"
    using Cons by blast
  then show ?case
    by (intro exI [of _ "Cycle i outs # es"] exI [of _ s]) (simp add: run_cons [OF st])
qed

text \<open>The wrap key is pressed and the panel dies: 531 cycles later nothing is driven.\<close>

theorem dead_panel_stops_machine_witness:
  "\<exists>es s. sys_run sim_network noop_bus (sy_start (ctl_init demo_store) demo_world empty_fs)
      (Frame [Pressed F6] # es) s
    \<and> length (cycles es) = 531 \<and> \<not> out_wrap (snd (cycles es ! 530))"
proof -
  let ?s0 = "sy_start (ctl_init demo_store) demo_world empty_fs"
  let ?s1 = "?s0\<lparr>sy_panel := snd (pn_frame ipc_be [Pressed F6] (sy_panel ?s0))\<rparr>"
  have f: "sys_step sim_network noop_bus ?s0 (Frame [Pressed F6]) ?s1" by (rule sys_step.frame)
  obtain es s where es: "sys_run sim_network noop_bus ?s1 es s"
      "map fst (cycles es) = replicate 531 demo_inputs" "list_all unattended es"
    using silent_cycles by blast
  have len: "length (cycles es) = 531" using es(2) by (metis length_map length_replicate)
  have "snd (cycles es ! 530) \<in> set (drop 530 (map snd (cycles es)))"
    unfolding in_set_conv_nth using len by (intro exI [of _ 0]) simp
  then have "\<not> out_wrap (snd (cycles es ! 530))"
    using dead_panel_stops_machine [OF run_nil es(1,3)] by auto
  then show ?thesis using run_cons [OF f es(1)] len by blast
qed

subsection \<open>The system without its daemon\<close>

text \<open>Once the panel has read its queue, what it shows cannot change without a cycle.\<close>

interpretation stuck_be: kept_backend ipc_be "\<lambda>b. ib_state_rx b = [] \<and> ib_last b = snap" for snap
  by unfold_locales simp_all

lemma stuck_step:
  "sys_step net bus s e s' \<Longrightarrow> cycles [e] = [] \<Longrightarrow>
   ib_state_rx (pn_backend (sy_panel s)) = [] \<and> ib_last (pn_backend (sy_panel s)) = snap \<Longrightarrow>
   (ib_state_rx (pn_backend (sy_panel s')) = [] \<and> ib_last (pn_backend (sy_panel s')) = snap)
   \<and> sy_control s' = sy_control s \<and> sy_world s' = sy_world s"
  by (induction rule: sys_step.induct) (simp_all add: stuck_be.frame_ok)

lemma stuck_run:
  "sys_run net bus s es s' \<Longrightarrow> cycles es = [] \<Longrightarrow>
   ib_state_rx (pn_backend (sy_panel s)) = [] \<and> ib_last (pn_backend (sy_panel s)) = snap \<Longrightarrow>
   (ib_state_rx (pn_backend (sy_panel s')) = [] \<and> ib_last (pn_backend (sy_panel s')) = snap)
   \<and> sy_control s' = sy_control s \<and> sy_world s' = sy_world s"
proof (induction rule: sys_run.induct)
  case (run_nil s)
  then show ?case by simp
next
  case (run_cons s e s' es s'')
  have "cycles [e] = []" "cycles es = []" using run_cons.prems(1) by (cases e; simp)+
  then show ?case using stuck_step [OF run_cons(1)] run_cons.IH run_cons.prems(2) by metis
qed

text \<open>C37. A daemon that dies is not noticed by the panel: after any history in which the panel has read
  the daemon's last snapshot, with no further cycle, whatever the operator presses and however
  long it lasts, every frame shows that snapshot again: the mode, the counts, the bus as healthy
  if it was, the running wrap as running. Nothing the operator does reaches a machine either.\<close>

theorem dead_daemon_unnoticed:
  assumes "sys_run net bus s0 (history @ [Cycle i outs, Frame evs0]) s1"
    and "sys_run net bus s1 es s" "cycles es = []"
    and "(snap, p) = pn_frame ipc_be evs (sy_panel s)"
  shows "snap = ctl_snapshot (sy_control s1) \<and> sy_control s = sy_control s1 \<and> sy_world s = sy_world s1
    \<and> vw_ethercat_healthy (push_view snap p) = (ss_mode (ctl_snapshot (sy_control s1)) = Operational)
    \<and> vw_wrap_active (push_view snap p) = ss_wrap_active (ctl_snapshot (sy_control s1))"
proof -
  let ?shown = "\<lambda>t. last (ib_last (pn_backend (sy_panel t)) # ib_state_rx (pn_backend (sy_panel t)))"
  obtain u v where c: "sys_step net bus u (Cycle i outs) v" and f: "sys_step net bus v (Frame evs0) s1"
    using assms(1) by (auto simp: sys_run_append sys_run_simps)
  have s1: "s1 = v\<lparr>sy_panel := snd (pn_frame ipc_be evs0 (sy_panel v))\<rparr>"
    using f by (auto elim: sys_step_frameE)
  have "ib_state_rx (pn_backend (sy_panel s1)) = [] \<and> ib_last (pn_backend (sy_panel s1)) = ctl_snapshot (sy_control s1)"
    using stuck_be.events_ok [of _ "ctl_snapshot (sy_control v)"] cycle_published [OF c]
    by (simp add: s1 pn_frame_def Let_def pn_send_def del: last.simps)
  note stuck = stuck_run [OF assms(2,3) this]
  have "snap = ?shown s" using assms(4) frame_snapshot [of evs "sy_panel s"] by (metis fst_conv)
  then show ?thesis using stuck by (simp add: push_view_def Let_def)
qed

lemma idle_frames: "\<exists>s. sys_run net bus t (replicate n (Frame [])) s"
proof (induction n arbitrary: t)
  case 0
  then show ?case by (auto intro: run_nil)
next
  case (Suc n)
  show ?case
    using Suc [of "t\<lparr>sy_panel := snd (pn_frame ipc_be [] (sy_panel t))\<rparr>"] run_cons [OF sys_step.frame]
    unfolding replicate_Suc by blast
qed

text \<open>The wrap key starts the wrap, the daemon dies after the cycle that started it: after a hundred
  more frames the screen still shows a healthy bus and a running wrap.\<close>

theorem dead_daemon_unnoticed_witness:
  "\<exists>outs s1 s. sys_run sim_network noop_bus (sy_start (ctl_init demo_store) demo_world empty_fs)
      [Frame [Pressed F6], Cycle demo_inputs outs, Frame []] s1
    \<and> sys_run sim_network noop_bus s1 (replicate 100 (Frame [])) s
    \<and> (\<exists>snap p. (snap, p) = pn_frame ipc_be [] (sy_panel s) \<and> vw_wrap_active (push_view snap p))"
proof -
  let ?s0 = "sy_start (ctl_init demo_store) demo_world empty_fs"
  let ?a = "?s0\<lparr>sy_panel := snd (pn_frame ipc_be [Pressed F6] (sy_panel ?s0))\<rparr>"
  obtain outs b where c: "sy_cycle sim_network noop_bus demo_inputs ?a = Some (outs, b)"
    by (simp add: sy_cycle_eq Let_def)
  let ?s1 = "b\<lparr>sy_panel := snd (pn_frame ipc_be [] (sy_panel b))\<rparr>"
  have r1: "sys_run sim_network noop_bus ?s0 ([Frame [Pressed F6]] @ [Cycle demo_inputs outs, Frame []]) ?s1"
    using c by (auto simp: sys_run_simps intro!: sys_step.intros exI)
  obtain s where r2: "sys_run sim_network noop_bus ?s1 (replicate 100 (Frame [])) s"
    using idle_frames by blast
  have no: "cycles (replicate n (Frame [])) = []" for n by (induction n) simp_all
  obtain snap p where e: "(snap, p) = pn_frame ipc_be [] (sy_panel s)" by (metis surj_pair)
  have q: "ib_cmd_tx (pn_backend (sy_panel ?a)) = [Wrap]" "sy_control ?a = ctl_init demo_store" "sy_world ?a = demo_world"
    using wrap_key_frame [of "sy_panel ?s0"]
    by (simp_all add: sy_start_def pn_start_def split_beta ipc_initial_def)
  have "ss_wrap_active (ctl_snapshot (fst (snd (ctl_step sim_network noop_bus (ctl_init demo_store, demo_world)
      (demo_inputs, [Wrap])))))"
    using first_wrap(1) by (simp add: ctl_snapshot_def Let_def pe_is_active_def)
  then have "ss_wrap_active (ctl_snapshot (sy_control b))"
    using c q by (simp add: sy_cycle_eq Let_def) (auto simp: q)
  then have "vw_wrap_active (push_view snap p)"
    using dead_daemon_unnoticed [OF r1 r2 no e] by fastforce
  then show ?thesis using r1 r2 e unfolding append_Cons append_Nil by blast
qed

end
