(* ===== verification/CoreTests.thy ===== *)
theory CoreTests
  imports ControlPulse Bringup Channel
begin

text \<open>
  The unit tests the repository keeps with the core crate (the \<open>mod tests\<close> of
  \<open>baler-core/src/input_conditioner.rs\<close>, \<open>pulse.rs\<close>, \<open>counter.rs\<close>, \<open>state.rs\<close>, \<open>bringup.rs\<close> and
  \<open>codec.rs\<close>), replayed on the model: each test is the conjunction of its assertions over the
  states its calls go through, in their order, and is proved. They show that the definitions
  answer as the program does on the inputs its authors chose.
\<close>

subsection \<open>Debouncer\<close>

text \<open>The edges a debouncer reports for some samples, and the debouncer after them.\<close>

definition sustained_change_produces_one_edge :: bool where
  "sustained_change_produces_one_edge \<longleftrightarrow>
     (let (e1, d1) = db_update (db_new 3 False) True;
          (e2, d2) = db_update d1 True;
          (e3, d3) = db_update d2 True;
          (e4, d4) = db_update d3 True;
          (e5, d5) = db_update d4 False;
          (e6, d6) = db_update d5 False;
          (e7, d7) = db_update d6 False
      in e1 = NoEdge \<and> e2 = NoEdge \<and> e3 = Rising \<and> db_level d3 \<and> e4 = NoEdge
         \<and> e5 = NoEdge \<and> e6 = NoEdge \<and> e7 = Falling \<and> \<not> db_level d7)"

definition brief_glitch_is_rejected :: bool where
  "brief_glitch_is_rejected \<longleftrightarrow>
     (let (e1, d1) = db_update (db_new 3 False) True;
          (e2, d2) = db_update d1 False;
          (e3, d3) = db_update d2 True;
          (e4, d4) = db_update d3 True;
          (e5, d5) = db_update d4 True
      in e1 = NoEdge \<and> e2 = NoEdge \<and> \<not> db_level d2 \<and> e3 = NoEdge \<and> e4 = NoEdge \<and> e5 = Rising)"

definition threshold_one_is_immediate :: bool where
  "threshold_one_is_immediate \<longleftrightarrow>
     (let (e1, d1) = db_update (db_new 0 False) True; (e2, d2) = db_update d1 False
      in e1 = Rising \<and> e2 = Falling)"

lemma debouncer_tests:
  sustained_change_produces_one_edge brief_glitch_is_rejected threshold_one_is_immediate
  by code_simp+

subsection \<open>Pulse\<close>

text \<open>The event and the output level of one healthy tick.\<close>

definition observed_tick :: "pulse_engine \<Rightarrow> bool \<Rightarrow> (pulse_event \<times> bool) \<times> pulse_engine" where
  "observed_tick p h = (let (e, q) = pe_tick SCAN h p in ((e, pe_output q), q))"

definition completes_after_exactly_the_duration :: bool where
  "completes_after_exactly_the_duration \<longleftrightarrow>
     (let p = pe_new PULSE; (t, p1) = pe_trigger p;
          (seen, p2) = run observed_tick p1 (replicate 499 True);
          (e, p3) = pe_tick SCAN True p2
      in \<not> pe_output p \<and> t \<and> pe_output p1 \<and> list_all (\<lambda>s. s = (PNone, True)) seen
         \<and> e = Completed \<and> \<not> pe_output p3 \<and> \<not> pe_is_active p3)"

definition bus_loss_aborts_without_completion :: bool where
  "bus_loss_aborts_without_completion \<longleftrightarrow>
     (let p1 = snd (pe_trigger (pe_new PULSE));
          (seen, p2) = run observed_tick p1 (replicate 10 True);
          (e, p3) = pe_tick SCAN False p2
      in list_all (\<lambda>s. fst s = PNone) seen \<and> e = Aborted \<and> \<not> pe_output p3 \<and> \<not> pe_is_active p3)"

definition retrigger_while_active_is_ignored :: bool where
  "retrigger_while_active_is_ignored \<longleftrightarrow>
     (let (t, p1) = pe_trigger (pe_new PULSE); (_, p2) = pe_tick SCAN True p1; (t', _) = pe_trigger p2
      in t \<and> \<not> t')"

definition tick_while_idle_is_inert :: bool where
  "tick_while_idle_is_inert \<longleftrightarrow>
     (let (e1, p1) = pe_tick SCAN True (pe_new PULSE); (e2, p2) = pe_tick SCAN False p1
      in e1 = PNone \<and> e2 = PNone \<and> \<not> pe_output p2)"

definition can_retrigger_after_completion :: bool where
  "can_retrigger_after_completion \<longleftrightarrow>
     (let p1 = snd (pe_trigger (pe_new (from_millis 20)));
          (e1, p2) = pe_tick SCAN True p1; (e2, p3) = pe_tick SCAN True p2; (t, _) = pe_trigger p3
      in e1 = PNone \<and> e2 = Completed \<and> t)"

text \<open>Healthy ticks of an active pulse below its duration.\<close>

lemma observed_ticks:
  "pe_at k p \<Longrightarrow> k + n < 500 \<Longrightarrow>
     fst (run observed_tick p (replicate n True)) = replicate n (PNone, True)
     \<and> pe_at (k + n) (snd (run observed_tick p (replicate n True)))"
proof (induction n arbitrary: k p)
  case 0
  then show ?case by simp
next
  case (Suc n)
  then have at: "pe_at (Suc k) (snd (pe_tick SCAN True p))" using pe_at_tick [of k p] by simp
  have "fst (pe_tick SCAN True p) = PNone"
    using at Suc.prems(1) by (auto simp: pe_tick_def pe_at_def Let_def pe_reset_def split: if_splits)
  then have t: "observed_tick p True = ((PNone, True), snd (pe_tick SCAN True p))"
    using at by (simp add: observed_tick_def split_beta pe_output_def pe_at_def)
  show ?case using Suc.IH [OF at] Suc.prems(2) by (simp add: t split_beta)
qed

lemma pe_at_last_tick: "pe_at 499 p \<Longrightarrow> fst (pe_tick SCAN True p) = Completed"
  using pe_at_tick [of 499 p] by (auto simp: pe_tick_def pe_at_def Let_def split: if_splits)

lemma pulse_new_at: "pe_at 0 (snd (pe_trigger (pe_new PULSE)))"
  by (rule pe_at_trigger) (simp_all add: pe_wf_new)

lemma pulse_test_1: completes_after_exactly_the_duration
proof -
  note o = observed_ticks [OF pulse_new_at, of 499]
  then have at: "pe_at 499 (snd (run observed_tick (snd (pe_trigger (pe_new PULSE))) (replicate 499 True)))"
    by simp
  have "fst (pe_trigger (pe_new PULSE))" by (simp add: pe_trigger_def)
  then show ?thesis
    unfolding completes_after_exactly_the_duration_def Let_def split_beta
    using o pe_at_last_tick [OF at] pe_at_tick [OF at] pulse_new_at
    by (simp add: pe_output_def pe_is_active_def list_all_iff pe_at_def)
qed

lemma pulse_test_2: bus_loss_aborts_without_completion
proof -
  define r where "r = run observed_tick (snd (pe_trigger (pe_new PULSE))) (replicate 10 True)"
  have "fst r = replicate 10 (PNone, True)" "pe_active (snd r)"
    using observed_ticks [OF pulse_new_at, of 10] unfolding r_def by (simp_all add: pe_at_def)
  then show ?thesis
    unfolding bus_loss_aborts_without_completion_def Let_def split_beta r_def [symmetric]
    by (simp add: pe_output_def pe_is_active_def list_all_iff pe_tick_def)
qed

lemma pulse_test_3: retrigger_while_active_is_ignored
  using pe_at_tick [OF pulse_new_at]
  by (simp add: retrigger_while_active_is_ignored_def split_beta pe_at_def pe_trigger_def pe_new_def)

lemma pulse_test_4: tick_while_idle_is_inert
  by (simp add: tick_while_idle_is_inert_def pe_output_def)

text \<open>Two ticks of 10 ms reach 20 ms.\<close>

lemma pulse_test_5: can_retrigger_after_completion
proof -
  let ?e = "dur_sat_add DUR_ZERO SCAN"
  have e: "dur_valid ?e" "dur_ns ?e = 10000000" "dur_ns (dur_sat_add ?e SCAN) = 20000000"
      "dur_valid (dur_sat_add ?e SCAN)"
    by (simp_all add: dur_ns_sat_add dur_valid_sat_add NANOS_PER_SEC_def)
  have "\<not> from_millis 20 \<le> ?e" "from_millis 20 \<le> dur_sat_add ?e SCAN"
    using e by (simp_all add: dur_le_iff dur_ns_from_millis)
  then show ?thesis
    by (simp add: can_retrigger_after_completion_def pe_trigger_def pe_new_def pe_tick_def pe_reset_def)
qed

subsection \<open>Counters\<close>

text \<open>\<open>scratch\<close> names a file in a fresh directory: on an empty file system any path is one. A
  failing call makes \<open>unwrap\<close> panic, which is no result.\<close>

definition scratch :: "string \<Rightarrow> path" where
  "scratch name =
     \<lparr>is_abs = True, comps = [lit ''tmp'', lit ''baler-counter-test-'' @ lit name, lit ''counters'']\<rparr>"

type_synonym store_op = "counter_store \<Rightarrow> fs \<Rightarrow> (io_error + unit) \<times> counter_store \<times> fs"

fun unwrap_all :: "store_op list \<Rightarrow> counter_store \<times> fs \<Rightarrow> (counter_store \<times> fs) option" where
  "unwrap_all [] cf = Some cf"
| "unwrap_all (op # ops) cf =
     (case op (fst cf) (snd cf) of (Inr _, cf') \<Rightarrow> unwrap_all ops cf' | (Inl _, _) \<Rightarrow> None)"

definition load_unwrap :: "path \<Rightarrow> fs \<Rightarrow> (counter_store \<times> fs) option" where
  "load_unwrap p f = (case cs_load p f of (Inr c, f') \<Rightarrow> Some (c, f') | (Inl _, _) \<Rightarrow> None)"

definition snap :: "counter_store \<times> fs \<Rightarrow> u64 \<times> u64" where
  "snap cf = (let n = cs_snapshot (fst cf) in (cn_session n, cn_total n))"

definition reloaded :: "path \<Rightarrow> counter_store \<times> fs \<Rightarrow> (u64 \<times> u64) option" where
  "reloaded p cf = map_option snap (load_unwrap p (snd cf))"

definition missing_file_loads_as_zero :: bool where
  "missing_file_loads_as_zero \<longleftrightarrow>
     map_option snap (load_unwrap (scratch ''missing'') empty_fs) = Some (0, 0)"

definition increment_persists_and_reloads :: bool where
  "increment_persists_and_reloads \<longleftrightarrow>
     (let p = scratch ''increment'' in
      case Option.bind (load_unwrap p empty_fs) (unwrap_all [increment_bale, increment_bale]) of
        None \<Rightarrow> False
      | Some c \<Rightarrow> snap c = (2, 2) \<and> reloaded p c = Some (2, 2))"

definition session_reset_keeps_total :: bool where
  "session_reset_keeps_total \<longleftrightarrow>
     (let p = scratch ''session-reset'' in
      case Option.bind (load_unwrap p empty_fs)
          (unwrap_all (replicate 5 increment_bale @ [reset_session])) of
        None \<Rightarrow> False
      | Some c \<Rightarrow> snap c = (0, 5) \<and> reloaded p c = Some (0, 5))"

definition total_reset_is_independent :: bool where
  "total_reset_is_independent \<longleftrightarrow>
     map_option snap (Option.bind (load_unwrap (scratch ''total-reset'') empty_fs)
       (unwrap_all [increment_bale, reset_total])) = Some (1, 0)"

definition adjust_session_corrects_only_the_session :: bool where
  "adjust_session_corrects_only_the_session \<longleftrightarrow>
     (let p = scratch ''adjust'' in
      case Option.bind (load_unwrap p empty_fs)
          (unwrap_all (replicate 3 increment_bale @ [adjust_session 1])) of
        None \<Rightarrow> False
      | Some c1 \<Rightarrow> snap c1 = (4, 3) \<and>
          (case unwrap_all [adjust_session (- 2)] c1 of
             None \<Rightarrow> False
           | Some c2 \<Rightarrow> snap c2 = (2, 3) \<and>
               (case unwrap_all [adjust_session (- 10)] c2 of
                  None \<Rightarrow> False
                | Some c3 \<Rightarrow> snap c3 = (0, 3) \<and> reloaded p c3 = Some (0, 3))))"

definition malformed_file_is_treated_as_zero :: bool where
  "malformed_file_is_treated_as_zero \<longleftrightarrow>
     (let p = scratch ''malformed'' in
      map_option snap (load_unwrap p
        (snd (fs_run [Create p, WriteAll p (utf8_encode (lit ''garbage not parseable'' @ [10]))] empty_fs)))
      = Some (0, 0))"

text \<open>On a file system that refuses nothing an update succeeds and can be loaded back.\<close>

lemma update_granted:
  fixes g :: "counters \<Rightarrow> counters" and s :: counter_store and f :: fs
  assumes "verdicts f = []" "cs_good s"
  defines "s' \<equiv> s\<lparr>cs_counters := g (cs_counters s)\<rparr>"
  obtains f' where "cs_update g s f = (Inr (), s', f')" "verdicts f' = []"
    "cs_load (cs_path s) f' = (Inr s', f')"
proof -
  obtain r f' where e: "cs_persist s' f = (r, f')" by fastforce
  have ok: "r = Inr ()" and v: "verdicts f' = []"
    using persist_granted [OF assms(1), of s'] by (simp_all add: e)
  have g: "cs_good s'" "cs_path s' = cs_path s" using assms(2) by (simp_all add: s'_def cs_good_def)
  have "cs_load (cs_path s) f' = (Inr s', f')"
    using load_persisted [OF persist_ok_file [OF e [unfolded ok] g(1)] v] g(2) by simp
  moreover have "cs_update g s f = (Inr (), s', f')" using e ok by (simp add: cs_update_def s'_def)
  ultimately show thesis using v that by blast
qed

lemma updates_granted:
  assumes "verdicts f = []" "cs_good s" "gs \<noteq> []"
  shows "\<exists>f'. unwrap_all (map cs_update gs) (s, f) = Some (s\<lparr>cs_counters := fold (\<lambda>g. g) gs (cs_counters s)\<rparr>, f')
    \<and> verdicts f' = []
    \<and> cs_load (cs_path s) f' = (Inr (s\<lparr>cs_counters := fold (\<lambda>g. g) gs (cs_counters s)\<rparr>), f')"
  using assms
proof (induction gs arbitrary: s f)
  case Nil
  then show ?case by simp
next
  case (Cons g gs)
  let ?s = "s\<lparr>cs_counters := g (cs_counters s)\<rparr>"
  obtain f' where u: "cs_update g s f = (Inr (), ?s, f')" "verdicts f' = []"
      "cs_load (cs_path s) f' = (Inr ?s, f')"
    using update_granted [OF Cons.prems(1,2)] by blast
  have g: "cs_good ?s" using Cons.prems(2) by (simp add: cs_good_def)
  show ?case
  proof (cases "gs = []")
    case True
    then show ?thesis using u by simp
  next
    case False
    from Cons.IH [OF u(2) g this] show ?thesis by (simp add: u(1))
  qed
qed

lemma load_scratch: "load_unwrap p empty_fs = Some (\<lparr>cs_path = p, cs_counters = counters_default\<rparr>, empty_fs)"
  by (simp add: load_unwrap_def cs_load_def read_to_string_def next_verdict_def empty_fs_def)

lemma scratch_good: "cs_good \<lparr>cs_path = scratch name, cs_counters = c\<rparr>"
  unfolding cs_good_def
  by (simp add: tmp_path_def with_extension_def scratch_def file_stem_def)

text \<open>A scripted sequence of updates of a scratch file, and what is loaded after it.\<close>

lemma scratch_run:
  assumes "verdicts f = []" "gs \<noteq> []" "ops = map cs_update gs" "fold (\<lambda>g. g) gs c = k"
  shows "\<exists>f'. unwrap_all ops (\<lparr>cs_path = scratch name, cs_counters = c\<rparr>, f) =
      Some (\<lparr>cs_path = scratch name, cs_counters = k\<rparr>, f') \<and> verdicts f' = []
    \<and> reloaded (scratch name) (\<lparr>cs_path = scratch name, cs_counters = k\<rparr>, f') =
      Some (cn_session k, cn_total k)"
  using updates_granted [OF assms(1) scratch_good [of name c] assms(2)] unfolding assms(3)
  by (auto simp: assms(4) reloaded_def load_unwrap_def snap_def cs_snapshot_def Let_def)

text \<open>The four updates as changes of the counters.\<close>

abbreviation inc_fun :: "counters \<Rightarrow> counters" where
  "inc_fun c \<equiv> c\<lparr>cn_session := sat_add (cn_session c) 1, cn_total := sat_add (cn_total c) 1\<rparr>"

abbreviation adj_fun :: "i64 \<Rightarrow> counters \<Rightarrow> counters" where
  "adj_fun d c \<equiv> c\<lparr>cn_session := sat_add_signed (cn_session c) d\<rparr>"

lemma replicate_small: "replicate 3 x = [x, x, x]" "replicate 5 x = [x, x, x, x, x]"
  by (simp_all add: numeral_eq_Suc)

lemmas scratch_eval = load_scratch snap_def cs_snapshot_def counters_default_def cs_ops_defs
  sat_add_def sat_add_signed_def

lemma empty_fs_verdicts [simp]: "verdicts empty_fs = []"
  by (simp add: empty_fs_def)

lemma counter_test_1: missing_file_loads_as_zero
  by (simp add: missing_file_loads_as_zero_def load_scratch snap_def cs_snapshot_def counters_default_def)

lemma counter_test_2: increment_persists_and_reloads
  using scratch_run [of empty_fs "[inc_fun, inc_fun]" "[increment_bale, increment_bale]"
      counters_default "\<lparr>cn_session = 2, cn_total = 2\<rparr>" "''increment''"]
  by (auto simp: increment_persists_and_reloads_def scratch_eval simp del: unwrap_all.simps)

lemma counter_test_3: session_reset_keeps_total
  using scratch_run [of empty_fs "replicate 5 inc_fun @ [\<lambda>c. c\<lparr>cn_session := 0\<rparr>]"
      "replicate 5 increment_bale @ [reset_session]"
      counters_default "\<lparr>cn_session = 0, cn_total = 5\<rparr>" "''session-reset''"]
  by (auto simp: session_reset_keeps_total_def scratch_eval replicate_small simp del: unwrap_all.simps)

lemma counter_test_4: total_reset_is_independent
  using scratch_run [of empty_fs "[inc_fun, \<lambda>c. c\<lparr>cn_total := 0\<rparr>]" "[increment_bale, reset_total]"
      counters_default "\<lparr>cn_session = 1, cn_total = 0\<rparr>" "''total-reset''"]
  by (auto simp: total_reset_is_independent_def scratch_eval simp del: unwrap_all.simps)

lemma counter_test_5: adjust_session_corrects_only_the_session
proof -
  let ?S = "\<lambda>a b. \<lparr>cs_path = scratch ''adjust'', cs_counters = \<lparr>cn_session = a, cn_total = b\<rparr>\<rparr>"
  have 1: "\<exists>f. unwrap_all (replicate 3 increment_bale @ [adjust_session 1]) (?S 0 0, empty_fs) = Some (?S 4 3, f)
      \<and> verdicts f = []"
    using scratch_run [of empty_fs "replicate 3 inc_fun @ [adj_fun 1]" "replicate 3 increment_bale @ [adjust_session 1]"
        counters_default "\<lparr>cn_session = 4, cn_total = 3\<rparr>" "''adjust''"]
    by (auto simp: scratch_eval replicate_small simp del: unwrap_all.simps)
  have 2: "\<exists>f'. unwrap_all [adjust_session (- 2)] (?S 4 3, f) = Some (?S 2 3, f') \<and> verdicts f' = []"
    if "verdicts f = []" for f
    using scratch_run [OF that, of "[adj_fun (- 2)]" "[adjust_session (- 2)]"
        "\<lparr>cn_session = 4, cn_total = 3\<rparr>" "\<lparr>cn_session = 2, cn_total = 3\<rparr>" "''adjust''"]
    by (auto simp: scratch_eval simp del: unwrap_all.simps)
  have 3: "\<exists>f'. unwrap_all [adjust_session (- 10)] (?S 2 3, f) = Some (?S 0 3, f')
      \<and> reloaded (scratch ''adjust'') (?S 0 3, f') = Some (0, 3)"
    if "verdicts f = []" for f
    using scratch_run [OF that, of "[adj_fun (- 10)]" "[adjust_session (- 10)]"
        "\<lparr>cn_session = 2, cn_total = 3\<rparr>" "\<lparr>cn_session = 0, cn_total = 3\<rparr>" "''adjust''"]
    by (auto simp: scratch_eval simp del: unwrap_all.simps)
  show ?thesis
    using 1 2 3 unfolding adjust_session_corrects_only_the_session_def Let_def load_scratch counters_default_def
    by (fastforce simp: snap_def cs_snapshot_def Let_def simp del: unwrap_all.simps)
qed

lemma counter_test_6: malformed_file_is_treated_as_zero
proof -
  let ?p = "scratch ''malformed''" and ?t = "lit ''garbage not parseable'' @ [10]"
  let ?f = "snd (fs_run [Create ?p, WriteAll ?p (utf8_encode ?t)] empty_fs)"
  have v: "verdicts ?f = []" and f: "files ?f ?p = Some \<lparr>fbytes = utf8_encode ?t, synced = False\<rparr>"
    by (simp_all add: fs_exec_def next_verdict_def empty_fs_def put_file_def append_bytes_def)
  have d: "utf8_decode (utf8_encode ?t) = Some ?t" by (rule utf8_roundtrip) (simp add: is_scalar_def)
  have "cn_parse ?t = None"
    using str_lines_line [of "lit ''garbage not parseable''" "[]"]
    by (simp add: cn_parse_def strip_cr_def)
  then have "load_unwrap ?p ?f = Some (\<lparr>cs_path = ?p, cs_counters = counters_default\<rparr>, ?f)"
    using read_to_string_files [OF v f] d unfolding load_unwrap_def cs_load_def by simp
  then show ?thesis
    unfolding malformed_file_is_treated_as_zero_def Let_def
    by (simp only: snap_def cs_snapshot_def counters_default_def Let_def option.map prod.sel counter_store.select_convs counters.select_convs)
qed

subsection \<open>Mode state machine\<close>

definition operational :: baler_state where
  "operational = on_bus_health True bs_new"

definition boot_blocks_commands_until_healthy :: bool where
  "boot_blocks_commands_until_healthy \<longleftrightarrow>
     (let s = bs_new; (r1, s1) = bs_handle Wrap False s; (r2, s2) = bs_handle ToggleKnife False s1;
          (r3, _) = bs_handle Wrap False (on_bus_health True s2)
      in bs_mode s = Initializing \<and> r1 = Inl NotReady \<and> r2 = Inl NotReady \<and> r3 = Inr FireWrap)"

definition wrap_arms_only_when_full_and_operational :: bool where
  "wrap_arms_only_when_full_and_operational \<longleftrightarrow>
     (let s = operational; s1 = on_inputs True False s
      in \<not> bs_wrap_armed s \<and> bs_wrap_armed s1 \<and> bs_knife_in s1 = Some False)"

definition knife_toggle_independent_of_position :: bool where
  "knife_toggle_independent_of_position \<longleftrightarrow>
     (let (r1, s1) = bs_handle ToggleKnife False (on_inputs False True operational);
          (r2, _) = bs_handle ToggleKnife False (on_inputs False False s1)
      in r1 = Inr FireKnife \<and> r2 = Inr FireKnife)"

definition mode_switch_is_idle_only :: bool where
  "mode_switch_is_idle_only \<longleftrightarrow>
     (let (r1, s1) = bs_handle EnterEthernet True operational;
          (r2, s2) = bs_handle EnterEthernet False s1
      in r1 = Inl NotIdle \<and> bs_mode s1 = Operational \<and> r2 = Inr SwitchToEthernet
         \<and> bs_mode s2 = Ethernet)"

definition ethernet_mode_blocks_machine_commands :: bool where
  "ethernet_mode_blocks_machine_commands \<longleftrightarrow>
     (let (r0, s0) = bs_handle EnterEthernet False operational;
          (r1, s1) = bs_handle Wrap False s0;
          (r2, s2) = bs_handle EnterEthernet False s1;
          (r3, s3) = bs_handle ReturnToEthercat False s2
      in \<not> isl r0 \<and> r1 = Inl NotReady \<and> r2 = Inl AlreadyEthernet \<and> r3 = Inr SwitchToEthercat
         \<and> bs_mode s3 = Initializing)"

definition enter_ethernet_allowed_while_bus_is_down :: bool where
  "enter_ethernet_allowed_while_bus_is_down \<longleftrightarrow>
     (let s = on_bus_health False operational; (r, s1) = bs_handle EnterEthernet False s
      in bs_mode s = Fault \<and> r = Inr SwitchToEthernet \<and> bs_mode s1 = Ethernet)"

definition enter_ethernet_allowed_at_boot_before_first_health :: bool where
  "enter_ethernet_allowed_at_boot_before_first_health \<longleftrightarrow>
     (let s = bs_new; (r, s1) = bs_handle EnterEthernet False s
      in bs_mode s = Initializing \<and> r = Inr SwitchToEthernet \<and> bs_mode s1 = Ethernet)"

definition ethernet_mode_ignores_bus_health :: bool where
  "ethernet_mode_ignores_bus_health \<longleftrightarrow>
     (let (r, s) = bs_handle EnterEthernet False operational
      in \<not> isl r \<and> bs_mode (on_bus_health True s) = Ethernet)"

definition return_requires_ethernet_mode :: bool where
  "return_requires_ethernet_mode \<longleftrightarrow>
     fst (bs_handle ReturnToEthercat False operational) = Inl NotInEthernet"

definition bus_loss_faults_and_clears_inputs_then_recovers :: bool where
  "bus_loss_faults_and_clears_inputs_then_recovers \<longleftrightarrow>
     (let s = on_inputs True True operational; s1 = on_bus_health False s;
          (r, s2) = bs_handle Wrap False s1; s3 = on_inputs True True s2
      in bs_wrap_armed s \<and> bs_mode s1 = Fault \<and> bs_knife_in s1 = None \<and> \<not> bs_bale_full s1
         \<and> r = Inl NotReady \<and> bs_knife_in s3 = None \<and> bs_mode (on_bus_health True s3) = Operational)"

definition resets_allowed_in_any_mode :: bool where
  "resets_allowed_in_any_mode \<longleftrightarrow>
     (let (r1, s1) = bs_handle ResetSession False bs_new; (r2, _) = bs_handle ResetTotal False s1
      in r1 = Inr ActResetSession \<and> r2 = Inr ActResetTotal)"

definition session_correction_allowed_in_any_mode :: bool where
  "session_correction_allowed_in_any_mode \<longleftrightarrow>
     (let (r1, s1) = bs_handle (AdjustSession 1) False bs_new;
          (r2, _) = bs_handle (AdjustSession (- 1)) False s1;
          (r3, _) = bs_handle (AdjustSession (- 1)) True operational
      in r1 = Inr (ActAdjustSession 1) \<and> r2 = Inr (ActAdjustSession (- 1))
         \<and> r3 = Inr (ActAdjustSession (- 1)))"

lemma state_tests:
  boot_blocks_commands_until_healthy wrap_arms_only_when_full_and_operational
  knife_toggle_independent_of_position mode_switch_is_idle_only
  ethernet_mode_blocks_machine_commands enter_ethernet_allowed_while_bus_is_down
  enter_ethernet_allowed_at_boot_before_first_health ethernet_mode_ignores_bus_health
  return_requires_ethernet_mode bus_loss_faults_and_clears_inputs_then_recovers
  resets_allowed_in_any_mode session_correction_allowed_in_any_mode
  by code_simp+

subsection \<open>Bring-up\<close>

datatype test_err = Corrupted | Transient

definition is_corrupted :: "test_err \<Rightarrow> bool" where
  "is_corrupted e \<longleftrightarrow> e = Corrupted"

text \<open>The captured counters of the closures.\<close>

record tally =
  opens :: nat
  cleanups :: nat
  backoffs :: nat

abbreviation tally0 :: tally where
  "tally0 \<equiv> \<lparr>opens = 0, cleanups = 0, backoffs = 0\<rparr>"

abbreviation count_cleanup :: "tally \<Rightarrow> tally" where
  "count_cleanup t \<equiv> t\<lparr>cleanups := cleanups t + 1\<rparr>"

abbreviation count_backoff :: "u32 \<Rightarrow> tally \<Rightarrow> tally" where
  "count_backoff _ t \<equiv> t\<lparr>backoffs := backoffs t + 1\<rparr>"

definition returns_ok_on_first_success :: bool where
  "returns_ok_on_first_success \<longleftrightarrow>
     (let (r, t) = retry_open 3 (\<lambda>t. (Inr (42 :: int), t)) is_corrupted count_cleanup count_backoff tally0
      in r = Inr 42 \<and> cleanups t = 0 \<and> backoffs t = 0)"

definition gives_up_after_max_attempts :: bool where
  "gives_up_after_max_attempts \<longleftrightarrow>
     (let (r, t) = retry_open 3 (\<lambda>t. (Inl Transient :: test_err + int, t\<lparr>opens := opens t + 1\<rparr>))
            is_corrupted count_cleanup count_backoff tally0
      in r = Inl Transient \<and> opens t = 3 \<and> backoffs t = 2 \<and> cleanups t = 0)"

definition cleans_a_corrupted_service_then_retries :: bool where
  "cleans_a_corrupted_service_then_retries \<longleftrightarrow>
     (let (r, t) = retry_open 5
            (\<lambda>t. let t' = t\<lparr>opens := opens t + 1\<rparr>
                 in (if opens t' \<le> 2 then Inl Corrupted else Inr (7 :: int), t'))
            is_corrupted count_cleanup count_backoff tally0
      in r = Inr 7 \<and> opens t = 3 \<and> cleanups t = 2 \<and> backoffs t = 2)"

definition does_not_clean_on_a_transient_error :: bool where
  "does_not_clean_on_a_transient_error \<longleftrightarrow>
     (let (r, t) = retry_open 5
            (\<lambda>t. let t' = t\<lparr>opens := opens t + 1\<rparr>
                 in (if opens t' = 1 then Inl Transient else Inr (1 :: int), t'))
            is_corrupted count_cleanup (\<lambda>_ t. t) tally0
      in r = Inr 1 \<and> cleanups t = 0)"

lemma bringup_tests:
  returns_ok_on_first_success gives_up_after_max_attempts
  cleans_a_corrupted_service_then_retries does_not_clean_on_a_transient_error
  by (simp_all add: returns_ok_on_first_success_def gives_up_after_max_attempts_def
      cleans_a_corrupted_service_then_retries_def does_not_clean_on_a_transient_error_def
      retry_open_def retry_loop.simps is_corrupted_def word_le_nat_alt)

subsection \<open>Codec\<close>

text \<open>\<open>to_slice\<close> and \<open>from_bytes\<close> are the postcard library.\<close>

definition sample_snapshot :: state_snapshot where
  "sample_snapshot =
     \<lparr>ss_mode = Operational, ss_bale_full = True, ss_knife = KOut, ss_wrap_armed = True,
      ss_full_latched = True, ss_wrap_active = False, ss_knife_active = True, ss_session = 17,
      ss_total = 123456, ss_di1 = True, ss_di2 = False, ss_di3 = True, ss_ip = (192, 168, 1, 102),
      ss_ip_valid = True\<rparr>"

type_synonym 't to_slice = "'t \<Rightarrow> u8 list \<Rightarrow> (str + u8 list) \<times> u8 list"
type_synonym 't from_bytes = "u8 list \<Rightarrow> str + 't"

definition state_snapshot_round_trips :: "state_snapshot to_slice \<Rightarrow> state_snapshot from_bytes \<Rightarrow> bool" where
  "state_snapshot_round_trips to_slice from_bytes \<longleftrightarrow>
     (case postcard_encode to_slice sample_snapshot (replicate PAYLOAD_MAX 0) of
        (Inl _, _) \<Rightarrow> False
      | (Inr len, buf) \<Rightarrow> postcard_decode from_bytes (take len buf) = Inr sample_snapshot)"

definition wire_commands :: "command list" where
  "wire_commands =
     [Wrap, ToggleKnife, ResetSession, ResetTotal, EnterEthernet, ReturnToEthercat,
      ManualIo True False False, ManualIo False True False, ManualIo True False True,
      AdjustSession 1, AdjustSession (- 1)]"

text \<open>One buffer is reused by all the commands.\<close>

fun command_round_trips :: "command to_slice \<Rightarrow> command from_bytes \<Rightarrow> u8 list \<Rightarrow> command list \<Rightarrow> bool" where
  "command_round_trips to_slice from_bytes buf [] \<longleftrightarrow> True"
| "command_round_trips to_slice from_bytes buf (cmd # cmds) \<longleftrightarrow>
     (case postcard_encode to_slice cmd buf of
        (Inl _, _) \<Rightarrow> False
      | (Inr len, buf') \<Rightarrow> postcard_decode from_bytes (take len buf') = Inr cmd
          \<and> command_round_trips to_slice from_bytes buf' cmds)"

definition encode_into_too_small_a_buffer_errors :: "state_snapshot to_slice \<Rightarrow> bool" where
  "encode_into_too_small_a_buffer_errors to_slice \<longleftrightarrow>
     isl (fst (postcard_encode to_slice sample_snapshot [0]))"

text \<open>They pass with every library whose \<open>to_slice\<close> writes an encoding that \<open>from_bytes\<close>
  inverts at the front of a buffer it fits in, leaves the length of the buffer, and refuses a
  buffer it does not fit in.\<close>

definition slice_codec :: "('t \<Rightarrow> u8 list) \<Rightarrow> 't to_slice \<Rightarrow> 't from_bytes \<Rightarrow> bool" where
  "slice_codec enc to_slice from_bytes \<longleftrightarrow>
     (\<forall>v. from_bytes (enc v) = Inr v) \<and>
     (\<forall>v buf. if length (enc v) \<le> length buf
        then to_slice v buf = (Inr (enc v), enc v @ drop (length (enc v)) buf)
        else isl (fst (to_slice v buf)))"

lemma slice_codec_encode:
  assumes "slice_codec enc to_slice from_bytes" "length (enc v) \<le> length buf"
  shows "postcard_encode to_slice v buf =
    (Inr (length (enc v)), enc v @ drop (length (enc v)) buf)"
  using assms by (simp add: slice_codec_def postcard_encode_def)

lemma slice_codec_decode:
  "slice_codec enc to_slice from_bytes \<Longrightarrow>
     postcard_decode from_bytes (enc v) = Inr v"
  by (simp add: slice_codec_def postcard_decode_def)

lemma codec_test_1:
  "slice_codec enc to_slice from_bytes \<Longrightarrow> length (enc sample_snapshot) \<le> PAYLOAD_MAX \<Longrightarrow>
     state_snapshot_round_trips to_slice from_bytes"
  by (simp add: state_snapshot_round_trips_def slice_codec_encode slice_codec_decode)

lemma codec_test_2:
  "slice_codec enc to_slice from_bytes \<Longrightarrow> \<forall>c\<in>set cmds. length (enc c) \<le> length buf \<Longrightarrow>
     command_round_trips to_slice from_bytes buf cmds"
  by (induction cmds arbitrary: buf) (simp_all add: slice_codec_encode slice_codec_decode)

lemma codec_test_3:
  "slice_codec enc to_slice from_bytes \<Longrightarrow> 1 < length (enc sample_snapshot) \<Longrightarrow>
     encode_into_too_small_a_buffer_errors to_slice"
  unfolding encode_into_too_small_a_buffer_errors_def slice_codec_def postcard_encode_def
  by (auto dest!: spec [of _ sample_snapshot] spec [of _ "[0]"] split: prod.split sum.split if_splits)

end
