(* ===== verification/ControlTests.thy ===== *)
theory ControlTests
  imports ControlSpec
begin

text \<open>
  The unit tests of the control cycle (\<open>mod tests\<close> of \<open>baler-daemon/src/control.rs\<close>), replayed on
  the model with the recording network and bus ports of the tests. A test is a script: scans of
  inputs and commands, and the assertions between them on what the last cycle answered. Scripts
  that do not look at the ports are carried over to the specification, where pulses are numbers.
\<close>

subsection \<open>Scripts\<close>

datatype 'v item = Scan inputs "command list" | Expect "'v \<Rightarrow> bool"

text \<open>The scans are run in order; an assertion is about the last cycle before it.\<close>

fun play :: "('s \<Rightarrow> inputs \<times> command list \<Rightarrow> 'o \<times> 's) \<Rightarrow> ('o \<Rightarrow> 'v) \<Rightarrow> 'v item list \<Rightarrow> 'v option \<Rightarrow> 's
    \<Rightarrow> bool \<times> 's" where
  "play step view [] v s = (True, s)"
| "play step view (Scan i cmds # items) v s =
     (let (out1, s') = step s (i, cmds) in play step view items (Some (view out1)) s')"
| "play step view (Expect P # items) v s =
     (let (ok, s') = play step view items v s in ((case v of None \<Rightarrow> False | Some x \<Rightarrow> P x) \<and> ok, s'))"

definition scans :: "nat \<Rightarrow> inputs \<Rightarrow> 'v item list" where
  "scans n i = replicate n (Scan i [])"

subsection \<open>The ports and inputs of the tests\<close>

record fake_net =
  to_ethernet :: u32
  to_ethercat :: u32

definition fake_net_port :: "fake_net net_port" where
  "fake_net_port =
     \<lparr>np_enter_ethernet = (\<lambda>n. (Inr (192, 168, 1, 102), n\<lparr>to_ethernet := to_ethernet n + 1\<rparr>)),
      np_enter_ethercat = (\<lambda>n. (Inr (), n\<lparr>to_ethercat := to_ethercat n + 1\<rparr>))\<rparr>"

record fake_bus =
  suspends :: u32
  restarts :: u32

definition fake_bus_port :: "fake_bus bus_port" where
  "fake_bus_port =
     \<lparr>bp_suspend = (\<lambda>b. b\<lparr>suspends := suspends b + 1\<rparr>),
      bp_restart = (\<lambda>b. b\<lparr>restarts := restarts b + 1\<rparr>)\<rparr>"

definition healthy :: inputs where
  "healthy = \<lparr>in_bale_full = False, in_knife_in = False, in_bale_open = False, in_healthy = True\<rparr>"

definition full :: inputs where
  "full = \<lparr>in_bale_full = True, in_knife_in = False, in_bale_open = False, in_healthy = True\<rparr>"

definition gate_open :: inputs where
  "gate_open = \<lparr>in_bale_full = False, in_knife_in = False, in_bale_open = True, in_healthy = True\<rparr>"

definition knives_in_input :: inputs where
  "knives_in_input = \<lparr>in_bale_full = False, in_knife_in = True, in_bale_open = False, in_healthy = True\<rparr>"

text \<open>A control cycle on a fresh scratch file, with fresh ports.\<close>

type_synonym machine = "control \<times> (fake_net, fake_bus) world"

definition control_scratch :: "string \<Rightarrow> path" where
  "control_scratch name =
     \<lparr>is_abs = True, comps = [lit ''tmp'', lit ''baler-control-test-'' @ lit name, lit ''counters'']\<rparr>"

definition new_control :: "string \<Rightarrow> machine option" where
  "new_control name =
     (case ctl_new (control_scratch name) \<lparr>files = Map.empty, verdicts = [], older = \<lambda>_. []\<rparr> of
        (Inl _, _) \<Rightarrow> None
      | (Inr c, f) \<Rightarrow> Some (c, \<lparr>w_fs = f, w_net = \<lparr>to_ethernet = 0, to_ethercat = 0\<rparr>,
          w_bus = \<lparr>suspends = 0, restarts = 0\<rparr>\<rparr>))"

definition test_step :: "machine \<Rightarrow> inputs \<times> command list \<Rightarrow> (outputs \<times> state_snapshot) \<times> machine" where
  "test_step = ctl_step fake_net_port fake_bus_port"

definition passes :: "string \<Rightarrow> spec_view item list \<Rightarrow> bool" where
  "passes name items =
     (case new_control name of None \<Rightarrow> False | Some m \<Rightarrow> fst (play test_step observe items None m))"

abbreviation outs :: "spec_view \<Rightarrow> bool \<times> bool \<times> bool" where
  "outs v \<equiv> (out_wrap (sw_outputs v), out_knives_in (sw_outputs v), out_knives_out (sw_outputs v))"

abbreviation counts :: "spec_view \<Rightarrow> nat \<times> nat" where
  "counts v \<equiv> (sw_session v, sw_total v)"

subsection \<open>The tests\<close>

definition healthy_cycle_is_operational_with_low_outputs :: bool where
  "healthy_cycle_is_operational_with_low_outputs = passes ''tracer''
     [Scan healthy [],
      Expect (\<lambda>v. sw_mode v = Operational \<and> outs v = (False, False, False)
        \<and> \<not> sw_wrapping v \<and> \<not> sw_cutting v)]"

definition debounced_bale_full_reaches_state_machine_after_window :: bool where
  "debounced_bale_full_reaches_state_machine_after_window = passes ''debounce''
     [Scan full [], Expect (\<lambda>v. \<not> sw_full v), Scan full [], Scan full [],
      Expect (\<lambda>v. sw_full v \<and> sw_armed v)]"

definition bale_full_latches_for_at_least_20s_after_di1_clears :: bool where
  "bale_full_latches_for_at_least_20s_after_di1_clears = passes ''fulllatch''
     (scans 3 full @ [Expect sw_latched, Scan healthy [], Expect sw_latched]
      @ scans 1000 healthy @ [Expect sw_latched]
      @ scans 1100 healthy @ [Expect (\<lambda>v. \<not> sw_latched v)])"

definition firing_a_wrap_clears_the_full_latch :: bool where
  "firing_a_wrap_clears_the_full_latch = passes ''wrapclears''
     (scans 3 full @ [Expect sw_latched, Scan healthy [Wrap], Expect (\<lambda>v. \<not> sw_latched v)])"

definition manual_io_drives_outputs_directly :: bool where
  "manual_io_drives_outputs_directly = passes ''manualon''
     [Scan healthy [],
      Scan healthy [ManualIo True False False], Expect (\<lambda>v. outs v = (True, False, False)),
      Scan healthy [ManualIo False True False], Expect (\<lambda>v. outs v = (False, True, False)),
      Scan healthy [ManualIo False False True],
      Expect (\<lambda>v. out_knives_out (sw_outputs v) \<and> \<not> out_knives_in (sw_outputs v))]"

definition manual_io_interlocks_the_two_knife_outputs :: bool where
  "manual_io_interlocks_the_two_knife_outputs = passes ''manualinterlock''
     [Scan healthy [], Scan healthy [ManualIo False True True],
      Expect (\<lambda>v. out_knives_in (sw_outputs v) \<and> \<not> out_knives_out (sw_outputs v))]"

definition manual_io_watchdog_de_energizes_and_restores_control :: bool where
  "manual_io_watchdog_de_energizes_and_restores_control = passes ''manualwd''
     ([Scan healthy [], Scan healthy [ManualIo True True False],
       Expect (\<lambda>v. out_wrap (sw_outputs v) \<and> out_knives_in (sw_outputs v))]
      @ scans (unat MANUAL_IO_WATCHDOG) healthy @ [Expect (\<lambda>v. outs v = (False, False, False)),
       Scan healthy [Wrap], Expect (\<lambda>v. out_wrap (sw_outputs v) \<and> sw_wrapping v)])"

definition manual_io_outputs_suppressed_when_bus_unhealthy :: bool where
  "manual_io_outputs_suppressed_when_bus_unhealthy = passes ''manualunhealthy''
     [Scan healthy [],
      Scan \<lparr>in_bale_full = False, in_knife_in = False, in_bale_open = False, in_healthy = False\<rparr>
        [ManualIo True True True],
      Expect (\<lambda>v. outs v = (False, False, False))]"

definition wrap_command_drives_do1_while_pulse_active :: bool where
  "wrap_command_drives_do1_while_pulse_active = passes ''wrap''
     [Scan healthy [], Scan healthy [Wrap],
      Expect (\<lambda>v. outs v = (True, False, False) \<and> sw_wrapping v)]"

definition knife_command_with_ch2_false_drives_knives_out_do3 :: bool where
  "knife_command_with_ch2_false_drives_knives_out_do3 = passes ''knifeout''
     [Scan healthy [], Scan healthy [ToggleKnife],
      Expect (\<lambda>v. outs v = (False, False, True) \<and> sw_cutting v)]"

definition knife_command_with_ch2_true_drives_knives_in_do2 :: bool where
  "knife_command_with_ch2_true_drives_knives_in_do2 = passes ''knifein''
     (scans (unat DEBOUNCE) knives_in_input @ [Scan knives_in_input [ToggleKnife],
      Expect (\<lambda>v. outs v = (False, True, False) \<and> sw_cutting v)])"

definition knife_outputs_interlock_when_ch2_flips_mid_pulse :: bool where
  "knife_outputs_interlock_when_ch2_flips_mid_pulse = passes ''knifeinterlock''
     ([Scan healthy [], Scan healthy [ToggleKnife],
       Expect (\<lambda>v. out_knives_out (sw_outputs v) \<and> \<not> out_knives_in (sw_outputs v))]
      @ scans (unat DEBOUNCE) knives_in_input @ [Scan knives_in_input [ToggleKnife],
       Expect (\<lambda>v. out_knives_out (sw_outputs v) \<and> \<not> out_knives_in (sw_outputs v))])"

definition completed_wrap_pulse_no_longer_counts :: bool where
  "completed_wrap_pulse_no_longer_counts = passes ''wrapnocount''
     ([Scan healthy [], Scan healthy [Wrap]] @ scans 600 healthy
      @ [Expect (\<lambda>v. \<not> sw_wrapping v \<and> counts v = (0, 0))])"

definition manual_session_correction_moves_session_only :: bool where
  "manual_session_correction_moves_session_only = passes ''sessadjust''
     ([Scan healthy []] @ scans (unat DEBOUNCE) gate_open @ scans (unat DEBOUNCE) healthy
      @ scans (unat DEBOUNCE) gate_open @ [Expect (\<lambda>v. counts v = (2, 2)),
       Scan healthy [AdjustSession 1], Expect (\<lambda>v. counts v = (3, 2))]
      @ replicate 10 (Scan healthy [AdjustSession (- 1)]) @ [Expect (\<lambda>v. counts v = (0, 2))])"

definition di3_open_edge_counts_one_bale_after_debounce :: bool where
  "di3_open_edge_counts_one_bale_after_debounce = passes ''baleedge''
     ([Scan healthy []] @ scans (unat DEBOUNCE) gate_open @ [Expect (\<lambda>v. counts v = (1, 1))]
      @ scans 50 gate_open @ [Expect (\<lambda>v. sw_session v = 1)]
      @ scans (unat DEBOUNCE) healthy @ scans (unat DEBOUNCE) gate_open
      @ [Expect (\<lambda>v. counts v = (2, 2))])"

text \<open>\<open>snap_session_after_recovery\<close>: the gate stays open while the bus recovers.\<close>

definition session_after_recovery :: "(spec_view \<Rightarrow> bool) \<Rightarrow> spec_view item list" where
  "session_after_recovery check = scans (unat DEBOUNCE + 2) gate_open @ [Expect check]"

definition di3_open_edge_while_unhealthy_does_not_count :: bool where
  "di3_open_edge_while_unhealthy_does_not_count = passes ''baleunhealthy''
     ([Scan healthy []]
      @ scans 10 \<lparr>in_bale_full = False, in_knife_in = False, in_bale_open = True, in_healthy = False\<rparr>
      @ [Expect (\<lambda>v. sw_session v = 0)] @ session_after_recovery (\<lambda>v. sw_session v = 0))"

definition bus_loss_faults_clears_inputs_and_aborts_pulse :: bool where
  "bus_loss_faults_clears_inputs_and_aborts_pulse = passes ''busloss''
     (scans 3 full @ [Scan full [Wrap],
      Scan \<lparr>in_bale_full = True, in_knife_in = False, in_bale_open = False, in_healthy = False\<rparr> [],
      Expect (\<lambda>v. sw_mode v = Fault \<and> \<not> sw_full v \<and> sw_knife v = KUnknown
        \<and> \<not> out_wrap (sw_outputs v) \<and> sw_session v = 0)])"

text \<open>The tests that look at the ports, the address and the idle snapshot.\<close>

definition after_scans :: "machine \<Rightarrow> (inputs \<times> command list) list \<Rightarrow> machine" where
  "after_scans m xs = run_end test_step m xs"

definition idle_snapshot_reports_the_given_mode :: bool where
  "idle_snapshot_reports_the_given_mode \<longleftrightarrow>
     (case new_control ''idlesnap'' of None \<Rightarrow> False
      | Some m \<Rightarrow>
          let c = after_scans m ((healthy, []) # replicate (unat DEBOUNCE) (gate_open, []));
              snap = ctl_idle_snapshot Fault (fst c)
          in ss_mode snap = Fault \<and> ss_knife snap = KUnknown
             \<and> \<not> ss_bale_full snap \<and> \<not> ss_wrap_active snap \<and> \<not> ss_knife_active snap
             \<and> \<not> ss_di1 snap \<and> \<not> ss_di2 snap \<and> \<not> ss_di3 snap \<and> \<not> ss_ip_valid snap
             \<and> ss_session snap = 1 \<and> ss_total snap = 1)"

definition ethernet_switch_drives_network_and_snapshot_ip :: bool where
  "ethernet_switch_drives_network_and_snapshot_ip \<longleftrightarrow>
     (case new_control ''netmode'' of None \<Rightarrow> False
      | Some m \<Rightarrow>
          let m1 = after_scans m [(healthy, [])];
              ((_, snap), m2) = test_step m1 (healthy, [EnterEthernet]);
              ((_, snap2), m3) = test_step m2 (healthy, [ReturnToEthercat])
          in to_ethernet (w_net (snd m2)) = 1 \<and> ss_ip_valid snap \<and> ss_ip snap = (192, 168, 1, 102)
             \<and> ss_mode snap = Ethernet \<and> to_ethercat (w_net (snd m3)) = 1 \<and> \<not> ss_ip_valid snap2)"

definition entering_ethernet_mode_suspends_the_ethercat_bus :: bool where
  "entering_ethernet_mode_suspends_the_ethercat_bus \<longleftrightarrow>
     (case new_control ''suspend'' of None \<Rightarrow> False
      | Some m \<Rightarrow>
          let b = w_bus (snd (after_scans m [(healthy, []), (healthy, [EnterEthernet])]))
          in suspends b = 1 \<and> restarts b = 0)"

definition normal_cycles_leave_the_bus_master_untouched :: bool where
  "normal_cycles_leave_the_bus_master_untouched \<longleftrightarrow>
     (case new_control ''nobus'' of None \<Rightarrow> False
      | Some m \<Rightarrow>
          let b = w_bus (snd (after_scans m
                ([(healthy, []), (healthy, [Wrap])] @ replicate 5 (full, []))))
          in suspends b = 0 \<and> restarts b = 0)"

definition returning_to_ethercat_restarts_the_bus :: bool where
  "returning_to_ethercat_restarts_the_bus \<longleftrightarrow>
     (case new_control ''restart'' of None \<Rightarrow> False
      | Some m \<Rightarrow>
          let b = w_bus (snd (after_scans m
                [(healthy, []), (healthy, [EnterEthernet]), (healthy, [ReturnToEthercat])]))
          in restarts b = 1 \<and> suspends b = 1)"

subsection \<open>Scripts on the specification\<close>

lemma play_spec:
  assumes "represents (fst cw) s"
  shows "fst (play (ctl_step net bus) observe items v cw) = fst (play spec_step id items v s)"
  using assms
proof (induction items arbitrary: v cw s)
  case Nil
  then show ?case by simp
next
  case (Cons item items)
  show ?case
  proof (cases item)
    case (Scan i cmds)
    show ?thesis
      using Cons.IH [OF ctl_spec.sim_next [OF Cons.prems, of net bus "(i, cmds)"]]
        ctl_spec.sim_view [OF Cons.prems, of net bus "(i, cmds)"]
      by (simp add: Scan split_beta)
  next
    case (Expect P)
    then show ?thesis using Cons.IH [OF Cons.prems, of v] by (simp add: split_beta)
  qed
qed

lemma new_control_some:
  "\<exists>m. new_control name = Some m \<and> represents (fst m) (spec_init 0 0)"
proof -
  have "fst (ctl_new (control_scratch name) \<lparr>files = Map.empty, verdicts = [], older = \<lambda>_. []\<rparr>) =
      Inr (ctl_init \<lparr>cs_path = control_scratch name, cs_counters = counters_default\<rparr>)"
    by (simp add: ctl_new_def cs_load_def read_to_string_def next_verdict_def)
  moreover have "represents (ctl_init \<lparr>cs_path = control_scratch name, cs_counters = counters_default\<rparr>)
      (spec_init 0 0)"
    using represents_init [of "\<lparr>cs_path = control_scratch name, cs_counters = counters_default\<rparr>"]
    by (simp add: counters_default_def)
  ultimately show ?thesis
    by (auto simp: new_control_def split: prod.split)
qed

lemma passes_spec: "passes name items = fst (play spec_step id items None (spec_init 0 0))"
  using new_control_some [of name] play_spec unfolding passes_def test_step_def by fastforce

subsection \<open>They pass\<close>

lemmas spec_eval = spec_step_def spec_sense_def spec_commands_def spec_drive_def spec_view_of_def
  knife_tick_def full_level_def knife_level_def open_level_def cap64_def spec_init_def
  healthy_def full_def gate_open_def knives_in_input_def

lemma debounce_scans: "unat DEBOUNCE = 3" "unat MANUAL_IO_WATCHDOG = 30"
  by (simp_all add: DEBOUNCE_def MANUAL_IO_WATCHDOG_def)

lemma control_test_1: healthy_cycle_is_operational_with_low_outputs
  unfolding healthy_cycle_is_operational_with_low_outputs_def passes_spec
  by (simp add: spec_eval)

lemma scans_simps [simp]:
  "scans 0 i = []" "scans (Suc n) i = Scan i [] # scans n i"
  "scans (numeral k) i = Scan i [] # scans (pred_numeral k) i"
  by (simp_all add: scans_def numeral_eq_Suc)

lemma control_test_2: debounced_bale_full_reaches_state_machine_after_window
  unfolding debounced_bale_full_reaches_state_machine_after_window_def passes_spec
  by (simp add: spec_eval)

lemma control_test_4: firing_a_wrap_clears_the_full_latch
  unfolding firing_a_wrap_clears_the_full_latch_def passes_spec
  by (simp add: spec_eval)

lemma control_test_5: manual_io_drives_outputs_directly
  unfolding manual_io_drives_outputs_directly_def passes_spec
  by (simp add: spec_eval)

lemma control_test_6: manual_io_interlocks_the_two_knife_outputs
  unfolding manual_io_interlocks_the_two_knife_outputs_def passes_spec
  by (simp add: spec_eval)

lemma control_test_7: manual_io_watchdog_de_energizes_and_restores_control
  unfolding manual_io_watchdog_de_energizes_and_restores_control_def passes_spec
  by (simp add: spec_eval debounce_scans)

lemma control_test_8: manual_io_outputs_suppressed_when_bus_unhealthy
  unfolding manual_io_outputs_suppressed_when_bus_unhealthy_def passes_spec
  by (simp add: spec_eval)

lemma control_test_9: wrap_command_drives_do1_while_pulse_active
  unfolding wrap_command_drives_do1_while_pulse_active_def passes_spec
  by (simp add: spec_eval)

lemma control_test_10: knife_command_with_ch2_false_drives_knives_out_do3
  unfolding knife_command_with_ch2_false_drives_knives_out_do3_def passes_spec
  by (simp add: spec_eval)

lemma control_test_11: knife_command_with_ch2_true_drives_knives_in_do2
  unfolding knife_command_with_ch2_true_drives_knives_in_do2_def passes_spec
  by (simp add: spec_eval debounce_scans)

lemma control_test_12: knife_outputs_interlock_when_ch2_flips_mid_pulse
  unfolding knife_outputs_interlock_when_ch2_flips_mid_pulse_def passes_spec
  by (simp add: spec_eval debounce_scans)

lemma replicate_numeral_Cons: "replicate (numeral k) x = x # replicate (pred_numeral k) x"
  by (simp add: numeral_eq_Suc)

lemma control_test_14: manual_session_correction_moves_session_only
  unfolding manual_session_correction_moves_session_only_def passes_spec
  by (simp add: spec_eval debounce_scans replicate_numeral_Cons)

lemma control_test_15: di3_open_edge_counts_one_bale_after_debounce
  unfolding di3_open_edge_counts_one_bale_after_debounce_def passes_spec
  by (simp add: spec_eval debounce_scans)

lemma control_test_16: di3_open_edge_while_unhealthy_does_not_count
  unfolding di3_open_edge_while_unhealthy_does_not_count_def passes_spec
  by (simp add: spec_eval debounce_scans session_after_recovery_def)

lemma control_test_17: bus_loss_faults_clears_inputs_and_aborts_pulse
  unfolding bus_loss_faults_clears_inputs_and_aborts_pulse_def passes_spec
  by (simp add: spec_eval)

text \<open>Quiet scans on a healthy bus: the countdowns run, nothing else moves.\<close>

definition spec_idle :: "spec \<Rightarrow> bool" where
  "spec_idle s \<longleftrightarrow> sp_mode s = Operational \<and> sp_manual s = 0 \<and> sp_knife s = Resting
     \<and> \<not> full_level (sp_hist s) \<and> \<not> open_level (sp_hist s)"

definition idle_next :: "nat \<Rightarrow> spec \<Rightarrow> spec" where
  "idle_next n s = s\<lparr>sp_hist := replicate n healthy @ sp_hist s, sp_wrap := sp_wrap s - n,
     sp_latch := sp_latch s - n\<rparr>"

definition idle_view :: "spec \<Rightarrow> spec_view" where
  "idle_view s = spec_view_of healthy
     \<lparr>out_wrap = (sp_wrap s \<noteq> 0), out_knives_in = False, out_knives_out = False\<rparr> s"

lemma settled_low: "\<not> settled h \<Longrightarrow> \<not> settled (False # h)"
  by (simp only: settled_Cons) simp

lemma spec_idle_step:
  assumes "spec_idle s"
  shows "spec_step s (healthy, []) = (idle_view (idle_next 1 s), idle_next 1 s)"
    and "spec_idle (idle_next 1 s)"
proof -
  have low: "\<not> full_level (healthy # sp_hist s)" "\<not> open_level (healthy # sp_hist s)"
    using assms settled_low by (simp_all add: spec_idle_def full_level_def open_level_def healthy_def)
  then show "spec_idle (idle_next 1 s)" using assms by (simp add: spec_idle_def idle_next_def)
  have h: "in_healthy healthy" by (simp add: healthy_def)
  let ?d = "spec_drive healthy False (spec_commands [] (spec_sense healthy s))"
  have "snd ?d = idle_next 1 s"
    by (rule spec.equality)
      (use assms low h in \<open>simp_all add: spec_sense_def spec_commands_def spec_drive_def knife_tick_def
        spec_idle_def idle_next_def Let_def\<close>)
  moreover have "fst ?d = \<lparr>out_wrap = (sp_wrap (idle_next 1 s) \<noteq> 0), out_knives_in = False, out_knives_out = False\<rparr>"
    using assms low h
    by (simp add: spec_sense_def spec_commands_def spec_drive_def knife_tick_def spec_idle_def
        idle_next_def Let_def not_le)
  ultimately show "spec_step s (healthy, []) = (idle_view (idle_next 1 s), idle_next 1 s)"
    by (simp add: spec_step_def idle_view_def split_beta)
qed

lemma play_idle:
  assumes "spec_idle s"
  shows "play spec_step id (scans (Suc n) healthy @ items) v s =
    play spec_step id items (Some (idle_view (idle_next (Suc n) s))) (idle_next (Suc n) s)"
  using assms
proof (induction n arbitrary: s v)
  case 0
  then show ?case using spec_idle_step [OF 0] by simp
next
  case (Suc n)
  have "idle_next (Suc n) (idle_next 1 s) = idle_next (Suc (Suc n)) s"
    by (simp add: idle_next_def replicate_app_Cons_same)
  then show ?case
    using Suc.IH [OF spec_idle_step(2) [OF Suc.prems]] spec_idle_step(1) [OF Suc.prems]
    by (simp only: scans_simps(2) append_Cons play.simps) (simp add: id_def)
qed

lemma play_idle_run:
  assumes "spec_idle s" "0 < n"
  shows "play spec_step id (scans n healthy @ items) v s =
    play spec_step id items (Some (idle_view (idle_next n s))) (idle_next n s)"
  using assms(2) play_idle [OF assms(1), of "n - 1" items v] by simp

lemma spec_idle_next: "spec_idle s \<Longrightarrow> spec_idle (idle_next n s)"
proof (induction n)
  case 0
  then show ?case by (simp add: idle_next_def)
next
  case (Suc n)
  have "idle_next 1 (idle_next n s) = idle_next (Suc n) s"
    by (simp add: idle_next_def)
  then show ?case using spec_idle_step(2) [OF Suc.IH [OF Suc.prems]] by simp
qed

lemma idle_view_fields:
  "spec_idle s \<Longrightarrow> sw_latched (idle_view s) = (sp_latch s \<noteq> 0)"
  "spec_idle s \<Longrightarrow> sw_wrapping (idle_view s) = (sp_wrap s \<noteq> 0)"
  "spec_idle s \<Longrightarrow> sw_session (idle_view s) = sp_session s"
  "spec_idle s \<Longrightarrow> sw_total (idle_view s) = sp_total s"
  by (simp_all add: idle_view_def spec_view_of_def Let_def)

lemma idle_next_fields [simp]:
  "sp_latch (idle_next n s) = sp_latch s - n" "sp_wrap (idle_next n s) = sp_wrap s - n"
  "sp_session (idle_next n s) = sp_session s" "sp_total (idle_next n s) = sp_total s"
  by (simp_all add: idle_next_def)

text \<open>The two tests that wait: the state before the wait is computed, the wait is one step.\<close>

lemma scans_add: "scans (m + n) i = scans m i @ scans n i"
  by (simp add: scans_def replicate_add)

lemma play_two:
  "play step id (Scan i c # Scan j d # items) v s =
    (let s1 = snd (step s (i, c)); r = step s1 (j, d) in play step id items (Some (fst r)) (snd r))"
  by (simp add: split_beta Let_def)

lemma control_test_13: completed_wrap_pulse_no_longer_counts
proof -
  define s where "s = snd (spec_step (snd (spec_step (spec_init 0 0) (healthy, []))) (healthy, [Wrap]))"
  have s: "spec_idle s" "sp_wrap s = 499" "sp_session s = 0" "sp_total s = 0"
    by (simp_all add: s_def spec_idle_def spec_eval)
  have "passes ''wrapnocount'' ([Scan healthy [], Scan healthy [Wrap]] @ scans 600 healthy
      @ [Expect (\<lambda>v. \<not> sw_wrapping v \<and> counts v = (0, 0))])"
    unfolding passes_spec append_Cons append_Nil play_two Let_def s_def [symmetric]
    using s by (simp add: play_idle_run spec_idle_next idle_view_fields del: scans_simps)
  then show ?thesis unfolding completed_wrap_pulse_no_longer_counts_def .
qed

lemma control_test_3: bale_full_latches_for_at_least_20s_after_di1_clears
proof -
  define t where "t = run_end spec_step (spec_init 0 0)
      [(full, []), (full, []), (full, []), (healthy, []), (healthy, []), (healthy, [])]"
  have t: "spec_idle t" "sp_latch t = 1999"
    by (simp_all add: t_def spec_idle_def spec_eval)
  have 1000: "scans 1000 healthy = [Scan healthy [], Scan healthy []] @ scans 998 healthy"
    using scans_add [of 2 998 healthy] by (simp add: scans_def numeral_eq_Suc [of "num.Bit0 num.One"])
  have latched: "fst (play spec_step id (scans 3 full @ [Expect sw_latched, Scan healthy [], Expect sw_latched]
      @ [Scan healthy [], Scan healthy []] @ rest) None (spec_init 0 0)) =
      fst (play spec_step id rest (Some (spec_view_of healthy
        \<lparr>out_wrap = False, out_knives_in = False, out_knives_out = False\<rparr> t)) t)" for rest
    by (simp add: t_def split_beta spec_eval)
  show ?thesis
    unfolding bale_full_latches_for_at_least_20s_after_di1_clears_def passes_spec 1000 append_assoc latched
    using t by (simp add: play_idle_run spec_idle_next idle_view_fields del: scans_simps)
qed

subsection \<open>The tests of the ports pass\<close>

lemma new_control_start:
  "new_control name = Some m \<Longrightarrow> represents (fst m) (spec_init 0 0) \<and> ct_last_ip (fst m) = None
    \<and> w_net (snd m) = \<lparr>to_ethernet = 0, to_ethercat = 0\<rparr> \<and> w_bus (snd m) = \<lparr>suspends = 0, restarts = 0\<rparr>"
  using new_control_some [of name]
  by (auto simp: new_control_def ctl_new_def cs_load_def read_to_string_def next_verdict_def ctl_init_def
      split: prod.splits sum.splits if_splits)

lemma represents_run:
  "represents (fst m) s \<Longrightarrow> represents (fst (after_scans m xs)) (run_end spec_step s xs)"
  unfolding after_scans_def test_step_def by (rule ctl_spec.sim_run_end)

lemma quiet_ports:
  "w_net (snd (snd (test_step m (i, [])))) = w_net (snd m)"
  "w_bus (snd (snd (test_step m (i, [])))) = w_bus (snd m)"
  "ct_last_ip (fst (snd (test_step m (i, [])))) = ct_last_ip (fst m)"
  "w_net (snd (snd (test_step m (i, [Wrap])))) = w_net (snd m)"
  "w_bus (snd (snd (test_step m (i, [Wrap])))) = w_bus (snd m)"
  unfolding test_step_def ctl_step_fields ctl_body_def
proof -
  show "w_net (snd (snd (ctl_commands fake_net_port fake_bus_port (snd (i, [Wrap])) (ctl_pre (fst (i, [Wrap])) m))))
      = w_net (snd m)"
    and "w_bus (snd (snd (ctl_commands fake_net_port fake_bus_port (snd (i, [Wrap])) (ctl_pre (fst (i, [Wrap])) m))))
      = w_bus (snd m)"
    by (cases "ct_manual_io_remaining (fst m) = 0")
      (simp_all add: ctl_commands_single ctl_commands_def ctl_command_def Let_def split_beta ctl_action_ports
        require_operational_def ctl_action_def)
qed (simp_all add: ctl_commands_def)

text \<open>A cycle with one command of a mode switch, out of manual-IO and with no pulse running.\<close>

lemma switch_cycle:
  assumes "represents (fst m) s" "sp_manual s = 0" "sp_wrap s = 0" "sp_knife s = Resting"
  shows "sp_mode s \<noteq> Ethernet \<Longrightarrow>
      w_net (snd (snd (test_step m (i, [EnterEthernet])))) = (w_net (snd m))\<lparr>to_ethernet := to_ethernet (w_net (snd m)) + 1\<rparr>
      \<and> w_bus (snd (snd (test_step m (i, [EnterEthernet])))) = (w_bus (snd m))\<lparr>suspends := suspends (w_bus (snd m)) + 1\<rparr>
      \<and> ct_last_ip (fst (snd (test_step m (i, [EnterEthernet])))) = Some (192, 168, 1, 102)"
    and "sp_mode s = Ethernet \<Longrightarrow>
      w_net (snd (snd (test_step m (i, [ReturnToEthercat])))) = (w_net (snd m))\<lparr>to_ethercat := to_ethercat (w_net (snd m)) + 1\<rparr>
      \<and> w_bus (snd (snd (test_step m (i, [ReturnToEthercat])))) = (w_bus (snd m))\<lparr>restarts := restarts (w_bus (snd m)) + 1\<rparr>
      \<and> ct_last_ip (fst (snd (test_step m (i, [ReturnToEthercat])))) = None"
proof -
  let ?p = "ctl_pre i m"
  have r: "represents (fst ?p) (spec_sense i s)" by (rule represents_sense [OF assms(1)])
  have z: "ct_manual_io_remaining (fst ?p) = 0"
    using assms(1,2) by (simp add: represents_def unat_eq_zero)
  have idle: "\<not> ctl_any_active (fst ?p)"
    using represents_active(3) [OF r] assms(3,4) by (simp add: spec_sense_def Let_def)
  have mode: "bs_mode (ct_state (fst ?p)) = Ethernet \<longleftrightarrow> sp_mode s = Ethernet"
    using r by (simp add: represents_def spec_sense_def Let_def)
  show "sp_mode s \<noteq> Ethernet \<Longrightarrow>
      w_net (snd (snd (test_step m (i, [EnterEthernet])))) = (w_net (snd m))\<lparr>to_ethernet := to_ethernet (w_net (snd m)) + 1\<rparr>
      \<and> w_bus (snd (snd (test_step m (i, [EnterEthernet])))) = (w_bus (snd m))\<lparr>suspends := suspends (w_bus (snd m)) + 1\<rparr>
      \<and> ct_last_ip (fst (snd (test_step m (i, [EnterEthernet])))) = Some (192, 168, 1, 102)"
    using bs_handle_accepts(3) [of EnterEthernet "ctl_any_active (fst ?p)" "ct_state (fst ?p)"] idle mode
    by (simp add: test_step_def ctl_step_fields ctl_body_def ctl_commands_single [OF z] ctl_action_def
        fake_net_port_def fake_bus_port_def del: bs_handle.simps)
  show "sp_mode s = Ethernet \<Longrightarrow>
      w_net (snd (snd (test_step m (i, [ReturnToEthercat])))) = (w_net (snd m))\<lparr>to_ethercat := to_ethercat (w_net (snd m)) + 1\<rparr>
      \<and> w_bus (snd (snd (test_step m (i, [ReturnToEthercat])))) = (w_bus (snd m))\<lparr>restarts := restarts (w_bus (snd m)) + 1\<rparr>
      \<and> ct_last_ip (fst (snd (test_step m (i, [ReturnToEthercat])))) = None"
    using bs_handle_accepts(4) [of ReturnToEthercat "ctl_any_active (fst ?p)" "ct_state (fst ?p)"] mode
    by (simp add: test_step_def ctl_step_fields ctl_body_def ctl_commands_single [OF z] ctl_action_def
        fake_net_port_def fake_bus_port_def del: bs_handle.simps)
qed

lemma after_scans_Cons [simp]: "after_scans m (x # xs) = after_scans (snd (test_step m x)) xs"
  and after_scans_Nil [simp]: "after_scans m [] = m"
  by (simp_all add: after_scans_def)

lemma test_view: "represents (fst m) s \<Longrightarrow> observe (fst (test_step m x)) = fst (spec_step s x)"
  and test_next: "represents (fst m) s \<Longrightarrow> represents (fst (snd (test_step m x))) (snd (spec_step s x))"
  unfolding test_step_def by (rule ctl_spec.sim_view, assumption, rule ctl_spec.sim_next, assumption)

lemma test_snapshot: "snd (fst (test_step m x)) = ctl_snapshot (fst (snd (test_step m x)))"
  by (simp add: test_step_def ctl_snapshot_after)

text \<open>The specification after the first healthy cycle, and after the switch to Ethernet.\<close>

lemma spec_first:
  defines "s1 \<equiv> snd (spec_step (spec_init 0 0) (healthy, []))"
  shows "sp_mode s1 = Operational" "sp_manual s1 = 0" "sp_wrap s1 = 0" "sp_knife s1 = Resting"
    "sp_mode (snd (spec_step s1 (healthy, [EnterEthernet]))) = Ethernet"
    "sp_manual (snd (spec_step s1 (healthy, [EnterEthernet]))) = 0"
    "sp_wrap (snd (spec_step s1 (healthy, [EnterEthernet]))) = 0"
    "sp_knife (snd (spec_step s1 (healthy, [EnterEthernet]))) = Resting"
  by (simp_all add: s1_def spec_eval)

text \<open>What the two switches of the tests leave behind, from a new machine.\<close>

lemma switch_run:
  assumes "new_control name = Some m"
  defines "m1 \<equiv> snd (test_step m (healthy, []))"
  defines "m2 \<equiv> snd (test_step m1 (healthy, [EnterEthernet]))"
  defines "m3 \<equiv> snd (test_step m2 (healthy, [ReturnToEthercat]))"
  shows "w_net (snd m2) = \<lparr>to_ethernet = 1, to_ethercat = 0\<rparr>" "w_bus (snd m2) = \<lparr>suspends = 1, restarts = 0\<rparr>"
    "ct_last_ip (fst m2) = Some (192, 168, 1, 102)" "bs_mode (ct_state (fst m2)) = Ethernet"
    "w_net (snd m3) = \<lparr>to_ethernet = 1, to_ethercat = 1\<rparr>" "w_bus (snd m3) = \<lparr>suspends = 1, restarts = 1\<rparr>"
    "ct_last_ip (fst m3) = None"
proof -
  note n = new_control_start [OF assms(1)]
  have r1: "represents (fst m1) (snd (spec_step (spec_init 0 0) (healthy, [])))"
    unfolding m1_def using n test_next by blast
  have r2: "represents (fst m2) (snd (spec_step (snd (spec_step (spec_init 0 0) (healthy, []))) (healthy, [EnterEthernet])))"
    unfolding m2_def by (rule test_next [OF r1])
  have p1: "w_net (snd m1) = w_net (snd m)" "w_bus (snd m1) = w_bus (snd m)"
    by (simp_all add: m1_def quiet_ports)
  have "sp_mode (snd (spec_step (spec_init 0 0) (healthy, []))) \<noteq> Ethernet" by (simp add: spec_first)
  note a = switch_cycle(1) [OF r1 spec_first(2-4) this, of healthy, folded m2_def]
  note b = switch_cycle(2) [OF r2 spec_first(6-8) spec_first(5), of healthy, folded m3_def]
  show "w_net (snd m2) = \<lparr>to_ethernet = 1, to_ethercat = 0\<rparr>" "w_bus (snd m2) = \<lparr>suspends = 1, restarts = 0\<rparr>"
      "ct_last_ip (fst m2) = Some (192, 168, 1, 102)"
    using a n p1 by simp_all
  then show "w_net (snd m3) = \<lparr>to_ethernet = 1, to_ethercat = 1\<rparr>" "w_bus (snd m3) = \<lparr>suspends = 1, restarts = 1\<rparr>"
      "ct_last_ip (fst m3) = None"
    using b by simp_all
  show "bs_mode (ct_state (fst m2)) = Ethernet"
    using r2 spec_first(5) unfolding represents_def by simp
qed

lemma control_test_18: ethernet_switch_drives_network_and_snapshot_ip
proof -
  obtain m where m: "new_control ''netmode'' = Some m" using new_control_some by blast
  show ?thesis
    using switch_run [OF m]
    by (simp add: ethernet_switch_drives_network_and_snapshot_ip_def m split_beta test_snapshot ctl_snapshot_def Let_def)
qed

lemma control_test_19: entering_ethernet_mode_suspends_the_ethercat_bus
proof -
  obtain m where m: "new_control ''suspend'' = Some m" using new_control_some by blast
  show ?thesis
    using switch_run [OF m] by (simp add: entering_ethernet_mode_suspends_the_ethercat_bus_def m)
qed

lemma control_test_20: normal_cycles_leave_the_bus_master_untouched
proof -
  obtain m where m: "new_control ''nobus'' = Some m" using new_control_some by blast
  show ?thesis
    using new_control_start [OF m]
    by (simp add: normal_cycles_leave_the_bus_master_untouched_def m quiet_ports replicate_numeral_Cons)
qed

lemma control_test_21: returning_to_ethercat_restarts_the_bus
proof -
  obtain m where m: "new_control ''restart'' = Some m" using new_control_some by blast
  show ?thesis
    using switch_run [OF m] by (simp add: returning_to_ethercat_restarts_the_bus_def m)
qed

lemma control_test_22: idle_snapshot_reports_the_given_mode
proof -
  obtain m where m: "new_control ''idlesnap'' = Some m" using new_control_some by blast
  let ?xs = "(healthy, []) # replicate 3 (gate_open, [])"
  have "represents (fst (after_scans m ?xs)) (run_end spec_step (spec_init 0 0) ?xs)"
    using new_control_start [OF m] represents_run by blast
  moreover have "sp_session (run_end spec_step (spec_init 0 0) ?xs) = 1"
      "sp_total (run_end spec_step (spec_init 0 0) ?xs) = 1"
    by (simp_all add: spec_eval replicate_numeral_Cons)
  ultimately have "unat (cn_session (cs_counters (ct_counters (fst (after_scans m ?xs))))) = 1"
      "unat (cn_total (cs_counters (ct_counters (fst (after_scans m ?xs))))) = 1"
    by (simp_all only: represents_def)
  then have "cn_session (cs_counters (ct_counters (fst (after_scans m ?xs)))) = 1"
      "cn_total (cs_counters (ct_counters (fst (after_scans m ?xs)))) = 1"
    by (metis unsigned_1 word_unat_eq_iff)+
  then show ?thesis
    by (simp add: idle_snapshot_reports_the_given_mode_def m debounce_scans ctl_idle_snapshot_def
        cs_snapshot_def Let_def del: after_scans_Cons)
qed

subsection \<open>The property\<close>

text \<open>The 22 unit tests of the control cycle, with the scripts of inputs and commands and the
  recording ports they use, hold of the model: the debounce window, the FULL latch and its 20 s,
  the manual outputs with their interlock, watchdog and bus gate, the pulses in the direction of
  the sensed knives, the counts with their correction and floor, the two network switches with
  the calls they make on the ports, and the recovery from a loss of the bus.\<close>

theorem control_unit_tests:
  "healthy_cycle_is_operational_with_low_outputs
    \<and> debounced_bale_full_reaches_state_machine_after_window
    \<and> bale_full_latches_for_at_least_20s_after_di1_clears
    \<and> firing_a_wrap_clears_the_full_latch
    \<and> manual_io_drives_outputs_directly
    \<and> manual_io_interlocks_the_two_knife_outputs
    \<and> manual_io_watchdog_de_energizes_and_restores_control
    \<and> manual_io_outputs_suppressed_when_bus_unhealthy
    \<and> wrap_command_drives_do1_while_pulse_active
    \<and> knife_command_with_ch2_false_drives_knives_out_do3
    \<and> knife_command_with_ch2_true_drives_knives_in_do2
    \<and> knife_outputs_interlock_when_ch2_flips_mid_pulse
    \<and> completed_wrap_pulse_no_longer_counts
    \<and> manual_session_correction_moves_session_only
    \<and> di3_open_edge_counts_one_bale_after_debounce
    \<and> di3_open_edge_while_unhealthy_does_not_count
    \<and> bus_loss_faults_clears_inputs_and_aborts_pulse
    \<and> ethernet_switch_drives_network_and_snapshot_ip
    \<and> entering_ethernet_mode_suspends_the_ethercat_bus
    \<and> normal_cycles_leave_the_bus_master_untouched
    \<and> returning_to_ethercat_restarts_the_bus
    \<and> idle_snapshot_reports_the_given_mode"
  by (intro conjI control_test_1 control_test_2 control_test_3 control_test_4 control_test_5
      control_test_6 control_test_7 control_test_8 control_test_9 control_test_10 control_test_11
      control_test_12 control_test_13 control_test_14 control_test_15 control_test_16
      control_test_17 control_test_18 control_test_19 control_test_20 control_test_21 control_test_22)

end
