(* ===== verification/PanelTests.thy ===== *)
theory PanelTests
  imports PanelProps NetworkMode
begin

text \<open>
  The unit tests of the panel (the \<open>mod tests\<close> of \<open>baler-ui/src/i18n.rs\<close> and
  \<open>baler-ui/src/main.rs\<close>) and of the network mode (\<open>baler-daemon/src/network_mode.rs\<close>), replayed on
  the model: the language codes, the completeness of the two string tables through the accessors
  of the tests, the screens the mode forces, the formatting of the configured address.
\<close>

subsection \<open>Languages and string tables\<close>

definition lang_code_round_trips_en :: bool where
  "lang_code_round_trips_en \<longleftrightarrow> from_code (as_code En) = En"

definition lang_code_round_trips_de :: bool where
  "lang_code_round_trips_de \<longleftrightarrow> from_code (as_code De) = De"

definition lang_codes_are_correct :: bool where
  "lang_codes_are_correct \<longleftrightarrow> as_code En = lit ''en'' \<and> as_code De = lit ''de''"

definition unknown_code_falls_back_to_default_de :: bool where
  "unknown_code_falls_back_to_default_de \<longleftrightarrow>
     list_all (\<lambda>unknown. from_code (lit unknown) = De)
       [''fr'', ''es'', ''zh'', ''EN'', ''DE'', '''', '' '', ''english'']"

definition lang_default_is_de :: bool where
  "lang_default_is_de \<longleftrightarrow> lang_default = De"

definition lang_other_en_gives_de :: bool where
  "lang_other_en_gives_de \<longleftrightarrow> lang_other En = De"

definition lang_other_de_gives_en :: bool where
  "lang_other_de_gives_en \<longleftrightarrow> lang_other De = En"

definition lang_other_is_involution :: bool where
  "lang_other_is_involution \<longleftrightarrow> lang_other (lang_other En) = En \<and> lang_other (lang_other De) = De"

definition ACCESSORS :: "(string \<times> (strings \<Rightarrow> str)) list" where
  "ACCESSORS =
     [(''title'', title),
      (''language_name'', language_name),
      (''bale_full_banner'', bale_full_banner),
      (''session_caption'', session_caption),
      (''total_caption'', total_caption),
      (''knife_caption'', knife_caption),
      (''sk_wrap'', sk_wrap),
      (''sk_wrapping'', sk_wrapping),
      (''sk_knife_toggle'', sk_knife_toggle),
      (''sk_knife_active'', sk_knife_active),
      (''sk_reset_session'', sk_reset_session),
      (''sk_session_plus'', sk_session_plus),
      (''sk_session_minus'', sk_session_minus),
      (''sk_service'', sk_service),
      (''service_title'', service_title),
      (''enter_pin'', enter_pin),
      (''pin_hint'', pin_hint),
      (''network_caption'', network_caption),
      (''sk_reset_total'', sk_reset_total),
      (''sk_use_ethernet'', sk_use_ethernet),
      (''sk_use_ethercat'', sk_use_ethercat),
      (''sk_io_test'', sk_io_test),
      (''sk_back'', sk_back),
      (''eth_title'', eth_title),
      (''eth_offline'', eth_offline),
      (''static_ip_caption'', static_ip_caption),
      (''sk_return_ethercat'', sk_return_ethercat),
      (''fault_title'', fault_title),
      (''fault_detail'', fault_detail),
      (''fault_hint'', fault_hint),
      (''mode_initialising'', mode_initialising),
      (''mode_operational'', mode_operational),
      (''mode_fault'', mode_fault),
      (''mode_ethernet'', mode_ethernet),
      (''knife_unknown'', knife_unknown),
      (''knife_in'', knife_in),
      (''knife_out'', knife_out),
      (''fault_link_lost'', fault_link_lost)]"

definition every_field_non_empty_in_english :: bool where
  "every_field_non_empty_in_english \<longleftrightarrow>
     (let s = table En in list_all (\<lambda>(name, f). f s \<noteq> []) ACCESSORS)"

definition every_field_non_empty_in_german :: bool where
  "every_field_non_empty_in_german \<longleftrightarrow>
     (let s = table De in list_all (\<lambda>(name, f). f s \<noteq> []) ACCESSORS)"

definition en_and_de_differ_except_for_shared_fields :: bool where
  "en_and_de_differ_except_for_shared_fields \<longleftrightarrow>
     (let en = table En; de = table De
      in list_all (\<lambda>(name, f). name \<in> set [''title'', ''mode_ethernet''] \<or> f en \<noteq> f de) ACCESSORS)"

definition spot_check_en_strings :: bool where
  "spot_check_en_strings \<longleftrightarrow>
     (let s = table En
      in title s = lit ''BALER''
         \<and> language_name s = lit ''ENGLISH''
         \<and> bale_full_banner s = [0x25CF] @ lit '' BALE FULL '' @ [0x2014] @ lit '' READY TO WRAP''
         \<and> pin_hint s = [0x25B2, 0x25BC] @ lit '' digit   '' @ [0x25C0, 0x25B6] @ lit '' position   Enter confirm''
         \<and> fault_title s = [0x26A0] @ lit '' FAULT''
         \<and> 10 \<in> set (fault_detail s)
         \<and> mode_initialising s = lit ''INITIALISING''
         \<and> knife_in s = lit ''IN''
         \<and> knife_out s = lit ''OUT''
         \<and> fault_link_lost s = lit ''ETHERCAT LINK LOST'')"

definition spot_check_de_strings :: bool where
  "spot_check_de_strings \<longleftrightarrow>
     (let s = table De
      in title s = lit ''BALER''
         \<and> language_name s = lit ''DEUTSCH''
         \<and> bale_full_banner s = [0x25CF] @ lit '' BALLEN VOLL '' @ [0x2014] @ lit '' BEREIT ZUM WICKELN''
         \<and> pin_hint s = [0x25B2, 0x25BC] @ lit '' Ziffer   '' @ [0x25C0, 0x25B6] @ lit '' Position   Enter Best'' @ [0xE4] @ lit ''tigen''
         \<and> fault_title s = [0x26A0] @ lit '' ST'' @ [0xD6] @ lit ''RUNG''
         \<and> 10 \<in> set (fault_detail s)
         \<and> mode_initialising s = lit ''INITIALISIERUNG''
         \<and> knife_in s = lit ''INNEN''
         \<and> knife_out s = lit ''AUSSEN''
         \<and> fault_link_lost s = lit ''ETHERCAT-VERBINDUNG VERLOREN'')"

definition table_fn_returns_correct_table :: bool where
  "table_fn_returns_correct_table \<longleftrightarrow>
     language_name (table En) = language_name EN \<and> language_name (table De) = language_name DE
     \<and> language_name (table En) \<noteq> language_name (table De)"

definition accessor_count_matches_expectation :: bool where
  "accessor_count_matches_expectation \<longleftrightarrow> length ACCESSORS = 38"

lemma language_tests:
  lang_code_round_trips_en lang_code_round_trips_de lang_codes_are_correct
  unknown_code_falls_back_to_default_de lang_default_is_de lang_other_en_gives_de
  lang_other_de_gives_en lang_other_is_involution
  by code_simp+

text \<open>The accessors are the fields.\<close>

lemma accessors_fields: "map (\<lambda>(name, f). f s) ACCESSORS = I18n.fields s"
  by (simp add: ACCESSORS_def I18n.fields_def)

lemma accessor_field: "(name, f) \<in> set ACCESSORS \<Longrightarrow> f s \<in> set (I18n.fields s)"
  unfolding accessors_fields [symmetric] by force

lemma table_test_1: every_field_non_empty_in_english
  using tables_complete(1) accessor_field [where s = EN]
  by (fastforce simp: every_field_non_empty_in_english_def list_all_iff table_def)

lemma table_test_2: every_field_non_empty_in_german
  using tables_complete(2) accessor_field [where s = DE]
  by (fastforce simp: every_field_non_empty_in_german_def list_all_iff table_def)

lemma table_test_3: en_and_de_differ_except_for_shared_fields
  unfolding en_and_de_differ_except_for_shared_fields_def Let_def table_def ACCESSORS_def
  by (simp add: EN_def DE_def)

lemma table_test_4: spot_check_en_strings
  by (simp add: spot_check_en_strings_def table_def EN_def)

lemma table_test_5: spot_check_de_strings
  by (simp add: spot_check_de_strings_def table_def DE_def)

lemma table_test_6: table_fn_returns_correct_table
  by (simp add: table_fn_returns_correct_table_def table_def EN_def DE_def)

lemma table_test_7: accessor_count_matches_expectation
  by (simp add: accessor_count_matches_expectation_def ACCESSORS_def)

subsection \<open>Screens\<close>

definition faulted_does_not_trap_operator_out_of_service :: bool where
  "faulted_does_not_trap_operator_out_of_service \<longleftrightarrow> next_nav NavService Fault = NavService"

definition fault_shows_fault_screen_from_other_screens :: bool where
  "fault_shows_fault_screen_from_other_screens \<longleftrightarrow>
     next_nav NavMain Fault = NavFault \<and> next_nav NavEthernet Fault = NavFault"

definition recovering_from_fault_returns_to_main :: bool where
  "recovering_from_fault_returns_to_main \<longleftrightarrow>
     next_nav NavFault Operational = NavMain \<and> next_nav NavFault Initializing = NavMain"

definition entering_ethernet_shows_the_ethernet_screen :: bool where
  "entering_ethernet_shows_the_ethernet_screen \<longleftrightarrow>
     next_nav NavMain Ethernet = NavEthernet \<and> next_nav NavService Ethernet = NavEthernet
     \<and> next_nav NavEthernet Ethernet = NavEthernet"

definition returning_from_ethernet_goes_to_main :: bool where
  "returning_from_ethernet_goes_to_main \<longleftrightarrow>
     next_nav NavEthernet Initializing = NavMain \<and> next_nav NavEthernet Operational = NavMain"

definition operational_leaves_operator_screens_untouched :: bool where
  "operational_leaves_operator_screens_untouched \<longleftrightarrow>
     next_nav NavMain Operational = NavMain \<and> next_nav NavService Operational = NavService"

definition io_test_page_persists_while_operational :: bool where
  "io_test_page_persists_while_operational \<longleftrightarrow>
     next_nav NavIoTest Operational = NavIoTest \<and> next_nav NavIoTest Initializing = NavIoTest
     \<and> next_nav NavIoTest Fault = NavFault"

lemma screen_tests:
  faulted_does_not_trap_operator_out_of_service fault_shows_fault_screen_from_other_screens
  recovering_from_fault_returns_to_main entering_ethernet_shows_the_ethernet_screen
  returning_from_ethernet_goes_to_main operational_leaves_operator_screens_untouched
  io_test_page_persists_while_operational
  by code_simp+

subsection \<open>Network mode\<close>

definition cidr_formats_address_and_prefix :: bool where
  "cidr_formats_address_and_prefix \<longleftrightarrow>
     (let nm = nm_new (lit ''eth0'') (192, 168, 1, 50) 24
      in cidr nm = lit ''192.168.1.50/24'' \<and> nm_iface nm = lit ''eth0'')"

definition prefix_is_clamped :: bool where
  "prefix_is_clamped \<longleftrightarrow> cidr (nm_new (lit ''eth0'') (10, 0, 0, 1) 99) = lit ''10.0.0.1/32''"

definition gateway_is_optional :: bool where
  "gateway_is_optional \<longleftrightarrow>
     (let nm = nm_new (lit ''eth0'') (127, 0, 0, 1) 8; nm' = with_gateway (10, 0, 0, 254) nm
      in nm_gateway nm = None \<and> nm_gateway nm' = Some (10, 0, 0, 254))"

lemma network_tests:
  cidr_formats_address_and_prefix prefix_is_clamped gateway_is_optional
  by (simp_all add: cidr_formats_address_and_prefix_def prefix_is_clamped_def gateway_is_optional_def
      cidr_def nm_new_def with_gateway_def show_ip_def min_def word_le_nat_alt show_nat.simps)

end
