(* ===== verification/PanelMain.thy ===== *)
theory PanelMain
  imports PanelLoop Counter RustTime
begin

text \<open>
  The panel's program from its start to its end (\<open>main\<close> of \<open>baler-ui/src/main.rs\<close>): the hardware
  and the toolkit are opened in order, each failure ends the program; then the loop runs, in
  which every frame reads the keys until there are none left, and an error of the key reader
  ends the program in the middle of a frame. The frame buffer, the keypad, the toolkit and the
  clock are library calls on a machine \<open>'o\<close> and a reader \<open>'k\<close>; errors are their texts.
\<close>

subsection \<open>The frame buffer\<close>

text \<open>The bytes of the rendered pixels as they lie in memory on the little-endian target.\<close>

definition le_bytes :: "u32 \<Rightarrow> u8 list" where
  "le_bytes p = [ucast p, ucast (drop_bit 8 p), ucast (drop_bit 16 p), ucast (drop_bit 24 p)]"

definition frame_bytes :: "u32 list \<Rightarrow> u8 list" where
  "frame_bytes buf = concat (map le_bytes buf)"

text \<open>A pixel of \<open>from_rgb\<close> lies in the frame buffer as blue, green, red and a zero.\<close>

lemma le_bytes_rgb: "le_bytes (from_rgb r g b) = [b, g, r, 0]"
  by (auto simp: le_bytes_def from_rgb_def bit_eq_iff bit_simps dest: bit_imp_le_length)

lemma length_frame_bytes: "length (frame_bytes buf) = 4 * length buf"
  by (induction buf) (simp_all add: frame_bytes_def le_bytes_def)

text \<open>The calls of the libraries.\<close>

record ('o, 'k) panel_hw =
  hw_framebuffer :: "str \<Rightarrow> 'o \<Rightarrow> (str + u32 \<times> u32) \<times> 'o"
  hw_keypad :: "'o \<Rightarrow> (str + 'k) \<times> 'o"
  hw_set_platform :: "'o \<Rightarrow> (str + unit) \<times> 'o"
  hw_set_size :: "u32 \<times> u32 \<Rightarrow> 'o \<Rightarrow> 'o"
  hw_app_window :: "'o \<Rightarrow> (str + unit) \<times> 'o"
  hw_update_timers :: "'o \<Rightarrow> 'o"
  hw_poll_button :: "'k \<Rightarrow> (str + button_event option) \<times> 'k"
  hw_draw_if_needed :: "view \<Rightarrow> nat \<Rightarrow> u32 list \<Rightarrow> 'o \<Rightarrow> bool \<times> u32 list \<times> 'o"
  hw_copy_from :: "u8 list \<Rightarrow> u32 \<Rightarrow> 'o \<Rightarrow> 'o"
  hw_present :: "'o \<Rightarrow> (str + unit) \<times> 'o"
  hw_sleep :: "duration \<Rightarrow> 'o \<Rightarrow> 'o"

record ('o, 'k, 'b) panel_run =
  mn_ui :: "'b ui"
  mn_keys :: 'k
  mn_buf :: "u32 list"
  mn_os :: 'o

subsection \<open>The loop\<close>

text \<open>\<open>while let Some(ev) = reader.poll_button()? { ... }\<close>\<close>

partial_function (option) key_loop ::
    "('k \<Rightarrow> (str + button_event option) \<times> 'k) \<Rightarrow> 'b backend \<Rightarrow> 'b panel \<Rightarrow> 'k
     \<Rightarrow> ((str + unit) \<times> 'b panel \<times> 'k) option" where
  "key_loop poll be p k =
     (case poll k of
        (Inl e, k') \<Rightarrow> Some (Inl e, p, k')
      | (Inr None, k') \<Rightarrow> Some (Inr (), p, k')
      | (Inr (Some ev), k') \<Rightarrow> key_loop poll be (pn_event be ev p) k')"

text \<open>The drawing of a frame; the result of \<open>present\<close> is not looked at.\<close>

definition panel_draw ::
  "('o, 'k) panel_hw \<Rightarrow> nat \<Rightarrow> ('o, 'k, 'b) panel_run \<Rightarrow> ('o, 'k, 'b) panel_run" where
  "panel_draw hw stride m =
     (let (drawn, buf, o1) = hw_draw_if_needed hw (ui_shown (mn_ui m)) stride (mn_buf m) (mn_os m);
          o2 = (if drawn then
                  snd (hw_present hw (hw_copy_from hw (frame_bytes buf) (of_nat (stride * 4)) o1))
                else o1)
      in m\<lparr>mn_buf := buf, mn_os := o2\<rparr>)"

definition FRAME_PERIOD :: duration where
  "FRAME_PERIOD = from_millis 16"

text \<open>The state the key loop of a frame starts from.\<close>

definition panel_stepped :: "'b backend \<Rightarrow> 'b panel \<Rightarrow> state_snapshot \<times> 'b panel" where
  "panel_stepped be p =
     (let (snap, b) = be_step be (pn_backend p)
      in (snap, p\<lparr>pn_backend := b, pn_nav := next_nav (pn_nav p) (ss_mode snap)\<rparr>))"

text \<open>A turn after its keys: manual-IO, the view, the LEDs, the drawing; \<open>t\<close> is the time the LEDs
  read.\<close>

definition panel_show ::
  "('o, 'k) panel_hw \<Rightarrow> 'b backend \<Rightarrow> nat \<Rightarrow> u64 \<Rightarrow> state_snapshot \<Rightarrow> 'b panel
   \<Rightarrow> ('o, 'k, 'b) panel_run \<Rightarrow> ('o, 'k, 'b) panel_run" where
  "panel_show hw be stride t snap p2 m =
     (let u = mn_ui m;
          p3 = (if pn_nav p2 = NavIoTest
                then pn_send be (ManualIo (pn_wrap_held p2) (pn_knives_in_held p2) (pn_knives_out_held p2)) p2
                else p2);
          key = view_key_of snap p3;
          push = (ui_prev_view u \<noteq> Some key);
          (lit, led) = lb_tick t snap (ui_led u);
          u' = \<lparr>ui_panel = p3, ui_snap = snap,
                ui_prev_view = (if push then Some key else ui_prev_view u),
                ui_shown = (if push then push_view snap p3 else ui_shown u),
                ui_led = led,
                ui_lit = (case lit of None \<Rightarrow> ui_lit u | Some l \<Rightarrow> Some l)\<rparr>;
          m1 = panel_draw hw stride (m\<lparr>mn_ui := u'\<rparr>)
      in m1\<lparr>mn_os := hw_sleep hw FRAME_PERIOD (mn_os m1)\<rparr>)"

text \<open>One turn of the loop. An error leaves the view, the LEDs and the frame buffer as the turn
  before left them.\<close>

definition panel_turn ::
  "('o, 'k) panel_hw \<Rightarrow> 'b backend \<Rightarrow> nat \<Rightarrow> u64 \<Rightarrow> ('o, 'k, 'b) panel_run
   \<Rightarrow> ((str + unit) \<times> ('o, 'k, 'b) panel_run) option" where
  "panel_turn hw be stride t m0 =
     (let m = m0\<lparr>mn_os := hw_update_timers hw (mn_os m0)\<rparr>;
          u = mn_ui m;
          (snap, p1) = panel_stepped be (ui_panel u)
      in case key_loop (hw_poll_button hw) be p1 (mn_keys m) of
           None \<Rightarrow> None
         | Some (Inl e, p2, k) \<Rightarrow>
             Some (Inl e, m\<lparr>mn_ui := u\<lparr>ui_panel := p2, ui_snap := snap\<rparr>, mn_keys := k\<rparr>)
         | Some (Inr _, p2, k) \<Rightarrow>
             Some (Inr (), panel_show hw be stride t snap p2 (m\<lparr>mn_keys := k\<rparr>)))"

text \<open>The turns at the given times; \<open>Inr ()\<close> is a program still running after them.\<close>

fun panel_loop ::
  "('o, 'k) panel_hw \<Rightarrow> 'b backend \<Rightarrow> nat \<Rightarrow> u64 list \<Rightarrow> ('o, 'k, 'b) panel_run
   \<Rightarrow> ((str + unit) \<times> ('o, 'k, 'b) panel_run) option" where
  "panel_loop hw be stride [] m = Some (Inr (), m)"
| "panel_loop hw be stride (t # ts) m =
     (case panel_turn hw be stride t m of
        None \<Rightarrow> None
      | Some (Inl e, m') \<Rightarrow> Some (Inl e, m')
      | Some (Inr _, m') \<Rightarrow> panel_loop hw be stride ts m')"

subsection \<open>The program\<close>

definition prefix_error :: "string \<Rightarrow> (str + 'a) \<times> 'o \<Rightarrow> (str + 'a) \<times> 'o" where
  "prefix_error msg r = map_prod (map_sum (\<lambda>e. lit msg @ e) id) id r"

definition panel_open ::
  "('o, 'k) panel_hw \<Rightarrow> ('o \<Rightarrow> (str + 'b) \<times> 'o) \<Rightarrow> 'b backend \<Rightarrow> fs \<Rightarrow> 'o
   \<Rightarrow> (str + nat \<times> ('o, 'k, 'b) panel_run) \<times> 'o" where
  "panel_open hw make_backend be f o0 =
     and_then (hw_framebuffer hw (lit ''/dev/fb0'') o0) (\<lambda>(w, h) o1.
     and_then (hw_keypad hw o1) (\<lambda>keys o2.
     and_then (prefix_error ''set_platform: '' (hw_set_platform hw o2)) (\<lambda>_ o3.
     and_then (prefix_error ''AppWindow::new: '' (hw_app_window hw (hw_set_size hw (w, h) o3))) (\<lambda>_ o4.
     and_then (make_backend o4) (\<lambda>b o5.
       (Inr (unat w, \<lparr>mn_ui = ui_start be b f, mn_keys = keys,
          mn_buf = replicate (unat w * unat h) 0, mn_os = o5\<rparr>), o5))))))"

definition panel_main ::
  "('o, 'k) panel_hw \<Rightarrow> ('o \<Rightarrow> (str + 'b) \<times> 'o) \<Rightarrow> 'b backend \<Rightarrow> fs \<Rightarrow> u64 list \<Rightarrow> 'o
   \<Rightarrow> ((str + unit) \<times> ('o, 'k, 'b) panel_run option) option" where
  "panel_main hw make_backend be f ts o0 =
     (case panel_open hw make_backend be f o0 of
        (Inl e, _) \<Rightarrow> Some (Inl e, None)
      | (Inr (stride, m), _) \<Rightarrow> map_option (map_prod id Some) (panel_loop hw be stride ts m))"

subsection \<open>What the keypad delivers\<close>

text \<open>The events read until the reader is empty or fails, with the error.\<close>

primrec key_batch ::
  "('k \<Rightarrow> (str + button_event option) \<times> 'k) \<Rightarrow> nat \<Rightarrow> 'k \<Rightarrow> (button_event list \<times> (str + unit) \<times> 'k) option" where
  "key_batch poll 0 k = None"
| "key_batch poll (Suc n) k =
     (case poll k of
        (Inl e, k') \<Rightarrow> Some ([], Inl e, k')
      | (Inr None, k') \<Rightarrow> Some ([], Inr (), k')
      | (Inr (Some ev), k') \<Rightarrow> map_option (\<lambda>(evs, r). (ev # evs, r)) (key_batch poll n k'))"

lemma key_loop_batch:
  "key_batch poll n k = Some (evs, r, k') \<Longrightarrow> key_loop poll be p k = Some (r, fold (pn_event be) evs p, k')"
proof (induction n arbitrary: p k evs)
  case 0
  then show ?case by simp
next
  case (Suc n)
  then show ?case
    by (subst key_loop.simps) (auto split: prod.splits sum.splits option.splits)
qed

lemma key_loop_returns:
  fixes poll :: "'k \<Rightarrow> (str + button_event option) \<times> 'k" and be :: "'b backend"
  assumes "key_loop poll be p k = Some r"
  shows "\<exists>n evs. key_batch poll n k = Some (evs, fst r, snd (snd r)) \<and> fst (snd r) = fold (pn_event be) evs p"
proof (rule key_loop.raw_induct [where P = "\<lambda>poll be p k r. \<exists>n evs.
    key_batch poll n k = Some (evs, fst r, snd (snd r)) \<and> fst (snd r) = fold (pn_event be) evs p", OF _ assms])
  fix loop and poll :: "'k \<Rightarrow> (str + button_event option) \<times> 'k" and be :: "'b backend" and p k r
  assume IH: "\<And>poll be p k r. loop poll be p k = Some r \<Longrightarrow> \<exists>n evs.
      key_batch poll n k = Some (evs, fst r, snd (snd r)) \<and> fst (snd r) = fold (pn_event be) evs p"
    and step: "(case poll k of
        (Inl e, k') \<Rightarrow> Some (Inl e, p, k')
      | (Inr None, k') \<Rightarrow> Some (Inr (), p, k')
      | (Inr (Some ev), k') \<Rightarrow> loop poll be (pn_event be ev p) k') = Some r"
  obtain x k1 where x: "poll k = (x, k1)" by fastforce
  show "\<exists>n evs. key_batch poll n k = Some (evs, fst r, snd (snd r)) \<and> fst (snd r) = fold (pn_event be) evs p"
  proof (cases "\<exists>ev. x = Inr (Some ev)")
    case True
    then obtain ev where ev: "poll k = (Inr (Some ev), k1)" using x by auto
    then have "loop poll be (pn_event be ev p) k1 = Some r" using step by simp
    from IH [OF this] obtain n evs where
      "key_batch poll n k1 = Some (evs, fst r, snd (snd r))" "fst (snd r) = fold (pn_event be) evs (pn_event be ev p)"
      by blast
    then show ?thesis using ev by (intro exI [of _ "Suc n"] exI [of _ "ev # evs"]) simp
  next
    case False
    then have "key_batch poll (Suc 0) k = Some ([], fst r, snd (snd r)) \<and> fst (snd r) = p"
      using step x by (auto split: sum.splits option.splits)
    then show ?thesis by (intro exI [of _ "Suc 0"] exI [of _ "[]"]) simp
  qed
qed

text \<open>The batches a run of frames reads, each ended by an empty poll.\<close>

inductive delivers ::
  "('k \<Rightarrow> (str + button_event option) \<times> 'k) \<Rightarrow> 'k \<Rightarrow> button_event list list \<Rightarrow> 'k \<Rightarrow> bool"
  for poll where
  none: "delivers poll k [] k"
| batch: "key_batch poll n k = Some (evs, Inr (), k') \<Longrightarrow> delivers poll k' evss k'' \<Longrightarrow>
    delivers poll k (evs # evss) k''"

inductive_cases delivers_ConsE: "delivers poll k (evs # evss) k''"

subsection \<open>The loop with the keypad is the loop over batches\<close>

lemma pn_frame_stepped:
  "pn_frame be evs p =
    (let (snap, p1) = panel_stepped be p; p2 = fold (pn_event be) evs p1 in
     (snap, if pn_nav p2 = NavIoTest
            then pn_send be (ManualIo (pn_wrap_held p2) (pn_knives_in_held p2) (pn_knives_out_held p2)) p2
            else p2))"
  by (simp add: pn_frame_def panel_stepped_def Let_def split_beta)

lemma draw_frame [simp]:
  "mn_ui (panel_draw hw stride m) = mn_ui m" "mn_keys (panel_draw hw stride m) = mn_keys m"
  by (simp_all add: panel_draw_def Let_def split_beta)

lemma show_frame:
  assumes "panel_stepped be (ui_panel (mn_ui m)) = (snap, p1)"
  shows "mn_ui (panel_show hw be stride t snap (fold (pn_event be) evs p1) m) = snd (ui_frame be (mn_ui m) (t, evs))"
    and "mn_keys (panel_show hw be stride t snap p2 m) = mn_keys m"
  by (simp_all add: panel_show_def ui_frame_def pn_frame_stepped assms Let_def split_beta)

lemma turn_batch:
  assumes "key_batch (hw_poll_button hw) n (mn_keys m) = Some (evs, r, k')"
  obtains m' where "panel_turn hw be stride t m = Some (r, m')" "mn_keys m' = k'"
    "case r of Inl e \<Rightarrow> ui_panel (mn_ui m') = fold (pn_event be) evs (snd (panel_stepped be (ui_panel (mn_ui m))))
      | Inr _ \<Rightarrow> mn_ui m' = snd (ui_frame be (mn_ui m) (t, evs))"
proof -
  obtain snap p1 where st: "panel_stepped be (ui_panel (mn_ui m)) = (snap, p1)" by fastforce
  note l = key_loop_batch [OF assms, of be p1]
  show thesis
  proof (cases r)
    case (Inl e)
    then show thesis using l that by (simp add: panel_turn_def st Let_def)
  next
    case (Inr u)
    let ?m = "m\<lparr>mn_os := hw_update_timers hw (mn_os m), mn_keys := k'\<rparr>"
    have "panel_turn hw be stride t m = Some (r, panel_show hw be stride t snap (fold (pn_event be) evs p1) ?m)"
      using l Inr by (simp add: panel_turn_def st Let_def)
    then show thesis using that show_frame [of be ?m snap p1] st Inr by simp
  qed
qed

lemma turn_reads:
  assumes "panel_turn hw be stride t m = Some (r, m')"
  shows "\<exists>n evs. key_batch (hw_poll_button hw) n (mn_keys m) = Some (evs, r, mn_keys m')
    \<and> (case r of Inl e \<Rightarrow> ui_panel (mn_ui m') = fold (pn_event be) evs (snd (panel_stepped be (ui_panel (mn_ui m))))
      | Inr _ \<Rightarrow> mn_ui m' = snd (ui_frame be (mn_ui m) (t, evs)))"
proof -
  obtain snap p1 where st: "panel_stepped be (ui_panel (mn_ui m)) = (snap, p1)" by fastforce
  obtain q p2 k where l: "key_loop (hw_poll_button hw) be p1 (mn_keys m) = Some (q, p2, k)"
    using assms by (cases "key_loop (hw_poll_button hw) be p1 (mn_keys m)") (auto simp: panel_turn_def st Let_def)
  obtain n evs where b: "key_batch (hw_poll_button hw) n (mn_keys m) = Some (evs, q, k)"
    using key_loop_returns [OF l] by auto
  obtain m2 where "panel_turn hw be stride t m = Some (q, m2)" "mn_keys m2 = k"
    "case q of Inl e \<Rightarrow> ui_panel (mn_ui m2) = fold (pn_event be) evs (snd (panel_stepped be (ui_panel (mn_ui m))))
      | Inr _ \<Rightarrow> mn_ui m2 = snd (ui_frame be (mn_ui m) (t, evs))"
    by (rule turn_batch [OF b])
  then show ?thesis using assms b by auto
qed

lemma loop_runs:
  "delivers (hw_poll_button hw) k evss k' \<Longrightarrow> mn_keys m = k \<Longrightarrow> length ts = length evss \<Longrightarrow>
    \<exists>m'. panel_loop hw be stride ts m = Some (Inr (), m')
      \<and> mn_ui m' = run_end (ui_frame be) (mn_ui m) (zip ts evss) \<and> mn_keys m' = k'"
proof (induction arbitrary: m ts rule: delivers.induct)
  case (none k)
  then show ?case by simp
next
  case (batch n k evs k' evss k'')
  obtain t ts' where ts: "ts = t # ts'" using batch.prems(2) by (cases ts) simp_all
  have "key_batch (hw_poll_button hw) n (mn_keys m) = Some (evs, Inr (), k')" using batch(1) batch.prems(1) by simp
  then obtain m1 where "panel_turn hw be stride t m = Some (Inr (), m1)" "mn_keys m1 = k'"
    "mn_ui m1 = snd (ui_frame be (mn_ui m) (t, evs))"
    by (rule turn_batch) simp
  then show ?case using batch.IH [of m1 ts'] batch.prems(2) by (simp add: ts)
qed

lemma loop_ends:
  "panel_loop hw be stride ts m = Some (Inl e, m') \<Longrightarrow>
    \<exists>before t after evss k n evs k'. ts = before @ t # after \<and> length evss = length before
      \<and> delivers (hw_poll_button hw) (mn_keys m) evss k
      \<and> key_batch (hw_poll_button hw) n k = Some (evs, Inl e, k')
      \<and> ui_panel (mn_ui m') = fold (pn_event be) evs
          (snd (panel_stepped be (ui_panel (run_end (ui_frame be) (mn_ui m) (zip before evss)))))"
proof (induction ts arbitrary: m)
  case Nil
  then show ?case by simp
next
  case (Cons t ts)
  obtain r m1 where turn: "panel_turn hw be stride t m = Some (r, m1)"
    using Cons.prems by (cases "panel_turn hw be stride t m") auto
  then consider (now) "panel_turn hw be stride t m = Some (Inl e, m')"
    | (later) m1 where "panel_turn hw be stride t m = Some (Inr (), m1)" "panel_loop hw be stride ts m1 = Some (Inl e, m')"
    using Cons.prems by (cases r) auto
  then show ?case
  proof cases
    case now
    from turn_reads [OF this] obtain n evs k' where
      "key_batch (hw_poll_button hw) n (mn_keys m) = Some (evs, Inl e, k')"
      "ui_panel (mn_ui m') = fold (pn_event be) evs (snd (panel_stepped be (ui_panel (mn_ui m))))" by auto
    then show ?thesis
      by (intro exI [of _ "[]"] exI [of _ t] exI [of _ ts] exI [of _ "mn_keys m"] exI [of _ n] exI [of _ evs] exI [of _ k'])
        (simp add: delivers.none)
  next
    case later
    from turn_reads [OF later(1)] obtain n0 evs0 where
      f: "key_batch (hw_poll_button hw) n0 (mn_keys m) = Some (evs0, Inr (), mn_keys m1)"
         "mn_ui m1 = snd (ui_frame be (mn_ui m) (t, evs0))" by auto
    from Cons.IH [OF later(2)] obtain before t' after evss k n evs k' where
      "ts = before @ t' # after" "length evss = length before"
      "delivers (hw_poll_button hw) (mn_keys m1) evss k"
      "key_batch (hw_poll_button hw) n k = Some (evs, Inl e, k')"
      "ui_panel (mn_ui m') = fold (pn_event be) evs
          (snd (panel_stepped be (ui_panel (run_end (ui_frame be) (mn_ui m1) (zip before evss)))))" by blast
    then show ?thesis
      by (intro exI [of _ "t # before"] exI [of _ t'] exI [of _ after] exI [of _ "evs0 # evss"] exI [of _ k]
          exI [of _ n] exI [of _ evs] exI [of _ k'])
        (simp add: f delivers.batch [OF f(1)])
  qed
qed

subsection \<open>A demonstration machine\<close>

text \<open>A screen of one pixel that counts the frames presented on it, a keypad that plays a script.\<close>

definition demo_hw :: "(nat, (str + button_event option) list) panel_hw" where
  "demo_hw =
     \<lparr>hw_framebuffer = (\<lambda>path o1. (Inr (1, 1), o1)),
      hw_keypad = (\<lambda>o1. (Inr [Inr (Some (Pressed F5)), Inr None, Inr (Some (Pressed F4)), Inl (lit ''EIO'')], o1)),
      hw_set_platform = (\<lambda>o1. (Inr (), o1)), hw_set_size = (\<lambda>size o1. o1),
      hw_app_window = (\<lambda>o1. (Inr (), o1)), hw_update_timers = id,
      hw_poll_button = (\<lambda>k. case k of [] \<Rightarrow> (Inr None, []) | x # xs \<Rightarrow> (x, xs)),
      hw_draw_if_needed = (\<lambda>v stride buf o1. (True, buf, o1)), hw_copy_from = (\<lambda>bytes stride o1. o1),
      hw_present = (\<lambda>o1. (Inr (), Suc o1)), hw_sleep = (\<lambda>d o1. o1)\<rparr>"

abbreviation demo_be :: "(nat \<times> command list) backend" where
  "demo_be \<equiv> log_backend (\<lambda>_. demo_snapshot)"

abbreviation demo_open :: "nat \<Rightarrow> (str + nat \<times> command list) \<times> nat" where
  "demo_open o1 \<equiv> (Inr (0, []), o1)"

lemma demo_opens: "panel_open demo_hw demo_open demo_be empty_fs 0 =
    (Inr (1, \<lparr>mn_ui = ui_start demo_be (0, []) empty_fs,
       mn_keys = [Inr (Some (Pressed F5)), Inr None, Inr (Some (Pressed F4)), Inl (lit ''EIO'')],
       mn_buf = [0], mn_os = 0\<rparr>), 0)"
  by (simp add: panel_open_def prefix_error_def demo_hw_def)

lemma demo_script:
  defines "poll \<equiv> hw_poll_button demo_hw"
  shows "key_batch poll 2 (Inr (Some (Pressed F5)) # Inr None # ks) = Some ([Pressed F5], Inr (), ks)"
    and "key_batch poll 2 [Inr (Some (Pressed F4)), Inl e] = Some ([Pressed F4], Inl e, [])"
  by (simp_all add: poll_def demo_hw_def numeral_2_eq_2)

subsection \<open>Properties\<close>

lemma panel_open_starts:
  assumes "panel_open hw make_backend be f o0 = (Inr (stride, m), o1)"
  obtains b where "mn_ui m = ui_start be b f"
  using assms by (auto simp: panel_open_def prefix_error_def and_then_def split: prod.splits sum.splits)

text \<open>C28. The program does what the frames do: once everything is open, on a keypad that delivers its
  events in finite batches, each ended by an empty poll, the panel runs on, and its screens,
  keys, LEDs and commands are those of the frames with these batches of events.\<close>

theorem panel_runs_frames:
  assumes "panel_open hw make_backend be f o0 = (Inr (stride, m), o1)"
    and "delivers (hw_poll_button hw) (mn_keys m) batches k" "length ts = length batches"
  shows "\<exists>b m'. panel_main hw make_backend be f ts o0 = Some (Inr (), Some m')
    \<and> mn_ui m' = run_end (ui_frame be) (ui_start be b f) (zip ts batches)"
proof -
  obtain b where "mn_ui m = ui_start be b f" by (rule panel_open_starts [OF assms(1)])
  then show ?thesis
    using loop_runs [OF assms(2) refl assms(3), of be stride] assms(1) by (auto simp: panel_main_def)
qed

theorem panel_runs_frames_witness:
  "\<exists>b m'. panel_main demo_hw demo_open demo_be empty_fs [0] 0 = Some (Inr (), Some m')
    \<and> mn_ui m' = run_end (ui_frame demo_be) (ui_start demo_be b empty_fs) [(0, [Pressed F5])]"
proof -
  have "delivers (hw_poll_button demo_hw)
      [Inr (Some (Pressed F5)), Inr None, Inr (Some (Pressed F4)), Inl (lit ''EIO'')] [[Pressed F5]]
      [Inr (Some (Pressed F4)), Inl (lit ''EIO'')]"
    by (rule delivers.batch [OF demo_script(1) delivers.none])
  then show ?thesis using panel_runs_frames [OF demo_opens, where batches = "[[Pressed F5]]" and ts = "[0]"] by simp
qed

text \<open>C35. The program ends only by an error, and never loses or invents a key: when it ends, either one
  of the openings has failed, or the keypad has, in the frame at some time \<open>t\<close>; then the frames
  before it were run in full, the events of this frame that were read before the error have been
  handled (their commands are sent), and nothing else has.\<close>

theorem panel_exit_reasons:
  assumes "panel_main hw make_backend be f ts o0 = Some (Inl e, r)"
  shows "case r of
      None \<Rightarrow> fst (panel_open hw make_backend be f o0) = Inl e
    | Some m' \<Rightarrow> \<exists>stride m o1 b before t after batches k n evs k'.
        panel_open hw make_backend be f o0 = (Inr (stride, m), o1) \<and> ts = before @ t # after
        \<and> length batches = length before \<and> delivers (hw_poll_button hw) (mn_keys m) batches k
        \<and> key_batch (hw_poll_button hw) n k = Some (evs, Inl e, k')
        \<and> ui_panel (mn_ui m') = fold (pn_event be) evs
            (snd (panel_stepped be (ui_panel (run_end (ui_frame be) (ui_start be b f) (zip before batches)))))"
proof (cases "panel_open hw make_backend be f o0")
  case (Pair x o1)
  show ?thesis
  proof (cases x)
    case (Inl e')
    then show ?thesis using assms Pair by (auto simp: panel_main_def)
  next
    case (Inr sm)
    obtain stride m where sm: "panel_open hw make_backend be f o0 = (Inr (stride, m), o1)"
      using Pair Inr by (cases sm) simp
    obtain b where b: "mn_ui m = ui_start be b f" by (rule panel_open_starts [OF sm])
    obtain m' where r: "r = Some m'" and l: "panel_loop hw be stride ts m = Some (Inl e, m')"
      using assms sm by (auto simp: panel_main_def)
    show ?thesis using loop_ends [OF l] sm unfolding r b option.case by blast
  qed
qed

text \<open>The keypad fails in the second frame, after the key under F2 was read: the knife command has
  been sent.\<close>

theorem panel_exit_reasons_witness:
  "\<exists>m'. panel_main demo_hw demo_open demo_be empty_fs [0, 16, 32] 0 = Some (Inl (lit ''EIO''), Some m')
    \<and> (\<exists>before t after. [0, 16, 32 :: u64] = before @ t # after \<and>
        (\<exists>(batches :: button_event list list) k n evs k'. length batches = length before
          \<and> key_batch (hw_poll_button demo_hw) n k = Some (evs, Inl (lit ''EIO''), k')))"
proof -
  let ?m = "\<lparr>mn_ui = ui_start demo_be (0, []) empty_fs,
       mn_keys = [Inr (Some (Pressed F5)), Inr None, Inr (Some (Pressed F4)), Inl (lit ''EIO'')],
       mn_buf = [0], mn_os = 0\<rparr> :: (nat, (str + button_event option) list, nat \<times> command list) panel_run"
  have b1: "key_batch (hw_poll_button demo_hw) 2 (mn_keys ?m) =
      Some ([Pressed F5], Inr (), [Inr (Some (Pressed F4)), Inl (lit ''EIO'')])" using demo_script(1) by simp
  obtain m1 where m1: "panel_turn demo_hw demo_be 1 0 ?m = Some (Inr (), m1)"
      "mn_keys m1 = [Inr (Some (Pressed F4)), Inl (lit ''EIO'')]" by (rule turn_batch [OF b1])
  have b2: "key_batch (hw_poll_button demo_hw) 2 (mn_keys m1) = Some ([Pressed F4], Inl (lit ''EIO''), [])"
    using demo_script(2) m1(2) by simp
  obtain m2 where m2: "panel_turn demo_hw demo_be 1 16 m1 = Some (Inl (lit ''EIO''), m2)"
    by (rule turn_batch [OF b2])
  have run: "panel_main demo_hw demo_open demo_be empty_fs [0, 16, 32] 0 = Some (Inl (lit ''EIO''), Some m2)"
    using m1(1) m2 by (simp add: panel_main_def demo_opens)
  from panel_exit_reasons [OF this, unfolded option.case] run show ?thesis by blast
qed

end
