(* ===== verification/DaemonSpec.thy ===== *)
theory DaemonSpec
  imports DaemonProps ControlSpec
begin

text \<open>
  The daemon against the specification of the control cycle: what the EtherCAT path puts on the
  wire and publishes is what the specification answers to the samples the daemon took. A sample
  is what one run of the control item polled from the bus and drained from the command channel.
\<close>

subsection \<open>The samples of a run\<close>

definition item_sample ::
  "('n, 'r, 'w, 'd, 'rx, 'tx) ecat_env \<Rightarrow> ('n, 'c, 'r, 'w, 'd, 'rx, 'tx) ecat_state
   \<Rightarrow> (inputs \<times> command list) option" where
  "item_sample env s =
     (case wg_poll (ee_bus_recv env) (w_bus (ec_world s)) of
        None \<Rightarrow> None
      | Some (i, _) \<Rightarrow> map_option (\<lambda>(cmds, _). (i, cmds)) (link_drain (ee_cmd_recv env) (ec_rx s)))"

fun ecat_samples ::
  "('n, 'r, 'w, 'd, 'rx, 'tx) ecat_env \<Rightarrow> (health_kind list \<times> duration) list
   \<Rightarrow> ('n, 'c, 'r, 'w, 'd, 'rx, 'tx) ecat_state \<Rightarrow> (inputs \<times> command list) list" where
  "ecat_samples env [] s = []"
| "ecat_samples env ((events, elapsed) # cycles) s =
     (case (item_sample env (pumped events s), ecat_item env elapsed (pumped events s)) of
        (Some x, Some s') \<Rightarrow> x # ecat_samples env cycles s'
      | _ \<Rightarrow> [])"

subsection \<open>One run of the item\<close>

text \<open>The daemon in a state of the specification: the control represents it, the bus handle is in
  its invariant and knows what the bus has accepted last.\<close>

definition implements ::
  "('w \<Rightarrow> u8 option) \<Rightarrow> ('n, 'c, 'r, 'w, 'd, 'rx, 'tx) ecat_state \<Rightarrow> spec \<Rightarrow> bool" where
  "implements wire s a \<longleftrightarrow> represents (ec_control s) a \<and> ecat_inv wire s \<and> \<not> ec_stopped s
     \<and> wire_ok wire (w_bus (ec_world s))"

lemma item_refines:
  assumes send: "send_documented (ee_bus_send env) wire" "\<And>b w. fst (ee_bus_send env b w) = Inr ()"
    and impl: "implements wire s a"
    and item: "ecat_item env elapsed (pumped events s) = Some s'" and go: "\<not> ec_stopped s'"
  obtains x snap where "item_sample env (pumped events s) = Some x" "implements wire s' (snd (spec_step a x))"
    "observe (sw_outputs (fst (spec_step a x)), snap) = fst (spec_step a x)"
    "ec_tx s' = link_publish (ee_state_send env) snap (ec_tx s)"
    "sw_mode (fst (spec_step a x)) \<noteq> Ethernet \<longrightarrow>
      wire (wg_writer (w_bus (ec_world s'))) = Some (out_byte (sw_outputs (fst (spec_step a x))))"
proof (rule ecat_item_cases [OF item])
  fix i bus cmds rx outs snap c w
  assume p: "wg_poll (ee_bus_recv env) (w_bus (ec_world (pumped events s))) = Some (i, bus)"
    and d: "link_drain (ee_cmd_recv env) (ec_rx (pumped events s)) = Some (cmds, rx)"
    and c: "item_cycle env (pumped events s) i bus cmds = ((outs, snap), c, w)"
    and nr: "\<not> wg_restart_requested (w_bus w)"
    and e: "s' = (pumped events s)\<lparr>ec_control := c,
        ec_world := w\<lparr>w_bus := wg_write (ee_bus_send env) outs ((w_bus w)\<lparr>wg_restart_requested := False\<rparr>)\<rparr>,
        ec_wd := wp_pet (ee_wd env) (ec_wd (pumped events s)), ec_rx := rx,
        ec_tx := link_publish (ee_state_send env) snap (ec_tx (pumped events s)),
        ec_ever_up := ec_ever_up (pumped events s) \<or> in_healthy i,
        ec_maintenance := ec_maintenance (pumped events s) \<or> ss_mode snap = Ethernet\<rparr>"
  have inv: "ecat_inv wire s" "\<not> ec_stopped s" and ok: "wire_ok wire (w_bus (ec_world s))"
    and rep: "represents (ec_control s) a"
    using impl by (simp_all add: implements_def)
  have pre: "ctl_inv (ec_control (pumped events s))" "\<not> wg_restart_requested bus"
      "bs_mode (ct_state (ec_control (pumped events s))) = Ethernet \<longleftrightarrow> wg_connector bus = None"
    using inv wg_poll_frame [OF p] by (simp_all add: ecat_inv_def)
  note k = item_cycle_bus [OF c pre]
  have inv': "ecat_inv wire s'" by (rule ecat_inv_item [OF send(1) inv item])
  let ?b = "(w_bus w)\<lparr>wg_restart_requested := False\<rparr>"
  have ok1: "wire_ok wire ?b"
    using ok k(4,5) wg_poll_frame(2,3) [OF p] by (simp add: wire_ok_def)
  have r: "ctl_step (ee_net env) wago_port (ec_control s, (ec_world (pumped events s))\<lparr>w_bus := bus\<rparr>) (i, cmds) =
      ((outs, snap), c, w)" using c by (simp add: item_cycle_def)
  let ?r = "spec_step a (i, cmds)"
  have rep0: "represents (fst (ec_control s, (ec_world (pumped events s))\<lparr>w_bus := bus\<rparr>)) a" using rep by simp
  have view: "observe (outs, snap) = fst ?r" and next_rep: "represents c (snd ?r)"
    using ctl_spec.sim_view [OF rep0, of "ee_net env" wago_port "(i, cmds)"]
      ctl_spec.sim_next [OF rep0, of "ee_net env" wago_port "(i, cmds)"] by (simp_all add: r)
  have outs: "outs = sw_outputs (fst ?r)" and mode: "sw_mode (fst ?r) = ss_mode snap"
    unfolding view [symmetric] by (simp_all add: observe_def)
  have sample: "item_sample env (pumped events s) = Some (i, cmds)" using p d by (simp add: item_sample_def)
  have "implements wire s' (snd ?r)"
    using next_rep inv' go wire_ok_write [OF send(1) ok1] by (simp add: implements_def e)
  moreover have "wire (wg_writer (w_bus (ec_world s'))) = Some (out_byte outs)" if "ss_mode snap \<noteq> Ethernet"
  proof -
    have "bs_mode (ct_state c) \<noteq> Ethernet" using that k(6) by (simp add: ctl_snapshot_def Let_def)
    then have "wg_connector (w_bus w) \<noteq> None" using k(3) nr by (simp add: bus_follows_def)
    then show ?thesis
      using ok1 send(2) by (auto simp: e wire_after [OF send(1)] sends_def wire_ok_def)
  qed
  ultimately show thesis
    using that [OF sample] view outs mode by (simp add: e)
qed (use go in simp_all)

subsection \<open>The property\<close>

lemma ecat_run_refines:
  assumes send: "send_documented (ee_bus_send env) wire" "\<And>b w. fst (ee_bus_send env b w) = Inr ()"
  shows "ecat_run env cycles s = Some s' \<Longrightarrow> \<not> ec_stopped s' \<Longrightarrow> implements wire s a \<Longrightarrow>
    (let views = run_outs spec_step a (ecat_samples env cycles s) in
      length views = length cycles
      \<and> (\<exists>snaps. ec_tx s' = fold (link_publish (ee_state_send env)) snaps (ec_tx s)
          \<and> length snaps = length views \<and> map observe (zip (map sw_outputs views) snaps) = views)
      \<and> (cycles \<noteq> [] \<longrightarrow> sw_mode (last views) \<noteq> Ethernet \<longrightarrow>
          wire (wg_writer (w_bus (ec_world s'))) = Some (out_byte (sw_outputs (last views)))))"
proof (induction cycles arbitrary: s a)
  case Nil
  then show ?case by simp
next
  case (Cons cyc cycles)
  obtain events elapsed where cyc: "cyc = (events, elapsed)" by fastforce
  have go: "\<not> ec_stopped s" using Cons.prems(3) by (simp add: implements_def)
  obtain s1 where s1: "ecat_item env elapsed (pumped events s) = Some s1" "ecat_run env cycles s1 = Some s'"
    using Cons.prems(1) go unfolding cyc ecat_run_Cons by (auto split: option.splits)
  have "\<not> ec_stopped s1"
  proof
    assume "ec_stopped s1"
    then have "ecat_run env cycles s1 = Some s1" by (cases cycles) auto
    then show False using s1(2) Cons.prems(2) \<open>ec_stopped s1\<close> by simp
  qed
  from item_refines [OF send Cons.prems(3) s1(1) this] obtain x snap where
    x: "item_sample env (pumped events s) = Some x" and impl: "implements wire s1 (snd (spec_step a x))"
    and view: "observe (sw_outputs (fst (spec_step a x)), snap) = fst (spec_step a x)"
    and tx: "ec_tx s1 = link_publish (ee_state_send env) snap (ec_tx s)"
    and byte: "sw_mode (fst (spec_step a x)) \<noteq> Ethernet \<longrightarrow>
      wire (wg_writer (w_bus (ec_world s1))) = Some (out_byte (sw_outputs (fst (spec_step a x))))" .
  have samples: "ecat_samples env (cyc # cycles) s = x # ecat_samples env cycles s1"
    using x s1(1) by (simp add: cyc)
  note IH = Cons.IH [OF s1(2) Cons.prems(2) impl, unfolded Let_def]
  let ?vs = "run_outs spec_step (snd (spec_step a x)) (ecat_samples env cycles s1)"
  obtain snaps where sn: "ec_tx s' = fold (link_publish (ee_state_send env)) snaps (ec_tx s1)"
      "length snaps = length ?vs" "map observe (zip (map sw_outputs ?vs) snaps) = ?vs" using IH by blast
  have "map observe (zip (map sw_outputs (fst (spec_step a x) # ?vs)) (snap # snaps)) = fst (spec_step a x) # ?vs"
    using sn(3) view by simp
  moreover have "wire (wg_writer (w_bus (ec_world s'))) = Some (out_byte (sw_outputs (last (fst (spec_step a x) # ?vs))))"
    if "sw_mode (last (fst (spec_step a x) # ?vs)) \<noteq> Ethernet"
  proof (cases cycles)
    case Nil
    then show ?thesis using byte that s1(2) by simp
  next
    case (Cons c cs)
    have "length ?vs = length cycles" by (rule IH [THEN conjunct1])
    then have "?vs \<noteq> []" using Cons by (metis length_0_conv list.distinct(1))
    then show ?thesis using IH that Cons by simp
  qed
  ultimately show ?case
    unfolding Let_def samples run_outs_Cons using IH sn(1,2) tx
    by (intro conjI exI [of _ "snap # snaps"] impI) simp_all
qed

text \<open>C4. The daemon implements the specification end to end: from power-up, on a bus that accepts its
  writes, as long as the executor has not been stopped, whatever the health events, the bytes,
  the commands, the clock, the network and the disk are, the snapshots published by its cycles
  are, together with the outputs, those of the specification on the sampled inputs and commands,
  one for each cycle, and outside maintenance the byte on the wire is the one of the outputs the
  specification gave last.\<close>

theorem daemon_refines_spec:
  assumes "send_documented (ee_bus_send env) wire" "\<And>b w. fst (ee_bus_send env b w) = Inr ()"
    and "wire writer = None"
    and "start = ecat_start (ctl_init counters)
        \<lparr>w_fs = f, w_net = n, w_bus = wago_new connector reader writer kind\<rparr> d rx tx"
    and "ecat_run env cycles start = Some s" "\<not> ec_stopped s"
  shows "let views = run_outs spec_step
          (spec_init (unat (cn_session (cs_counters counters))) (unat (cn_total (cs_counters counters))))
          (ecat_samples env cycles start) in
      length views = length cycles
      \<and> (\<exists>snaps. ec_tx s = fold (link_publish (ee_state_send env)) snaps tx
          \<and> length snaps = length views \<and> map observe (zip (map sw_outputs views) snaps) = views)
      \<and> (cycles \<noteq> [] \<longrightarrow> sw_mode (last views) \<noteq> Ethernet \<longrightarrow>
          wire (wg_writer (w_bus (ec_world s))) = Some (out_byte (sw_outputs (last views))))"
proof -
  have "implements wire start (spec_init (unat (cn_session (cs_counters counters)))
      (unat (cn_total (cs_counters counters))))"
    unfolding implements_def assms(4)
    by (intro conjI ecat_inv_start)
      (simp_all add: ecat_start_def represents_init wire_ok_def wago_new_def assms(3))
  from ecat_run_refines [OF assms(1,2,5,6) this] show ?thesis by (simp add: assms(4) ecat_start_def)
qed

subsection \<open>A run\<close>

text \<open>A bus that accepts every byte, with the knives reported in, and a wrap command waiting.\<close>

definition plain_send :: "(u8 option, u8) send" where
  "plain_send b w = (Inr (), Some b)"

definition plain_env :: "(unit, u8 list, u8 option, nat, command list, state_snapshot list) ecat_env" where
  "plain_env = \<lparr>ee_net = sim_network, ee_bus_recv = queue_recv, ee_bus_send = plain_send,
     ee_wd = \<lparr>wp_pet = Suc\<rparr>, ee_cmd_recv = queue_recv, ee_state_send = (\<lambda>s l. (Inr (), l @ [s]))\<rparr>"

definition plain_start ::
  "command list \<Rightarrow> (unit, unit, u8 list, u8 option, nat, command list, state_snapshot list) ecat_state" where
  "plain_start cmds = ecat_start (ctl_init demo_store)
     \<lparr>w_fs = empty_fs, w_net = (), w_bus = wago_new () [2] None Up\<rparr> 0 cmds []"

lemma plain_sample:
  defines "b \<equiv> (wago_new () [] None Up)\<lparr>wg_last_input := 2\<rparr>"
  shows "wg_poll (ee_bus_recv plain_env) (w_bus (ec_world (pumped [] (plain_start cmds)))) = Some (demo_inputs2, b)"
    and "link_drain (ee_cmd_recv plain_env) (ec_rx (pumped [] (plain_start cmds))) = Some (cmds, [])"
proof -
  have q: "backlog queue_recv (Suc 1) [2 :: u8] = Some ([2], [])" using queue_backlog [of "[2 :: u8]"] by simp
  have "bit_of 2 0 = False" "bit_of 2 1 = True" "bit_of 2 2 = False" by code_simp+
  then show "wg_poll (ee_bus_recv plain_env) (w_bus (ec_world (pumped [] (plain_start cmds)))) = Some (demo_inputs2, b)"
    using poll_loop_backlog [OF q, of 0]
    by (simp add: b_def plain_env_def plain_start_def ecat_start_def health_pump_def demo_inputs2_def
        wg_poll_def wago_new_def wg_is_healthy_def Let_def bit_consts)
  show "link_drain (ee_cmd_recv plain_env) (ec_rx (pumped [] (plain_start cmds))) = Some (cmds, [])"
    using demo_drain by (simp add: plain_env_def plain_start_def ecat_start_def)
qed

text \<open>The byte with the wrap output alone is on the wire after the first cycle.\<close>

theorem daemon_refines_spec_witness:
  "\<exists>s. ecat_run plain_env [([], DUR_ZERO)] (plain_start [Wrap]) = Some s
    \<and> wg_writer (w_bus (ec_world s)) = Some 1"
proof -
  let ?s0 = "plain_start [Wrap]" and ?b = "(wago_new () [] None Up)\<lparr>wg_last_input := 2\<rparr>"
  let ?r = "item_cycle plain_env (pumped [] ?s0) demo_inputs2 ?b [Wrap]"
  obtain outs snap c w where r: "?r = ((outs, snap), c, w)" by (metis prod.collapse)
  have nr: "\<not> wg_restart_requested (w_bus w)"
    using restart_needs_return [of "(ec_control (pumped [] ?s0), (ec_world (pumped [] ?s0))\<lparr>w_bus := ?b\<rparr>)"
        "[Wrap]" "ee_net plain_env" demo_inputs2] r
    by (simp add: item_cycle_def wago_new_def)
  have h: "in_healthy demo_inputs2 \<or> ec_ever_up (pumped [] ?s0) \<or> ec_maintenance (pumped [] ?s0)
      \<or> \<not> BRINGUP_DEADLINE \<le> DUR_ZERO" by (simp add: demo_inputs2_def)
  have go: "\<not> ec_stopped ?s0" by (simp add: plain_start_def ecat_start_def)
  obtain s where s: "ecat_item plain_env DUR_ZERO (pumped [] ?s0) = Some s" "\<not> ec_stopped s"
    using ecat_item_eq [OF plain_sample(1) h plain_sample(2) r] nr go by auto
  have run: "ecat_run plain_env [([], DUR_ZERO)] ?s0 = Some s" unfolding ecat_run_Cons using s(1) go by simp
  have doc: "send_documented (ee_bus_send plain_env) id" "\<And>b w. fst (ee_bus_send plain_env b w) = Inr ()"
    by (simp_all add: plain_env_def send_documented_def plain_send_def)
  have x: "ecat_samples plain_env [([], DUR_ZERO)] ?s0 = [(demo_inputs2, [Wrap])]"
    using s(1) plain_sample [of "[Wrap]"] by (simp add: item_sample_def)
  have v: "sw_mode (fst (spec_step (spec_init 0 0) (demo_inputs2, [Wrap]))) = Operational"
    "sw_outputs (fst (spec_step (spec_init 0 0) (demo_inputs2, [Wrap]))) =
      \<lparr>out_wrap = True, out_knives_in = False, out_knives_out = False\<rparr>"
    by (simp_all add: demo_inputs2_def spec_init_def spec_step_def spec_sense_def spec_commands_def
        spec_drive_def spec_view_of_def knife_tick_def Let_def)
  have byte: "out_byte \<lparr>out_wrap = True, out_knives_in = False, out_knives_out = False\<rparr> = 1" by code_simp
  have z: "unat (cn_session (cs_counters demo_store)) = 0" "unat (cn_total (cs_counters demo_store)) = 0"
    by (simp_all add: demo_store_def counters_default_def)
  have n: "id (None :: u8 option) = None" by simp
  note d = daemon_refines_spec [OF doc n plain_start_def run s(2), unfolded x z Let_def]
  have "wg_writer (w_bus (ec_world s)) = Some 1"
    using d [THEN conjunct2, THEN conjunct2] by (simp add: v byte)
  then show ?thesis using run by blast
qed

end
