(* ===== verification/ControlDisk.thy ===== *)
theory ControlDisk
  imports ControlCount
begin

text \<open>
  The counters on the disk under the control cycle. Every update of the counters is persisted at
  once, but a persist may be refused (the cycle ignores that), and the directory is never
  flushed, so a power cut may undo a rename. What a restart finds is therefore a value the
  counters had at some moment of the run, and the last one when nothing was refused and the last
  rename is on the disk.
\<close>

subsection \<open>Invariants of the counters and the disk\<close>

text \<open>\<open>J\<close> is kept by every update whose result is one of the values in \<open>H\<close>; then it is kept by every
  run of the control cycle whose counters stay in \<open>H\<close>.\<close>

locale counter_invariant =
  fixes J :: "counter_store \<Rightarrow> fs \<Rightarrow> bool"
    and H :: "counter_store set"
  assumes update: "J s f \<Longrightarrow> cs_update g s f = (r, s', f') \<Longrightarrow> s' \<in> H \<Longrightarrow> J s' f'"
begin

lemma update_snd:
  "J s f \<Longrightarrow> fst (snd (cs_update g s f)) \<in> H \<Longrightarrow>
    J (fst (snd (cs_update g s f))) (snd (snd (cs_update g s f)))"
  using update by (metis prod.collapse)

lemma keep_pre:
  assumes "J (ct_counters (fst cw)) (w_fs (snd cw))" "ct_counters (fst (ctl_pre i cw)) \<in> H"
  shows "J (ct_counters (fst (ctl_pre i cw))) (w_fs (snd (ctl_pre i cw)))"
proof -
  have i: "ct_counters (ctl_inputs i c) = ct_counters c" for c
    by (simp add: ctl_inputs_def Let_def)
  have l: "ct_counters (ctl_latch i c) = ct_counters c" for c by (simp add: ctl_latch_def)
  show ?thesis
    using assms update_snd [OF assms(1)]
    by (auto simp: ctl_pre_def ctl_count_def increment_bale_def Let_def split_beta l i)
qed

lemma keep_action:
  assumes "J (ct_counters c) (w_fs w)" "ct_counters (fst (ctl_action net bus k r (c, w))) \<in> H"
  shows "J (ct_counters (fst (ctl_action net bus k r (c, w)))) (w_fs (snd (ctl_action net bus k r (c, w))))"
proof (cases r)
  case (Inl e)
  then show ?thesis using assms by (simp add: ctl_action_def)
next
  case (Inr a)
  then show ?thesis
    using assms update_snd [OF assms(1)]
    by (cases a) (auto simp: ctl_action_def Let_def split_beta cs_ops_defs)
qed

lemma keep_command:
  fixes net :: "'n net_port" and bus :: "'b bus_port" and t :: "bool \<times> control \<times> ('n, 'b) world"
  assumes "J (ct_counters (fst (snd t))) (w_fs (snd (snd t)))"
    and "ct_counters (fst (snd (ctl_command net bus cmd t))) \<in> H"
  shows "J (ct_counters (fst (snd (ctl_command net bus cmd t)))) (w_fs (snd (snd (ctl_command net bus cmd t))))"
proof -
  obtain g c w where t: "t = (g, c, w)" by (metis prod.collapse)
  show ?thesis
  proof (rule ctl_command_cases [of cmd net bus g c w])
    fix r st
    assume "ctl_command net bus cmd (g, c, w) =
      (g, ctl_action net bus (ctl_knife_active c) r (c\<lparr>ct_state := st\<rparr>, w))"
    then show ?thesis
      using assms keep_action [of "c\<lparr>ct_state := st\<rparr>" w net bus "ctl_knife_active c" r] by (simp add: t)
  qed (use assms in \<open>simp_all add: t\<close>)
qed

lemma keep_body:
  fixes net :: "'n net_port" and bus :: "'b bus_port" and cw :: "control \<times> ('n, 'b) world"
  assumes "J (ct_counters (fst cw)) (w_fs (snd cw))"
    and "\<And>cmds cmds'. all = cmds @ cmds' \<Longrightarrow> ct_counters (fst (ctl_body net bus cw (i, cmds))) \<in> H"
  shows "J (ct_counters (fst (ctl_body net bus cw (i, all)))) (w_fs (snd (ctl_body net bus cw (i, all))))"
  using assms(2)
proof (induction all rule: rev_induct)
  case Nil
  have "ct_counters (fst (ctl_pre i cw)) \<in> H"
    using Nil [of "[]" "[]"] by (simp add: ctl_body_def ctl_commands_def)
  then show ?case using keep_pre [OF assms(1)] by (simp add: ctl_body_def ctl_commands_def)
next
  case (snoc cmd cmds)
  let ?t = "ctl_commands net bus cmds (ctl_pre i cw)"
  have s: "ctl_commands net bus (cmds @ [cmd]) (ctl_pre i cw) = ctl_command net bus cmd ?t"
    by (simp add: ctl_commands_def)
  have "J (ct_counters (fst (snd ?t))) (w_fs (snd (snd ?t)))"
    using snoc by (simp add: ctl_body_def)
  moreover have "ct_counters (fst (snd (ctl_command net bus cmd ?t))) \<in> H"
    using snoc.prems [of "cmds @ [cmd]" "[]"] by (simp add: ctl_body_def s)
  ultimately show ?case using keep_command by (simp add: ctl_body_def s)
qed

end

text \<open>A run that is cut short, between two cycles or within the command loop of one.\<close>

inductive cut_short :: "('i \<times> 'c list) list \<Rightarrow> ('i \<times> 'c list) list \<Rightarrow> bool" where
  between: "cut_short xs []"
| within: "cut_short ((i, cs @ cs') # xs) [(i, cs)]"
| later: "cut_short xs ys \<Longrightarrow> cut_short (x # xs) (x # ys)"

inductive_simps cut_short_simps: "cut_short [] ys" "cut_short (x # xs) ys"

lemma cut_short_refl: "cut_short xs xs"
  by (induction xs) (auto intro: cut_short.intros)

definition held ::
  "'n net_port \<Rightarrow> 'b bus_port \<Rightarrow> control \<times> ('n, 'b) world \<Rightarrow> (inputs \<times> command list) list \<Rightarrow> counter_store set" where
  "held net bus cw xs = {ct_counters (fst (run_end (ctl_step net bus) cw ys)) |ys. cut_short xs ys}"

context counter_invariant
begin

lemma keep_run:
  fixes net :: "'n net_port" and bus :: "'b bus_port" and cw :: "control \<times> ('n, 'b) world"
  assumes "J (ct_counters (fst cw)) (w_fs (snd cw))" "held net bus cw xs \<subseteq> H"
  shows "J (ct_counters (fst (run_end (ctl_step net bus) cw xs))) (w_fs (snd (run_end (ctl_step net bus) cw xs)))"
  using assms
proof (induction xs arbitrary: cw)
  case Nil
  then show ?case by simp
next
  case (Cons x xs)
  obtain i all where x: "x = (i, all)" by fastforce
  have "ct_counters (fst (ctl_body net bus cw (i, cmds))) \<in> H" if "all = cmds @ cmds'" for cmds cmds'
  proof -
    have "cut_short (x # xs) [(i, cmds)]" using that x by (simp add: within)
    then have "ct_counters (fst (run_end (ctl_step net bus) cw [(i, cmds)])) \<in> H"
      using Cons.prems(2) by (auto simp only: held_def)
    then show ?thesis by (simp add: ctl_step_fields(7))
  qed
  then have "J (ct_counters (fst (snd (ctl_step net bus cw x)))) (w_fs (snd (snd (ctl_step net bus cw x))))"
    using keep_body [OF Cons.prems(1), of all net bus i] by (simp add: x ctl_step_fields(7,9))
  moreover have "held net bus (snd (ctl_step net bus cw x)) xs \<subseteq> held net bus cw (x # xs)"
    unfolding held_def by (force intro: later)
  ultimately show ?case using Cons.IH Cons.prems(2) by simp
qed

end

subsection \<open>What the disk holds\<close>

definition loads_as :: "path \<Rightarrow> fnode option \<Rightarrow> counter_store \<Rightarrow> bool" where
  "loads_as p v s \<longleftrightarrow> (\<forall>f. verdicts f = [] \<longrightarrow> files f p = v \<longrightarrow> fst (cs_load p f) = Inr s)"

lemma loads_as_new:
  "loads_as (cs_path s) (Some \<lparr>fbytes = utf8_encode (cn_text (cs_counters s)), synced = True\<rparr>) s"
  by (simp add: loads_as_def load_persisted)

lemma loads_as_load:
  "fst (cs_load p f) = Inr s \<Longrightarrow> verdicts f = [] \<Longrightarrow> loads_as p (files f p) s"
  unfolding loads_as_def using cs.load_cong by metis

text \<open>Nothing is refused: the present file holds the counters.\<close>

definition exact_disk :: "path \<Rightarrow> counter_store \<Rightarrow> fs \<Rightarrow> bool" where
  "exact_disk p s f \<longleftrightarrow> cs_path s = p \<and> cs_good s \<and> verdicts f = [] \<and> loads_as p (files f p) s"

text \<open>Anything is refused: every version of the file is flushed and holds one of the values.\<close>

definition held_disk :: "path \<Rightarrow> counter_store set \<Rightarrow> counter_store \<Rightarrow> fs \<Rightarrow> bool" where
  "held_disk p H s f \<longleftrightarrow> cs_path s = p \<and> cs_good s
     \<and> (\<forall>v\<in>set (versions f p). (\<forall>x. v = Some x \<longrightarrow> synced x) \<and> (\<exists>t\<in>H. loads_as p v t))"

lemma update_path:
  "cs_update g s f = (r, s', f') \<Longrightarrow> cs_path s' = cs_path s \<and> cs_good s' = cs_good s \<and> cs_persist s' f = (r, f')"
  using cs_update_result [of g s f r s' f'] by (auto simp: cs_good_def)

interpretation exact: counter_invariant "exact_disk p" UNIV for p
proof
  fix s s' f f' g r
  assume e: "exact_disk p s f" and u: "cs_update g s f = (r, s', f')"
  note q = update_path [OF u]
  have v: "verdicts f = []" "cs_good s'" "cs_path s' = p" using e q by (simp_all add: exact_disk_def)
  have "cs_persist s' f = (Inr (), f')" "verdicts f' = []"
    using persist_granted [OF v(1), of s'] q by simp_all
  then show "exact_disk p s' f'"
    using persist_ok_file [OF _ v(2)] loads_as_new [of s'] v by (simp add: exact_disk_def)
qed

interpretation holding: counter_invariant "held_disk p H" H for p H
proof
  fix s s' f f' g r
  assume e: "held_disk p H s f" and u: "cs_update g s f = (r, s', f')" and h: "s' \<in> H"
  note q = update_path [OF u]
  have v: "cs_good s'" "cs_path s' = p" using e q by (simp_all add: held_disk_def)
  show "held_disk p H s' f'"
    using persist_versions [OF v(1) q [THEN conjunct2, THEN conjunct2]] e v h loads_as_new [of s']
    by (auto simp: held_disk_def)
qed

lemma cs_load_path: "fst (cs_load p f) = Inr s \<Longrightarrow> cs_path s = p"
  by (auto simp: cs_load_def split: prod.splits sum.splits if_splits)

lemma ctl_new_load:
  "ctl_new p f = (Inr c, f') \<longleftrightarrow> (\<exists>s. cs_load p f = (Inr s, f') \<and> c = ctl_init s)"
  by (auto simp: ctl_new_def split: prod.splits sum.splits)

lemma ctl_init_counters [simp]: "ct_counters (ctl_init s) = s"
  by (simp add: ctl_init_def)

text \<open>The start: the read of the counters is served.\<close>

lemma load_served:
  assumes "cs_load p f = (Inr s, f')" "fst (next_verdict f) = Grant"
  shows "files f' = files f" "older f' = older f" "loads_as p (files f p) s" "verdicts f = [] \<Longrightarrow> verdicts f' = []"
proof -
  let ?g = "f\<lparr>verdicts := []\<rparr>"
  obtain f1 where n: "next_verdict f = (Grant, f1)" using assms(2) by (cases "next_verdict f") simp
  then have f1: "files f1 = files f" "older f1 = older f" "verdicts f = [] \<Longrightarrow> verdicts f1 = []"
    using files_next_verdict [of f] older_simps(1) [of f] by auto
  have f': "f' = f1"
    using assms(1) n by (auto simp: cs_load_def read_to_string_def split: prod.splits sum.splits option.splits if_splits)
  show "files f' = files f" "older f' = older f" "verdicts f = [] \<Longrightarrow> verdicts f' = []" using f' f1 by simp_all
  have "fst (read_to_string p ?g) = fst (read_to_string p f)"
    using f1(1) by (simp add: read_to_string_def n split: option.split)
  then have "fst (cs_load p ?g) = fst (cs_load p f)"
    by (auto simp: cs_load_def split: prod.splits sum.splits)
  then have "fst (cs_load p ?g) = Inr s" using assms(1) by simp
  from loads_as_load [OF this] show "loads_as p (files f p) s" by simp
qed

lemma disk_started:
  assumes "ctl_new p f = (Inr c, f')" "fst (next_verdict f) = Grant"
    and "\<forall>x. files f p = Some x \<longrightarrow> synced x" "older f p = []" "tmp_path p \<noteq> p" "ct_counters c \<in> H"
  shows "held_disk p H (ct_counters c) f'" "verdicts f = [] \<Longrightarrow> exact_disk p (ct_counters c) f'"
proof -
  obtain s where s: "cs_load p f = (Inr s, f')" "c = ctl_init s" using assms(1) ctl_new_load by blast
  note l = load_served [OF s(1) assms(2)]
  have path: "cs_path s = p" using cs_load_path [of p f s] s(1) by simp
  then have good: "cs_good s" using assms(5) by (simp add: cs_good_def)
  show "held_disk p H (ct_counters c) f'"
    using l path good assms(3,4,6) s(2) by (auto simp: held_disk_def versions_def)
  show "exact_disk p (ct_counters c) f'" if "verdicts f = []"
    using l path good s(2) that by (simp add: exact_disk_def)
qed

lemma held_reboot:
  assumes "held_disk p H s f"
  shows "\<exists>t\<in>H. ctl_new p (power_loss pick junk f) = (Inr (ctl_init t), power_loss pick junk f)"
proof -
  obtain v where v: "v \<in> set (versions f p)" "files (power_loss pick junk f) p = settle (junk p) v"
    using power_loss_version [of f p pick junk] by blast
  have "settle (junk p) v = v" by (rule settle_synced) (use assms v(1) in \<open>simp add: held_disk_def\<close>)
  then obtain t where t: "t \<in> H" "fst (cs_load p (power_loss pick junk f)) = Inr t"
    using assms v by (auto simp: held_disk_def loads_as_def)
  moreover have "snd (cs_load p (power_loss pick junk f)) = power_loss pick junk f"
    by (simp add: cs_load_def read_to_string_def split: option.splits)
  ultimately show ?thesis unfolding ctl_new_load by (metis prod.collapse)
qed

lemma exact_reboot:
  assumes "exact_disk p s f" "held_disk p H s f" "pick p = 0"
  shows "ctl_new p (power_loss pick junk f) = (Inr (ctl_init s), power_loss pick junk f)"
proof -
  have "settle (junk p) (files f p) = files f p"
    by (rule settle_synced) (use assms(2) in \<open>simp add: held_disk_def versions_def\<close>)
  then have "files (power_loss pick junk f) p = files f p"
    by (simp add: power_loss_def versions_def assms(3))
  then have "fst (cs_load p (power_loss pick junk f)) = Inr s"
    using assms(1) by (simp add: exact_disk_def loads_as_def)
  moreover have "snd (cs_load p (power_loss pick junk f)) = power_loss pick junk f"
    by (simp add: cs_load_def read_to_string_def split: option.splits)
  ultimately show ?thesis unfolding ctl_new_load by (metis prod.collapse)
qed

lemma disk_after_run:
  fixes net :: "'n net_port" and bus :: "'b bus_port"
  assumes "ctl_new p f = (Inr c, f')" "fst (next_verdict f) = Grant"
    and "\<forall>x. files f p = Some x \<longrightarrow> synced x" "older f p = []" "tmp_path p \<noteq> p"
    and "run_end (ctl_step net bus) (c, \<lparr>w_fs = f', w_net = n, w_bus = b\<rparr>) xs = (c', w')"
  shows "held_disk p (held net bus (c, \<lparr>w_fs = f', w_net = n, w_bus = b\<rparr>) xs) (ct_counters c') (w_fs w')"
    and "verdicts f = [] \<Longrightarrow> exact_disk p (ct_counters c') (w_fs w')"
proof -
  let ?cw = "(c, \<lparr>w_fs = f', w_net = n, w_bus = b\<rparr>)"
  have "ct_counters c \<in> held net bus ?cw xs"
    unfolding held_def using between [of xs] by force
  note d = disk_started [OF assms(1-5) this]
  show "held_disk p (held net bus ?cw xs) (ct_counters c') (w_fs w')"
    using holding.keep_run [where cw = ?cw and net = net and bus = bus and xs = xs] d(1) assms(6) by simp
  show "exact_disk p (ct_counters c') (w_fs w')" if "verdicts f = []"
    using exact.keep_run [where cw = ?cw and net = net and bus = bus and xs = xs] d(2) [OF that] assms(6) by simp
qed

text \<open>C12. What a restart finds. The daemon is started on a disk with nothing pending, its read of the
  counters is served, and from then on any call to the file system may be refused. If the power
  is cut after any run, whichever directory changes are lost and whatever the unflushed files
  hold, the next start succeeds and shows the counts the daemon had at some moment of the run
  (after some of its cycles, or within the command loop of one), never anything else. When
  nothing was refused and the present entry of the counters file is on the disk, these are
  exactly the counts shown last.\<close>

theorem shown_counts_survive_reboot:
  assumes "ctl_new p f = (Inr c, f')" "fst (next_verdict f) = Grant"
    and "\<forall>x. files f p = Some x \<longrightarrow> synced x" "older f p = []" "tmp_path p \<noteq> p"
    and "run_end (ctl_step net bus) (c, \<lparr>w_fs = f', w_net = n, w_bus = b\<rparr>) xs = (c', w')"
  shows "\<exists>d ys e v. fst (ctl_new p (power_loss pick junk (w_fs w'))) = Inr d
    \<and> cut_short xs ys \<and> run_end (ctl_step net bus) (c, \<lparr>w_fs = f', w_net = n, w_bus = b\<rparr>) ys = (e, v)
    \<and> ss_session (ctl_snapshot d) = ss_session (ctl_snapshot e)
    \<and> ss_total (ctl_snapshot d) = ss_total (ctl_snapshot e)
    \<and> (verdicts f = [] \<and> pick p = 0 \<longrightarrow> ys = xs)"
proof -
  let ?cw = "(c, \<lparr>w_fs = f', w_net = n, w_bus = b\<rparr>)" and ?g = "power_loss pick junk (w_fs w')"
  note disk = disk_after_run [OF assms]
  obtain ys where ys: "cut_short xs ys" "verdicts f = [] \<and> pick p = 0 \<longrightarrow> ys = xs"
      "fst (ctl_new p ?g) = Inr (ctl_init (ct_counters (fst (run_end (ctl_step net bus) ?cw ys))))"
  proof (cases "verdicts f = [] \<and> pick p = 0")
    case True
    then have "ctl_new p ?g = (Inr (ctl_init (ct_counters c')), ?g)"
      using exact_reboot [OF disk(2) disk(1)] by simp
    then show thesis by (intro that [of xs]) (simp_all add: assms(6) cut_short_refl)
  next
    case False
    obtain t where "t \<in> held net bus ?cw xs" "ctl_new p ?g = (Inr (ctl_init t), ?g)"
      using held_reboot [OF disk(1)] by blast
    then show thesis using that False by (auto simp: held_def)
  qed
  have counts: "ss_session (ctl_snapshot (ctl_init (ct_counters e))) = ss_session (ctl_snapshot e)"
      "ss_total (ctl_snapshot (ctl_init (ct_counters e))) = ss_total (ctl_snapshot e)" for e
    by (simp_all add: ctl_snapshot_def Let_def)
  show ?thesis using ys counts by (metis prod.collapse)
qed

theorem shown_counts_survive_reboot_witness:
  "\<exists>c w d. run_end (ctl_step sim_network noop_bus)
        (ctl_init demo_store, demo_world)
        (replicate 5 (demo_inputs\<lparr>in_bale_open := True\<rparr>, [AdjustSession 3])) = (c, w)
      \<and> fst (ctl_new demo_path (power_loss (\<lambda>_. 0) (\<lambda>_. [0]) (w_fs w))) = Inr d
      \<and> ss_total (ctl_snapshot d) = ss_total (ctl_snapshot c)"
proof -
  have n: "ctl_new demo_path empty_fs = (Inr (ctl_init demo_store), empty_fs)"
    by (simp add: ctl_new_def cs_load_def read_to_string_def empty_fs_def demo_store_def)
  obtain c w where e: "run_end (ctl_step sim_network noop_bus)
      (ctl_init demo_store, \<lparr>w_fs = empty_fs, w_net = (), w_bus = ()\<rparr>)
      (replicate 5 (demo_inputs\<lparr>in_bale_open := True\<rparr>, [AdjustSession 3])) = (c, w)"
    by fastforce
  have start: "fst (next_verdict empty_fs) = Grant" "\<forall>x. files empty_fs demo_path = Some x \<longrightarrow> synced x"
      "older empty_fs demo_path = []" "verdicts empty_fs = []"
    by (simp_all add: empty_fs_def)
  show ?thesis
    using shown_counts_survive_reboot [OF n start(1-3) demo_good e, of "\<lambda>_. 0" "\<lambda>_. [0]"] e start(4)
    by (auto simp: demo_world_def)
qed

text \<open>A saved count may be lost: an update that reports success (here the count of a bale) over a
  counters file that holds the previous counts can be undone by a power cut right after it,
  because the rename is in a directory that is never flushed. The next start then loads the
  counts of before.\<close>

theorem saved_count_may_be_lost:
  assumes "increment_bale s f = (Inr (), s', f')" "cs_good s"
    and "files f (cs_path s) = Some \<lparr>fbytes = utf8_encode (cn_text (cs_counters s)), synced = True\<rparr>"
    and "pick (cs_path s) = 1"
  shows "fst (cs_load (cs_path s) (power_loss pick junk f')) = Inr s"
proof -
  have u: "cs_update (\<lambda>c. c\<lparr>cn_session := sat_add (cn_session c) 1, cn_total := sat_add (cn_total c) 1\<rparr>) s f
      = (Inr (), s', f')"
    using assms(1) by (simp add: increment_bale_def)
  note q = update_path [OF u]
  have g: "cs_good s'" "cs_path s' = cs_path s" "cs_persist s' f = (Inr (), f')" using q assms(2) by auto
  obtain f1 where "fs_run (persist_prepare s') f = (Inr (), f1)"
      "fs_exec (Rename (tmp_path (cs_path s')) (cs_path s')) f1 = (Inr (), f')"
    using g(3) by (auto simp: cs_persist_def persist_ops_def fs_run_append split: prod.splits sum.splits)
  then have "older f' (cs_path s) = versions f (cs_path s)"
    using fs_run_versions [OF prepare_frame [OF g(1)], of f] g(1,2) older_simps(1) [of f1] files_next_verdict [of f1]
    by (cases "next_verdict f1")
      (auto simp: fs_exec_def cs_good_def versions_def split: verdict.splits option.splits)
  then have "files (power_loss pick junk f') (cs_path s) = files f (cs_path s)"
    by (simp add: power_loss_def versions_def assms(3,4) settle_def)
  then show ?thesis using load_persisted [of "power_loss pick junk f'" s True] assms(3) by simp
qed

theorem saved_count_may_be_lost_witness:
  "\<exists>s f s' f'. increment_bale s f = (Inr (), s', f') \<and> cs_path s = demo_path
    \<and> cn_total (cs_counters s) = 41 \<and> cn_total (cs_counters s') = 42
    \<and> fst (cs_load demo_path (power_loss (\<lambda>_. 1) (\<lambda>_. []) f')) = Inr s"
proof -
  let ?s = "\<lparr>cs_path = demo_path, cs_counters = \<lparr>cn_session = 7, cn_total = 41\<rparr>\<rparr>"
  let ?f = "put_file demo_path \<lparr>fbytes = utf8_encode (cn_text (cs_counters ?s)), synced = True\<rparr> empty_fs"
  obtain r s' f' where e: "increment_bale ?s ?f = (r, s', f')" by (metis prod_cases3)
  have u: "s' = ?s\<lparr>cs_counters := \<lparr>cn_session = sat_add 7 1, cn_total = sat_add 41 1\<rparr>\<rparr>" "cs_persist s' ?f = (r, f')"
    using cs_update_result [of _ ?s ?f r s' f'] e unfolding increment_bale_def by fastforce+
  have "r = Inr ()" using persist_granted(1) [of ?f s'] u(2) by (simp add: put_file_def empty_fs_def)
  moreover have "cn_total (cs_counters s') = 42" using u(1) by (simp add: sat_add_def)
  moreover have "fst (cs_load (cs_path ?s) (power_loss (\<lambda>_. 1) (\<lambda>_. []) f')) = Inr ?s"
    by (rule saved_count_may_be_lost [OF e [unfolded \<open>r = Inr ()\<close>]]) (simp_all add: cs_good_def demo_good)
  ultimately show ?thesis using e by (intro exI [of _ ?s] exI [of _ ?f] exI [of _ s'] exI [of _ f']) simp
qed

end
