(* ===== verification/DaemonRestart.thy ===== *)
theory DaemonRestart
  imports ControlDisk
begin

text \<open>
  What a restart of the daemon forgets. The counters come back, but the debouncers and the last
  level of the gate start low, so a gate that stays open over the restart (a power cycle, the
  exit after maintenance, a reset by the watchdog) is seen as opening.
\<close>

lemma open_stays:
  assumes "db_wf d" "db_level d" "\<forall>i\<in>set is. in_bale_open i"
  shows "bale_edges d is = 0"
  using assms
proof (induction "is" arbitrary: d)
  case Nil
  then show ?case by simp
next
  case (Cons i "is")
  then have o: "in_bale_open i" by simp
  have "db_level (snd (db_update d True))" "fst (db_update d True) \<noteq> Rising"
    using Cons.prems(1,2) rising_iff [OF Cons.prems(1), of True] by (auto simp: db_update_eq)
  then show ?case using Cons.IH [of "snd (db_update d True)"] Cons.prems by (simp add: o db_wf_update)
qed

lemma db_wf_run: "db_wf d \<Longrightarrow> db_wf (run_end db_update d xs)"
  by (induction xs arbitrary: d) (auto intro: db_wf_update)

text \<open>The third open sample of a fresh debouncer is its rising edge.\<close>

lemma open_from_start:
  assumes "\<forall>i\<in>set is. in_healthy i \<and> in_bale_open i" "3 \<le> length is"
  shows "bale_edges (db_new DEBOUNCE False) is = 1"
proof -
  obtain a b c rest where split: "is = a # b # c # rest"
    using assms(2) by (auto simp: numeral_3_eq_3 Suc_le_length_iff)
  let ?d = "\<lambda>n. run_end db_update (db_new DEBOUNCE False) (replicate n True)"
  have e: "fst (db_update (?d 0) True) \<noteq> Rising" "fst (db_update (?d 1) True) \<noteq> Rising"
      "fst (db_update (?d 2) True) = Rising" "db_level (?d 3)" by code_simp+
  have wf: "db_wf (?d 3)" by (intro db_wf_run db_wf_new)
  have "bale_edges (?d 3) rest = 0"
    by (rule open_stays [OF wf e(4)]) (use assms(1) split in auto)
  then show ?thesis
    using e(1-3) assms(1) by (simp add: split numeral_2_eq_2 numeral_3_eq_3)
qed

text \<open>C13. A restart with the gate open counts a bale: after any run of the daemon, ended by a power cut
  or an exit, the next start counts one more bale than it loaded, although the gate has never
  been seen closed in between, as soon as the bus is healthy and the gate open for three cycles.
  When nothing was refused and the counters file is found as the daemon left it (as after an
  exit), what it loaded is the total shown last, so the same opening is counted twice.\<close>

theorem restart_counts_open_gate:
  assumes "ctl_new p f = (Inr c, f')" "fst (next_verdict f) = Grant"
    and "\<forall>x. files f p = Some x \<longrightarrow> synced x" "older f p = []" "tmp_path p \<noteq> p"
    and "run_end (ctl_step net bus) (c, \<lparr>w_fs = f', w_net = n, w_bus = b\<rparr>) xs = (c', w')"
    and "ctl_new p (power_loss pick junk (w_fs w')) = (Inr d, g)"
    and "\<forall>y\<in>set ys. in_healthy (fst y) \<and> in_bale_open (fst y) \<and> ResetTotal \<notin> set (snd y)" "3 \<le> length ys"
    and "(d', v') = run_end (ctl_step net bus) (d, v) ys"
  shows "unat (ss_total (ctl_snapshot d')) = min (unat (ss_total (ctl_snapshot d)) + 1) (2 ^ 64 - 1)
    \<and> (verdicts f = [] \<and> pick p = 0 \<longrightarrow> ss_total (ctl_snapshot d) = ss_total (ctl_snapshot c'))"
proof -
  obtain s where d: "d = ctl_init s" using assms(7) ctl_new_load by blast
  have i: "ct_open_db d = db_new DEBOUNCE False" "ct_last_open_level d = db_level (db_new DEBOUNCE False)"
    unfolding d by (simp_all add: ctl_init_def) (simp add: db_new_def)
  have "bale_edges (db_new DEBOUNCE False) (map fst ys) = 1"
    by (rule open_from_start) (use assms(8,9) in auto)
  moreover have "\<forall>y\<in>set ys. ResetTotal \<notin> set (snd y)" using assms(8) by blast
  ultimately have count: "unat (ss_total (ctl_snapshot d')) = min (unat (ss_total (ctl_snapshot d)) + 1) (2 ^ 64 - 1)"
    using ctl_run_total [of "(d, v)" ys net bus] unfolding assms(10) [symmetric] fst_conv i
    by (simp add: db_wf_new ctl_snapshot_def Let_def cs_snapshot_def)
  have "ss_total (ctl_snapshot d) = ss_total (ctl_snapshot c')" if "verdicts f = []" "pick p = 0"
  proof -
    note disk = disk_after_run [OF assms(1-6)]
    have "s = ct_counters c'"
      using exact_reboot [OF disk(2) disk(1), of pick junk] that assms(7) d
      by (simp add: ctl_init_def)
    then show ?thesis by (simp add: d ctl_snapshot_def Let_def)
  qed
  then show ?thesis using count by blast
qed

text \<open>The gate is open for five cycles, the machine is switched off and on, the gate is still open:
  one bale becomes two.\<close>

theorem restart_counts_open_gate_witness:
  "\<exists>c w d d' v'. run_end (ctl_step sim_network noop_bus) (ctl_init demo_store, demo_world)
        (replicate 5 (demo_inputs\<lparr>in_bale_open := True\<rparr>, [])) = (c, w)
      \<and> fst (ctl_new demo_path (power_loss (\<lambda>_. 0) (\<lambda>_. []) (w_fs w))) = Inr d
      \<and> (d', v') = run_end (ctl_step sim_network noop_bus) (d, demo_world)
          (replicate 5 (demo_inputs\<lparr>in_bale_open := True\<rparr>, []))
      \<and> unat (ss_total (ctl_snapshot c)) = 1 \<and> unat (ss_total (ctl_snapshot d')) = 2"
proof -
  let ?x = "(demo_inputs\<lparr>in_bale_open := True\<rparr>, []) :: inputs \<times> command list"
  have n: "ctl_new demo_path empty_fs = (Inr (ctl_init demo_store), empty_fs)"
    by (simp add: ctl_new_def cs_load_def read_to_string_def empty_fs_def demo_store_def)
  have start: "fst (next_verdict empty_fs) = Grant" "\<forall>x. files empty_fs demo_path = Some x \<longrightarrow> synced x"
      "older empty_fs demo_path = []" and granted: "verdicts empty_fs = []"
    by (simp_all add: empty_fs_def)
  obtain c w where e: "run_end (ctl_step sim_network noop_bus)
      (ctl_init demo_store, \<lparr>w_fs = empty_fs, w_net = (), w_bus = ()\<rparr>) (replicate 5 ?x) = (c, w)"
    by fastforce
  obtain d g where d: "ctl_new demo_path (power_loss (\<lambda>_. 0) (\<lambda>_. []) (w_fs w)) = (Inr d, g)"
    using held_reboot [OF disk_after_run(1) [OF n start demo_good e]] by blast
  obtain d' v' where r: "(d', v') = run_end (ctl_step sim_network noop_bus) (d, demo_world) (replicate 5 ?x)"
    by (metis surj_pair)
  have "unat (ss_total (ctl_snapshot d')) = min (unat (ss_total (ctl_snapshot d)) + 1) (2 ^ 64 - 1)
      \<and> (verdicts empty_fs = [] \<and> (\<lambda>_. 0 :: nat) demo_path = 0 \<longrightarrow> ss_total (ctl_snapshot d) = ss_total (ctl_snapshot c))"
    by (rule restart_counts_open_gate [OF n start demo_good e d _ _ r]) (simp_all add: demo_inputs_def)
  moreover have "unat (ss_total (ctl_snapshot c)) = 1"
  proof -
    have "bale_edges (db_new DEBOUNCE False) (map fst (replicate 5 ?x)) = 1"
      by (rule open_from_start) (simp_all add: demo_inputs_def)
    then have "unat (total_of c) = 1"
      using ctl_run_total [of "(ctl_init demo_store, \<lparr>w_fs = empty_fs, w_net = (), w_bus = ()\<rparr>)" "replicate 5 ?x"
          sim_network noop_bus] e
      by (simp add: ctl_init_def db_wf_new demo_store_def counters_default_def) (simp add: db_new_def)
    then show ?thesis by (simp add: ctl_snapshot_def Let_def cs_snapshot_def)
  qed
  ultimately show ?thesis
    using e d r granted by (intro exI [of _ c] exI [of _ w] exI [of _ d] exI [of _ d'] exI [of _ v'])
      (simp add: demo_world_def)
qed

end
