(* ===== verification/CounterLoad.thy ===== *)
theory CounterLoad
  imports Counter
begin

text \<open>
  What loading makes of any file, against a specification of the format that is independent of
  the parser: lines \<open>key=value\<close>, a value is a decimal numeral below \<open>2 ^ 64\<close> with an optional
  plus sign, the last value given to a key counts, other keys are ignored, and one bad line makes
  the whole file count as zero.
\<close>

subsection \<open>The format\<close>

definition numeral_value :: "str \<Rightarrow> nat" where
  "numeral_value ds = foldl (\<lambda>a c. a * 10 + (c - 48)) 0 ds"

definition decimal :: "str \<Rightarrow> nat option" where
  "decimal t =
     (let ds = (if t \<noteq> [] \<and> hd t = 43 then tl t else t) in
      if ds \<noteq> [] \<and> list_all (\<lambda>c. 48 \<le> c \<and> c \<le> 57) ds \<and> numeral_value ds < 2 ^ 64
      then Some (numeral_value ds) else None)"

definition entry_of :: "str \<Rightarrow> (str \<times> nat) option" where
  "entry_of l =
     (if 61 \<in> set l
      then map_option (\<lambda>n. (trim (takeWhile (\<lambda>c. c \<noteq> 61) l), n))
             (decimal (trim (tl (dropWhile (\<lambda>c. c \<noteq> 61) l))))
      else None)"

definition last_given :: "str \<Rightarrow> (str \<times> nat) list \<Rightarrow> u64" where
  "last_given k es =
     (let mine = filter (\<lambda>e. fst e = k) es in if mine = [] then 0 else of_nat (snd (last mine)))"

definition counts_of :: "str \<Rightarrow> counters" where
  "counts_of t =
     (let es = map entry_of (str_lines t) in
      if None \<in> set es then counters_default
      else \<lparr>cn_session = last_given (lit ''session'') (map the es),
            cn_total = last_given (lit ''total'') (map the es)\<rparr>)"

subsection \<open>The parser meets it\<close>

lemma foldl_digits_mono: "a \<le> foldl (\<lambda>a c. a * 10 + (c - 48)) a ds" for a :: nat
proof (induction ds arbitrary: a)
  case Nil
  then show ?case by simp
next
  case (Cons d ds)
  have "a \<le> a * 10 + (d - 48)" by simp
  also have "\<dots> \<le> foldl (\<lambda>a c. a * 10 + (c - 48)) (a * 10 + (d - 48)) ds" by (rule Cons.IH)
  finally show ?case by simp
qed

lemma parse_digits_value:
  "a < 2 ^ 64 \<Longrightarrow> parse_digits a ds =
    (if list_all (\<lambda>c. 48 \<le> c \<and> c \<le> 57) ds \<and> foldl (\<lambda>a c. a * 10 + (c - 48)) a ds < 2 ^ 64
     then Some (foldl (\<lambda>a c. a * 10 + (c - 48)) a ds) else None)"
proof (induction ds arbitrary: a)
  case Nil
  then show ?case by simp
next
  case (Cons d ds)
  define v where "v = a * 10 + (d - 48)"
  have p: "parse_digits a (d # ds) =
      (if 48 \<le> d \<and> d \<le> 57 then if v < 2 ^ 64 then parse_digits v ds else None else None)"
    by (simp only: parse_digits.simps Let_def v_def)
  have f: "foldl (\<lambda>a c. a * 10 + (c - 48)) a (d # ds) = foldl (\<lambda>a c. a * 10 + (c - 48)) v ds"
    by (simp only: foldl.simps v_def)
  show ?case
  proof (cases "v < 2 ^ 64")
    case True
    then show ?thesis unfolding p f by (simp only: Cons.IH [OF True] list.pred_inject if_True) auto
  next
    case False
    then have "\<not> foldl (\<lambda>a c. a * 10 + (c - 48)) v ds < 2 ^ 64"
      using foldl_digits_mono [of v ds] by linarith
    then show ?thesis using False unfolding p f by (simp only: list.pred_inject if_False simp_thms) auto
  qed
qed

lemma parse_u64_decimal: "parse_u64 t = map_option of_nat (decimal t)"
proof (cases t)
  case Nil
  then show ?thesis by (simp add: parse_u64_def decimal_def)
next
  case (Cons c cs)
  then show ?thesis
    using parse_digits_value [of 0 cs] parse_digits_value [of 0 "c # cs"]
    by (auto simp: parse_u64_def decimal_def numeral_value_def Let_def simp del: parse_digits.simps(2))
qed

lemma split_once_entry:
  "split_once d l =
    (if d \<in> set l then Some (takeWhile (\<lambda>c. c \<noteq> d) l, tl (dropWhile (\<lambda>c. c \<noteq> d) l)) else None)"
  by (induction l) auto

lemma parse_lines_Cons:
  "parse_lines c (l # ls) =
    (case entry_of l of None \<Rightarrow> None | Some (k, n) \<Rightarrow> parse_lines (set_counter k (of_nat n) c) ls)"
  by (simp add: entry_of_def split_once_entry parse_u64_decimal split: option.split)

declare parse_lines.simps(2) [simp del]

text \<open>The value a key has after a sequence of entries, starting from some counters.\<close>

definition given_or :: "u64 \<Rightarrow> str \<Rightarrow> (str \<times> nat) list \<Rightarrow> u64" where
  "given_or d k es = (if filter (\<lambda>e. fst e = k) es = [] then d else last_given k es)"

lemma given_or_Cons: "given_or d k (e # es) = given_or (if fst e = k then of_nat (snd e) else d) k es"
  by (simp add: given_or_def last_given_def Let_def)

lemma parse_lines_entries:
  "parse_lines c ls =
    (let es = map entry_of ls in
     if None \<in> set es then None
     else Some \<lparr>cn_session = given_or (cn_session c) (lit ''session'') (map the es),
                cn_total = given_or (cn_total c) (lit ''total'') (map the es)\<rparr>)"
proof (induction ls arbitrary: c)
  case Nil
  then show ?case by (simp add: given_or_def)
next
  case (Cons l ls)
  show ?case
  proof (cases "entry_of l")
    case None
    then show ?thesis by (simp add: parse_lines_Cons)
  next
    case (Some e)
    obtain k n where e: "e = (k, n)" by fastforce
    have ne: "lit ''session'' \<noteq> lit ''total''" by simp
    have sc: "cn_session (set_counter k v c) = (if k = lit ''session'' then v else cn_session c)"
        "cn_total (set_counter k v c) = (if k = lit ''total'' then v else cn_total c)" for v
      using ne by (auto simp: set_counter_def simp del: lit_Cons)
    show ?thesis
      by (simp add: parse_lines_Cons Some e Cons.IH given_or_Cons sc Let_def del: lit_Cons)
  qed
qed

lemma cn_parse_counts:
  "(case cn_parse t of Some c \<Rightarrow> c | None \<Rightarrow> counters_default) = counts_of t"
proof -
  have "given_or 0 k es = last_given k es" for k es by (simp add: given_or_def last_given_def)
  then show ?thesis
    by (simp add: cn_parse_def parse_lines_entries counts_of_def counters_default_def Let_def del: lit_Cons)
qed

text \<open>C39. What loading makes of a file that exists and can be read: bytes that are not UTF-8 are an
  error that \<open>load\<close> returns; otherwise the counters are the last values the lines \<open>session=\<close> and
  \<open>total=\<close> give (zero when there is none), and all zero as soon as one line has no equals sign or
  a value that is not a decimal numeral below \<open>2 ^ 64\<close>.\<close>

theorem load_exact:
  assumes "files f p = Some x" "verdicts f = []"
  shows "fst (cs_load p f) =
    (case utf8_decode (fbytes x) of
       None \<Rightarrow> Inl InvalidData
     | Some t \<Rightarrow> Inr \<lparr>cs_path = p, cs_counters = counts_of t\<rparr>)"
  using assms by (simp add: cs_load_def read_to_string_def cn_parse_counts split: option.split)

text \<open>Spaces, a plus sign, an unknown key and a key given twice; and a file with one bad line.\<close>

theorem load_exact_witness:
  "fst (cs_load demo_path (put_file demo_path
      \<lparr>fbytes = utf8_encode (lit '' total = +7'' @ [10] @ lit ''x=1'' @ [10] @ lit ''total=9'' @ [10]), synced = True\<rparr> empty_fs))
     = Inr \<lparr>cs_path = demo_path, cs_counters = \<lparr>cn_session = 0, cn_total = 9\<rparr>\<rparr>
   \<and> fst (cs_load demo_path (put_file demo_path
      \<lparr>fbytes = utf8_encode (lit ''total=9'' @ [10] @ lit ''session=-1''), synced = True\<rparr> empty_fs))
     = Inr \<lparr>cs_path = demo_path, cs_counters = \<lparr>cn_session = 0, cn_total = 0\<rparr>\<rparr>"
proof -
  let ?a = "lit '' total = +7'' @ [10] @ lit ''x=1'' @ [10] @ lit ''total=9'' @ [10]"
  let ?b = "lit ''total=9'' @ [10] @ lit ''session=-1''"
  have dec: "utf8_decode (utf8_encode ?a) = Some ?a" "utf8_decode (utf8_encode ?b) = Some ?b"
    by (rule utf8_roundtrip; simp add: is_scalar_def)+
  have c: "counts_of ?a = \<lparr>cn_session = 0, cn_total = 9\<rparr>" "counts_of ?b = \<lparr>cn_session = 0, cn_total = 0\<rparr>"
    by (simp_all add: counts_of_def entry_of_def decimal_def last_given_def numeral_value_def str_lines_def
        strip_cr_def trim_def is_ws_def counters_default_def)
  show ?thesis
    using load_exact [of "put_file demo_path \<lparr>fbytes = utf8_encode ?a, synced = True\<rparr> empty_fs" demo_path]
      load_exact [of "put_file demo_path \<lparr>fbytes = utf8_encode ?b, synced = True\<rparr> empty_fs" demo_path]
    by (simp add: put_file_def empty_fs_def dec c del: lit_Cons append.simps)
qed

end
