(* ===== verification/SystemDaemon.thy ===== *)
theory SystemDaemon
  imports DaemonBootProps System
begin

text \<open>
  The cycle of the composed system against the daemon itself. \<open>sy_cycle\<close> is the part of the
  EtherCAT control item that the panel can see; here the whole item (poll, deadline, drain, step,
  restart request, write, pet, publish) is shown to be that cycle, on the inputs it polls, in
  every cycle in which it does not stop the executor.
\<close>

lemma same_world_sym: "same_world w v \<Longrightarrow> same_world v w"
  by (simp add: same_world_def)

text \<open>C40. A cycle of the composed system is a cycle of the daemon: whenever the EtherCAT control item
  runs on the two queues and does not stop the executor, the cycle of the system on the inputs the
  item polls, from the same control state, disk, network and queues, ends in the same control
  state, disk, network and queues, and its outputs are the ones the item hands to the bus after
  its own cycle.\<close>

theorem system_cycle_is_daemon_item:
  fixes s :: "('n, 'b) system" and e e' :: "('n, 'c, 'r, 'w, 'd, command list, state_snapshot list) ecat_state"
  assumes "ecat_item env elapsed e = Some e'" "\<not> ec_stopped e'"
    and "ee_cmd_recv env = queue_recv" "ee_state_send env = queue_send"
    and "wg_poll (ee_bus_recv env) (w_bus (ec_world e)) = Some (i, bus)"
    and "sy_control s = ec_control e" "same_world (sy_world s) (ec_world e)"
    and "ib_cmd_tx (pn_backend (sy_panel s)) = ec_rx e" "ib_state_rx (pn_backend (sy_panel s)) = ec_tx e"
  shows "\<exists>outs s'. sy_cycle (ee_net env) b i s = Some (outs, s')
    \<and> sy_control s' = ec_control e' \<and> same_world (sy_world s') (ec_world e')
    \<and> ib_cmd_tx (pn_backend (sy_panel s')) = ec_rx e' \<and> ib_state_rx (pn_backend (sy_panel s')) = ec_tx e'
    \<and> w_bus (ec_world e') = wg_write (ee_bus_send env) outs
        ((w_bus (snd (snd (item_cycle env e i bus (ec_rx e)))))\<lparr>wg_restart_requested := False\<rparr>)"
proof (rule ecat_item_cases [OF assms(1)])
  fix i' bus' cmds rx outs snap c w
  assume p: "wg_poll (ee_bus_recv env) (w_bus (ec_world e)) = Some (i', bus')"
    and d: "link_drain (ee_cmd_recv env) (ec_rx e) = Some (cmds, rx)"
    and k: "item_cycle env e i' bus' cmds = ((outs, snap), c, w)"
    and e': "e' = e\<lparr>ec_control := c,
        ec_world := w\<lparr>w_bus := wg_write (ee_bus_send env) outs ((w_bus w)\<lparr>wg_restart_requested := False\<rparr>)\<rparr>,
        ec_wd := wp_pet (ee_wd env) (ec_wd e), ec_rx := rx,
        ec_tx := link_publish (ee_state_send env) snap (ec_tx e),
        ec_ever_up := ec_ever_up e \<or> in_healthy i',
        ec_maintenance := ec_maintenance e \<or> ss_mode snap = Ethernet\<rparr>"
  have q: "i' = i" "bus' = bus" "cmds = ec_rx e" "rx = []"
    using p d assms(3,5) by (simp_all add: queue_drain)
  have sw: "same_world ((ec_world e)\<lparr>w_bus := bus'\<rparr>) (sy_world s)"
    using assms(7) by (simp add: same_world_def)
  let ?r = "ctl_step (ee_net env) b (ec_control e, sy_world s) (i, ec_rx e)"
  have r: "fst ?r = (outs, snap)" "fst (snd ?r) = c" "same_world w (snd (snd ?r))"
    using ctl_step_same [OF sw, of "ee_net env" wago_port "ec_control e" "(i, ec_rx e)" b] k
    by (simp_all add: item_cycle_def q)
  have "sy_cycle (ee_net env) b i s = Some (outs, s\<lparr>sy_panel := (sy_panel s)\<lparr>pn_backend :=
      (pn_backend (sy_panel s))\<lparr>ib_cmd_tx := [], ib_state_rx := ec_tx e @ [snap]\<rparr>\<rparr>,
      sy_control := c, sy_world := snd (snd ?r)\<rparr>)"
    using r by (simp add: sy_cycle_eq assms(6,8,9) Let_def)
  then show ?thesis
    using r(3) same_world_sym k
    by (auto simp: e' q assms(4) link_publish_def queue_send_def same_world_def)
qed (use assms(2) in simp_all)

text \<open>A queue with one command, a bus that is up.\<close>

theorem system_cycle_is_daemon_item_witness:
  "\<exists>e' outs s'. ecat_item calm_env DUR_ZERO calm_ecat = Some e' \<and> \<not> ec_stopped e'
    \<and> sy_cycle sim_network noop_bus (sim_poll 0)
        \<lparr>sy_panel = (sy_panel (sy_start (ctl_init demo_store) demo_world empty_fs))\<lparr>pn_backend :=
            \<lparr>ib_state_rx = [], ib_cmd_tx = [ResetSession], ib_last = ipc_initial\<rparr>\<rparr>,
         sy_control = ctl_init demo_store, sy_world = demo_world\<rparr> = Some (outs, s')
    \<and> sy_control s' = ec_control e' \<and> ib_state_rx (pn_backend (sy_panel s')) = ec_tx e'"
proof -
  let ?s = "\<lparr>sy_panel = (sy_panel (sy_start (ctl_init demo_store) demo_world empty_fs))\<lparr>pn_backend :=
            \<lparr>ib_state_rx = [], ib_cmd_tx = [ResetSession], ib_last = ipc_initial\<rparr>\<rparr>,
         sy_control = ctl_init demo_store, sy_world = demo_world\<rparr>"
  obtain e' where e': "ecat_item calm_env DUR_ZERO calm_ecat = Some e'" "\<not> ec_stopped e'" using calm_item by blast
  obtain bus where p: "wg_poll (ee_bus_recv calm_env) (w_bus (ec_world calm_ecat)) = Some (sim_poll 0, bus)"
    using calm_poll by (auto simp: calm_env_def)
  have q: "ee_cmd_recv calm_env = queue_recv" "ee_state_send calm_env = queue_send"
    by (simp_all add: calm_env_def queue_send_def fun_eq_iff)
  have n: "ee_net calm_env = sim_network" by (simp add: calm_env_def)
  have "\<exists>outs s'. sy_cycle (ee_net calm_env) noop_bus (sim_poll 0) ?s = Some (outs, s')
    \<and> sy_control s' = ec_control e' \<and> same_world (sy_world s') (ec_world e')
    \<and> ib_cmd_tx (pn_backend (sy_panel s')) = ec_rx e' \<and> ib_state_rx (pn_backend (sy_panel s')) = ec_tx e'
    \<and> w_bus (ec_world e') = wg_write (ee_bus_send calm_env) outs
        ((w_bus (snd (snd (item_cycle calm_env calm_ecat (sim_poll 0) bus (ec_rx calm_ecat)))))\<lparr>wg_restart_requested := False\<rparr>)"
    by (rule system_cycle_is_daemon_item [OF e' q p])
      (simp_all add: calm_ecat_def ecat_start_def same_world_def demo_world_def)
  then show ?thesis using e' unfolding n by blast
qed

end
