(* ===== verification/Spec2Isabelle.thy ===== *)
theory Spec2Isabelle
  imports Carrier DaemonProps ControlPulse ControlCount ControlModes ControlEthernet NetworkMode
    I18n PanelProps PanelLight PanelBackendProps PanelLoop PanelDemo System DaemonBootProps
    SystemProps SystemRest ControlSpec CoreTests ControlTests PanelTests PanelSafe
    PanelPin PanelMain DaemonSpec DaemonRestart
    CounterLoad ControlDisk SystemDaemon
begin

text \<open>
  A verification library of the baler controller: a Rust program of two processes on one panel
  computer, the daemon (\<open>src/baler-daemon\<close>), which drives the wrapper and the knives of a baler
  over EtherCAT, and the operator panel (\<open>src/baler-ui\<close>), over the shared library of pure logic
  (\<open>src/baler-core\<close>). The operator's keys become commands, the commands cross an iceoryx2
  channel, the daemon runs one control cycle every 10 ms on the inputs it polls, writes the
  outputs, pets the hardware watchdog and publishes a snapshot, which the panel shows.

  \<^bold>\<open>The theories, in the order of the code they model.\<close>

  \<^item> \<open>Prelude\<close>, \<open>RustTime\<close>, \<open>RustText\<close>, \<open>RustFs\<close>: the machine integers with their saturating
    operations, runs of a step function and the locale \<open>safe_machine\<close> of invariants over them;
    \<open>Duration\<close> as seconds and nanoseconds; strings as scalar values with UTF-8, \<open>lines\<close>, \<open>trim\<close>,
    number parsing; a file system of bytes with a flushed flag, where every call may be refused
    (an oracle of verdicts in the state) and a power loss keeps only the contents that were
    flushed and may undo any change of a directory (no directory is ever flushed, so each entry may
    fall back to any of its former targets), and the locales \<open>store\<close> and \<open>durable_store\<close> of what a
    persisted value promises.
  \<^item> \<open>InputConditioner\<close>, \<open>Pulse\<close>, \<open>Counter\<close>, \<open>BalerState\<close>, \<open>Ipc\<close>, \<open>Bringup\<close>, \<open>Channel\<close>:
    \<open>baler-core\<close>, one theory per module. Records have the fields of the structs, a method that
    mutates returns the updated record, \<open>Result\<close> is a sum with the error on the left.
    \<open>CounterLoad\<close> specifies the format of the counters file apart from the parser.
  \<^item> \<open>Ports\<close>, \<open>Control\<close>: the hardware ports as records of functions on a state of their own, and
    the control cycle \<open>ctl_step\<close>, composed of the blocks of \<open>Control::step\<close> in their order.
    \<open>ControlInv\<close> (its invariant, output safety of a cycle), \<open>ControlCycle\<close> (closed forms of a
    cycle), \<open>ControlPulse\<close>, \<open>ControlCount\<close>, \<open>ControlModes\<close>, \<open>ControlEthernet\<close> hold what it does
    over runs: the outputs, the counts, the attention latch and manual-IO, maintenance mode, and
    \<open>ControlDisk\<close> what a restart finds on the disk.
    \<open>ControlSpec\<close> is its specification: a machine \<open>spec_step\<close> of histories of samples, natural-number
    counts, pulses as cycles left and one knife motion with a direction, and the simulation that
    relates the two. \<open>DaemonSpec\<close> carries it to the whole EtherCAT path. \<open>DaemonRestart\<close>: what
    a restart keeps and what it forgets.
  \<^item> \<open>NetworkMode\<close>, \<open>Transport\<close>, \<open>WatchdogDev\<close>, \<open>WagoBus\<close>: the edge modules of the daemon.
  \<^item> \<open>DaemonMain\<close>: the iteration of the simulated loop, the EtherCAT control item with its exits
    and the wait for the link (\<open>main.rs\<close>); \<open>DaemonProps\<close> and \<open>Carrier\<close> what the daemon as a whole
    guarantees on the wire and to the watchdog. \<open>DaemonBoot\<close> and \<open>DaemonBootProps\<close>: the device build
    from its start (ports, link, wait, \<open>register\<close>, executor) to its exit, and the agreement of the two
    run paths.
  \<^item> \<open>I18n\<close>, \<open>Panel\<close>, \<open>PanelProps\<close>, \<open>PanelLight\<close>, \<open>PanelLoop\<close>: the panel: texts, keys and
    screens, the PIN, the view, the LEDs and pixels, the main loop with its redraw key.
    \<open>PanelBackend\<close>, \<open>PanelBackendProps\<close>, \<open>PanelDemo\<close>: its two back ends, and the demo program,
    panel and simulated baler together.
    \<open>PanelSafe\<close> restates the loop with the checks Rust makes (indices into the PIN, additions on
    bytes) as steps that may panic, and shows that none does. \<open>PanelPin\<close>: the PIN is needed again
    after every visit to the service screen. \<open>PanelMain\<close>: the program around the loop, its
    openings, the keypad that is read until it is empty or fails, the drawing, and its end.
  \<^item> \<open>System\<close>, \<open>SystemProps\<close>, \<open>SystemRest\<close>: the panel and the daemon joined by two lossy queues, an inductive step
    relation of frames, cycles and losses in any order, with what holds of every run of it.
    Its daemon is the part of the EtherCAT item the panel can see; \<open>SystemDaemon\<close> shows that a cycle
    of the whole item that does not stop the executor is such a cycle.
  \<^item> \<open>CoreTests\<close>, \<open>ControlTests\<close>, \<open>PanelTests\<close>: the unit tests of the program under their own names,
    each a boolean definition that is shown to hold of the model. The tests of the control cycle
    are scripts of scans and assertions; those that do not look at the ports are carried over to
    the specification by its refinement, where a long run of idle cycles has a closed form.

  \<^bold>\<open>What is shown.\<close> For the control cycle, over every run from power-up and for arbitrary ports:
  output safety, the exact length and direction of the pulses, the exact bale count, the latch,
  manual-IO and its watchdog, maintenance mode. For the counters: round trip, exact loading of any file,
  atomicity under a power loss at any call, and what survives one: a value the counters had at some
  moment of the run, the last one when nothing was refused and the last rename reached the disk. For the whole daemon: no unsafe byte on the wire, silence in
  maintenance, a pet and a publication in every cycle, the only reasons to exit, no exit with success of its own,
  and, on a bus
  that accepts its writes, that the wire and the publications follow the specification. For the
  panel: the PIN cannot be bypassed and protects anew after every visit, the screen is never
  stale and follows the mode, no key is lost or invented until the program ends, and it ends only
  by an error. For the
  parts: characterisations, refinement of the mode diagram, bounds of the retry and the waits,
  blending without overflow. For the two processes together: nothing moves without the operator,
  the wrap key reaches the wrapper, a panel that dies leaves the machine at rest within 531
  cycles, a daemon that dies leaves its last snapshot on the screen, the total on the screen is the
  count of gate openings, and the network key can get out of step with the daemon. Across a restart
  a gate that is open counts once more. The model is also held against the program's own tests.

  \<^bold>\<open>Interfaces.\<close> \<open>safe_machine\<close> (a step function with an invariant), \<open>pulse_output\<close> and
  \<open>pulse_driver\<close> (a guarded pulse and an output driven by one), \<open>store\<close> and \<open>durable_store\<close> (a
  persisted value), \<open>network_controller\<close> (the address a switch reports), \<open>kept_backend\<close> and \<open>panel_backend\<close> (what a
  back end keeps, what the screens rely on), \<open>watched_backend\<close> (the commands a panel can send), \<open>step_simulation\<close> (a step
  function that implements another, up to what is observed), \<open>descending\<close> (idle steps that use up a
  measure), \<open>counter_invariant\<close> (a property of the counters and the disk that every update keeps). Each is interpreted on the definitions of the component that provides it.

  \<^bold>\<open>Loops and time.\<close> Loops over a channel and the wait for the link need not end; they are
  \<open>partial_function (option)\<close>, with absence for not returning, and returning is proved from a
  finite backlog or a poll that finds the link. No fuel is used in the code's definitions; the
  \<open>n\<close> of \<open>backlog recv n\<close> is the number of receives up to the first empty one, any \<open>n\<close> large
  enough gives the same result. The clock is an argument: the elapsed time a step reads.
  The executor alternates the health pump and the control item; the events a pump receives are
  arbitrary, so every other rate of the pump is one of these runs.

  \<^bold>\<open>Parameters.\<close> The iceoryx2 and taktora channels (\<open>try_recv\<close>, \<open>send\<close>, opening), postcard and
  JSON, the \<open>ip\<close> program, the watchdog device, the EtherCAT connector, and the executor, which may
  return after any cycles with any result. What a property needs of one is a named hypothesis (\<open>send_documented\<close>, \<open>ip_documented\<close>, \<open>wd_documented\<close>,
  \<open>json_bytes_documented\<close>) with an instance in its witness.

  \<^bold>\<open>Not modelled.\<close> Log output and its set-up. The executor beyond the order in which it runs the
  two items and its result. The platform object and the build script of the panel, which only hand objects to Slint,
  and the host stub. The lifetime of the transport node, and the thread that drops the connector.
  The choice of features at build time: the device
  build (\<open>DaemonBoot\<close>, \<open>PanelLoop\<close> over \<open>IpcBackend\<close>) and the host build (\<open>sim_loop\<close>, \<open>PanelDemo\<close>) are
  modelled, other mixtures of ports are instances of the same definitions.
\<close>

end
